(* ===== verification/Prelude.thy ===== *)
theory Prelude
  imports Main "HOL-Library.Word"
begin

text \<open>
  Shared vocabulary of the development: the fixed-width integers and identifiers
  of the Rust sources, \<^verbatim>\<open>Result\<close> with its \<^verbatim>\<open>?\<close> operator, checked and
  saturating integer arithmetic, decimal rendering of integers as done by
  \<^verbatim>\<open>format!\<close>, the domain error of \<^verbatim>\<open>error.rs\<close>, and two interfaces that many
  components provide: enumerations with a stored name, and status machines with
  absorbing terminal states.
\<close>

named_theorems result_simps
named_theorems word_arith

section \<open>Types of the sources\<close>

type_synonym u8 = "8 word"
type_synonym u16 = "16 word"
type_synonym u32 = "32 word"
type_synonym u64 = "64 word"

text \<open>
  A \<^verbatim>\<open>uuid::Uuid\<close> is sixteen bytes, ordered as its big-endian number; the
  newtypes of \<^verbatim>\<open>id.rs\<close> are that value.  A \<^verbatim>\<open>Timestamp\<close>
  (\<^verbatim>\<open>chrono::DateTime<Utc>\<close>) is its distance in nanoseconds from the Unix epoch.
\<close>

type_synonym uuid = "128 word"
type_synonym timestamp = int

section \<open>Results\<close>

type_synonym ('e, 'a) result = "'e + 'a"

abbreviation Ok :: "'a \<Rightarrow> ('e, 'a) result"
  where "Ok \<equiv> Inr"

abbreviation Err :: "'e \<Rightarrow> ('e, 'a) result"
  where "Err \<equiv> Inl"

definition and_then :: "('e, 'a) result \<Rightarrow> ('a \<Rightarrow> ('e, 'b) result) \<Rightarrow> ('e, 'b) result"
  where "and_then m f = (case m of Inl e \<Rightarrow> Err e | Inr x \<Rightarrow> f x)"

definition map_err :: "('e \<Rightarrow> 'f) \<Rightarrow> ('e, 'a) result \<Rightarrow> ('f, 'a) result"
  where "map_err g m = (case m of Inl e \<Rightarrow> Err (g e) | Inr x \<Rightarrow> Ok x)"

definition is_ok :: "('e, 'a) result \<Rightarrow> bool"
  where "is_ok m = (case m of Inl _ \<Rightarrow> False | Inr _ \<Rightarrow> True)"

definition ok_or :: "'e \<Rightarrow> 'a option \<Rightarrow> ('e, 'a) result"
  where "ok_or e v = (case v of None \<Rightarrow> Err e | Some x \<Rightarrow> Ok x)"

text \<open>An early return: \<^verbatim>\<open>if c { return Err(e); }\<close>.\<close>

definition reject_if :: "bool \<Rightarrow> 'e \<Rightarrow> ('e, 'a) result \<Rightarrow> ('e, 'a) result"
  where "reject_if c e k = (if c then Err e else k)"

text \<open>A computation that may also abort with a panic.\<close>

datatype 'e failure = Fails 'e | Panics

lemma and_then_simps [simp]:
  "and_then (Ok x) f = f x"
  "and_then (Err e) f = Err e"
  by (simp_all add: and_then_def)

lemma and_then_Ok_iff [result_simps]:
  "and_then m f = Ok y \<longleftrightarrow> (\<exists>x. m = Ok x \<and> f x = Ok y)"
  by (cases m) auto

lemma and_then_Err_iff [result_simps]:
  "and_then m f = Err e \<longleftrightarrow> m = Err e \<or> (\<exists>x. m = Ok x \<and> f x = Err e)"
  by (cases m) auto

lemma and_then_assoc:
  "and_then (and_then m f) g = and_then m (\<lambda>x. and_then (f x) g)"
  by (cases m) auto

lemma and_then_cong [fundef_cong]:
  "m = m' \<Longrightarrow> (\<And>x. m' = Ok x \<Longrightarrow> f x = f' x) \<Longrightarrow> and_then m f = and_then m' f'"
  by (cases m') auto

lemma map_err_simps [simp]:
  "map_err g (Ok x) = Ok x"
  "map_err g (Err e) = Err (g e)"
  by (simp_all add: map_err_def)

lemma map_err_Ok_iff [result_simps]: "map_err g m = Ok x \<longleftrightarrow> m = Ok x"
  by (cases m) auto

lemma map_err_Err_iff [result_simps]: "map_err g m = Err e \<longleftrightarrow> (\<exists>d. m = Err d \<and> e = g d)"
  by (cases m) auto

lemma is_ok_simps [simp]:
  "is_ok (Ok x)"
  "\<not> is_ok (Err e)"
  by (simp_all add: is_ok_def)

lemma is_ok_iff: "is_ok m \<longleftrightarrow> (\<exists>x. m = Ok x)"
  by (cases m) auto

lemma ok_or_simps [simp]:
  "ok_or e (Some x) = Ok x"
  "ok_or e None = Err e"
  by (simp_all add: ok_or_def)

lemma ok_or_Ok_iff [result_simps]: "ok_or e v = Ok x \<longleftrightarrow> v = Some x"
  by (cases v) auto

lemma ok_or_Err_iff [result_simps]: "ok_or e v = Err d \<longleftrightarrow> v = None \<and> d = e"
  by (cases v) auto

lemma reject_if_simps [simp]:
  "reject_if True e k = Err e"
  "reject_if False e k = k"
  by (simp_all add: reject_if_def)

lemma reject_if_Ok_iff [result_simps]: "reject_if c e k = Ok x \<longleftrightarrow> \<not> c \<and> k = Ok x"
  by (simp add: reject_if_def)

lemma reject_if_Err_iff [result_simps]:
  "reject_if c e k = Err d \<longleftrightarrow> (if c then d = e else k = Err d)"
  by (auto simp: reject_if_def)

section \<open>Checked integer arithmetic\<close>

definition checked_add :: "'w::len word \<Rightarrow> 'w word \<Rightarrow> 'w word option"
  where "checked_add a b = (if unat a + unat b < 2 ^ LENGTH('w) then Some (a + b) else None)"

definition checked_sub :: "'w::len word \<Rightarrow> 'w word \<Rightarrow> 'w word option"
  where "checked_sub a b = (if b \<le> a then Some (a - b) else None)"

definition saturating_add :: "'w::len word \<Rightarrow> 'w word \<Rightarrow> 'w word"
  where "saturating_add a b = (if unat a + unat b < 2 ^ LENGTH('w) then a + b else - 1)"

text \<open>Comparisons that evaluate on integers instead of counting.\<close>

lemma unat_numeral_iff:
  "unat w < 2 ^ n \<longleftrightarrow> uint w < 2 ^ n"
  "2 ^ n \<le> unat w \<longleftrightarrow> 2 ^ n \<le> uint w"
  "unat a + unat b < 2 ^ n \<longleftrightarrow> uint a + uint b < 2 ^ n"
  unfolding uint_nat of_nat_add [symmetric] by (metis of_nat_less_iff of_nat_le_iff of_nat_numeral of_nat_power)+

lemmas word_counting_code [code] = checked_add_def [unfolded unat_numeral_iff] saturating_add_def [unfolded unat_numeral_iff]

lemma unat_add_no_overflow:
  fixes a b :: "'w::len word"
  assumes "unat a + unat b < 2 ^ LENGTH('w)"
  shows "unat (a + b) = unat a + unat b"
  using assms by (simp add: unat_word_ariths)

lemma checked_add_Some_iff [word_arith]:
  fixes a b c :: "'w::len word"
  shows "checked_add a b = Some c \<longleftrightarrow> unat c = unat a + unat b"
proof
  assume "checked_add a b = Some c"
  then show "unat c = unat a + unat b"
    by (auto simp: checked_add_def unat_add_no_overflow split: if_splits)
next
  assume sum: "unat c = unat a + unat b"
  have bound: "unat a + unat b < 2 ^ LENGTH('w)"
    using unsigned_less [of c, where ?'a = nat] sum by simp
  have "c = a + b"
    using sum bound by (intro word_unat_eq_iff [THEN iffD2]) (simp add: unat_add_no_overflow)
  with bound show "checked_add a b = Some c"
    by (simp add: checked_add_def)
qed

lemma checked_add_None_iff [word_arith]:
  fixes a b :: "'w::len word"
  shows "checked_add a b = None \<longleftrightarrow> 2 ^ LENGTH('w) \<le> unat a + unat b"
  by (simp add: checked_add_def)

lemma unat_one_word [simp]: "unat (1 :: 'w::len word) = 1"
  by simp

lemma checked_sub_Some_iff [word_arith]:
  fixes a b c :: "'w::len word"
  shows "checked_sub a b = Some c \<longleftrightarrow> b \<le> a \<and> unat c = unat a - unat b"
  by (auto simp: checked_sub_def unat_sub word_le_nat_alt word_unat_eq_iff)

lemma unat_saturating_add [word_arith]:
  fixes a b :: "'w::len word"
  shows "unat (saturating_add a b) = min (unat a + unat b) (2 ^ LENGTH('w) - 1)"
  by (auto simp: saturating_add_def unat_add_no_overflow unsigned_minus_1_eq_mask mask_eq_exp_minus_1)

section \<open>Decimal rendering\<close>

definition digit_char :: "nat \<Rightarrow> char"
  where "digit_char d = (char_of (48 + d) :: char)"

fun show_nat :: "nat \<Rightarrow> string"
  where "show_nat n = (if n < 10 then [digit_char n]
                       else show_nat (n div 10) @ [digit_char (n mod 10)])"

declare show_nat.simps [simp del]

definition show_u64 :: "u64 \<Rightarrow> string"
  where "show_u64 w = show_nat (unat w)"

section \<open>The domain error (error.rs)\<close>

datatype domain_error =
    InvalidArgument string
  | NotFound string
  | RevisionConflict u64 u64
  | PolicyViolation string

fun domain_error_code :: "domain_error \<Rightarrow> string"
  where
    "domain_error_code (InvalidArgument _) = ''invalid_argument''"
  | "domain_error_code (NotFound _) = ''not_found''"
  | "domain_error_code (RevisionConflict _ _) = ''revision_conflict''"
  | "domain_error_code (PolicyViolation _) = ''policy_violation''"

text \<open>The \<^verbatim>\<open>Display\<close> instance derived by \<^verbatim>\<open>thiserror\<close>.\<close>

fun domain_error_display :: "domain_error \<Rightarrow> string"
  where
    "domain_error_display (InvalidArgument m) = ''invalid argument: '' @ m"
  | "domain_error_display (NotFound m) = ''not found: '' @ m"
  | "domain_error_display (RevisionConflict expected current) =
       ''revision conflict: expected '' @ show_u64 expected @ '', current '' @ show_u64 current"
  | "domain_error_display (PolicyViolation m) = ''policy violation: '' @ m"

section \<open>Interface: enumerations with a stored name\<close>

text \<open>
  Almost every enumeration of the domain has \<^verbatim>\<open>as_str\<close> and a parser.  The law a
  client needs is that parsing a stored name gives the value back.
\<close>

locale named_enum =
  fixes as_str :: "'a \<Rightarrow> string"
    and parse :: "string \<Rightarrow> 'a option"
  assumes parse_as_str: "parse (as_str x) = Some x"
    and as_str_parse: "parse s = Some x \<Longrightarrow> as_str x = s"
begin

lemma as_str_inj: "as_str x = as_str y \<longleftrightarrow> x = y"
  by (metis parse_as_str option.inject)

lemma parse_Some_iff: "parse s = Some x \<longleftrightarrow> s = as_str x"
  using parse_as_str as_str_parse by metis

lemma parse_None_iff: "parse s = None \<longleftrightarrow> s \<notin> range as_str"
  by (metis option.exhaust option.distinct(1) parse_Some_iff rangeE rangeI)

end

section \<open>Interface: status machines with absorbing terminal states\<close>

locale status_machine =
  fixes may_step :: "'s \<Rightarrow> 's \<Rightarrow> bool"
    and terminal :: "'s \<Rightarrow> bool"
  assumes terminal_absorbs: "terminal s \<Longrightarrow> may_step s t \<Longrightarrow> t = s"
begin

lemma reaches_terminal:
  assumes "terminal s" "may_step\<^sup>*\<^sup>* s t"
  shows "t = s"
  using assms(2)
proof (induction rule: rtranclp_induct)
  case base
  then show ?case by simp
next
  case (step y z)
  then show ?case
    using assms(1) terminal_absorbs by blast
qed

text \<open>
  A history is the list of states in which an object was seen, each entered from
  the one before it.
\<close>

lemma history_terminal_suffix:
  assumes "successively may_step (xs @ s # ys)" "terminal s"
  shows "set ys \<subseteq> {s}"
  using assms
proof (induction ys arbitrary: xs s)
  case Nil
  then show ?case by simp
next
  case (Cons y ys)
  have "may_step s y"
    using Cons.prems(1) by (auto simp: successively_append_iff)
  then have "y = s"
    using Cons.prems(2) terminal_absorbs by blast
  moreover have "successively may_step ((xs @ [s]) @ y # ys)"
    using Cons.prems(1) by simp
  ultimately show ?case
    using Cons.IH [of "xs @ [s]" y] Cons.prems(2) by simp
qed

end

section \<open>Interface: logs folded by a fallible step\<close>

fun try_fold :: "('s \<Rightarrow> 'e \<Rightarrow> ('x, 's) result) \<Rightarrow> 's \<Rightarrow> 'e list \<Rightarrow> ('x, 's) result"
  where
    "try_fold step s [] = Ok s"
  | "try_fold step s (e # es) = and_then (step s e) (\<lambda>s'. try_fold step s' es)"

lemma try_fold_append:
  "try_fold step s (es @ fs) = and_then (try_fold step s es) (\<lambda>s'. try_fold step s' fs)"
  by (induction es arbitrary: s) (simp_all add: and_then_assoc)

text \<open>
  A system whose operations either fail or keep an invariant, and a log: such a system
  that counts its operations.
\<close>

locale fallible_system =
  fixes step :: "'s \<Rightarrow> 'e \<Rightarrow> ('x, 's) result"
    and inv :: "'s \<Rightarrow> bool"
  assumes step_inv: "inv s \<Longrightarrow> step s e = Ok s' \<Longrightarrow> inv s'"
begin

lemma fold_inv: "inv s \<Longrightarrow> try_fold step s es = Ok s' \<Longrightarrow> inv s'"
proof (induction es arbitrary: s)
  case Nil
  then show ?case by simp
next
  case (Cons e es)
  then obtain s1 where s1: "step s e = Ok s1" "try_fold step s1 es = Ok s'"
    by (auto simp: and_then_Ok_iff)
  then show ?case
    using Cons.IH [of s1] Cons.prems(1) step_inv [of s e s1] by blast
qed

lemma fold_prefix:
  assumes "try_fold step s (es @ fs) = Ok s'"
  obtains s1 where "try_fold step s es = Ok s1" "try_fold step s1 fs = Ok s'"
  using assms by (auto simp: try_fold_append and_then_Ok_iff)

end

locale event_log = fallible_system step inv
  for step :: "'s \<Rightarrow> 'e \<Rightarrow> ('x, 's) result"
    and inv :: "'s \<Rightarrow> bool" +
  fixes count :: "'s \<Rightarrow> nat"
  assumes step_count: "inv s \<Longrightarrow> step s e = Ok s' \<Longrightarrow> count s' = Suc (count s)"
begin

lemma fold_inv_count:
  "inv s \<Longrightarrow> try_fold step s es = Ok s' \<Longrightarrow> inv s' \<and> count s' = count s + length es"
proof (induction es arbitrary: s)
  case Nil
  then show ?case by simp
next
  case (Cons e es)
  then obtain s1 where s1: "step s e = Ok s1" "try_fold step s1 es = Ok s'"
    by (auto simp: and_then_Ok_iff)
  then show ?case
    using Cons step_inv [of s e s1] step_count [of s e s1] by fastforce
qed

lemma fold_all_steps:
  "inv s \<Longrightarrow> try_fold step s es = Ok s' \<Longrightarrow> i < length es \<Longrightarrow>
     \<exists>s1 s2. inv s1 \<and> try_fold step s (take i es) = Ok s1 \<and> step s1 (es ! i) = Ok s2 \<and>
       count s1 = count s + i"
proof -
  assume inv: "inv s" and fold: "try_fold step s es = Ok s'" and i: "i < length es"
  have "es = take i es @ es ! i # drop (Suc i) es"
    using i by (simp add: id_take_nth_drop)
  then obtain s1 where s1: "try_fold step s (take i es) = Ok s1"
      "try_fold step s1 (es ! i # drop (Suc i) es) = Ok s'"
    using fold by (metis fold_prefix)
  then obtain s2 where "step s1 (es ! i) = Ok s2"
    by (auto simp: and_then_Ok_iff)
  then show ?thesis
    using s1(1) fold_inv_count [OF inv s1(1)] i by auto
qed

end

end
