(* ===== verification/Rust_Text.thy ===== *)
theory Rust_Text
  imports Prelude
begin

text \<open>
  Rust strings as the sequence of their UTF-8 bytes (a HOL \<^verbatim>\<open>char\<close> is one byte),
  with the operations of \<^verbatim>\<open>str\<close> the sources use: \<^verbatim>\<open>strip_prefix\<close>, \<^verbatim>\<open>split_once\<close>,
  \<^verbatim>\<open>contains\<close> and \<^verbatim>\<open>trim\<close>.  White space is Unicode's \<^verbatim>\<open>White_Space\<close> property,
  the 25 code points that \<^verbatim>\<open>char::is_whitespace\<close> accepts, by their encodings.
\<close>

section \<open>Prefixes\<close>

fun strip_prefix :: "'a list \<Rightarrow> 'a list \<Rightarrow> 'a list option"
  where
    "strip_prefix [] s = Some s"
  | "strip_prefix (p # ps) [] = None"
  | "strip_prefix (p # ps) (c # cs) = (if p = c then strip_prefix ps cs else None)"

lemma strip_prefix_Some_iff: "strip_prefix p s = Some r \<longleftrightarrow> s = p @ r"
  by (induction p s rule: strip_prefix.induct) auto

lemma strip_prefix_append [simp]: "strip_prefix p (p @ r) = Some r"
  by (simp add: strip_prefix_Some_iff)

text \<open>The first prefix of the list that matches.\<close>

fun strip_any :: "'a list list \<Rightarrow> 'a list \<Rightarrow> 'a list option"
  where
    "strip_any [] s = None"
  | "strip_any (p # ps) s = (case strip_prefix p s of Some r \<Rightarrow> Some r | None \<Rightarrow> strip_any ps s)"

lemma strip_any_SomeD: "strip_any ps s = Some r \<Longrightarrow> \<exists>p\<in>set ps. s = p @ r"
  by (induction ps) (auto split: option.splits simp: strip_prefix_Some_iff)

lemma strip_any_None_iff: "strip_any ps s = None \<longleftrightarrow> (\<forall>p\<in>set ps. strip_prefix p s = None)"
  by (induction ps) (auto split: option.splits)

section \<open>Searching\<close>

text \<open>\<^verbatim>\<open>s.split_once(sep)\<close>: what stands before and after the first occurrence.\<close>

fun split_once :: "'a list \<Rightarrow> 'a list \<Rightarrow> ('a list \<times> 'a list) option"
  where
    "split_once sep [] = (if sep = [] then Some ([], []) else None)"
  | "split_once sep (c # cs) =
       (case strip_prefix sep (c # cs) of
          Some r \<Rightarrow> Some ([], r)
        | None \<Rightarrow> map_option (\<lambda>(before, after). (c # before, after)) (split_once sep cs))"

lemma split_once_SomeD: "split_once sep s = Some (a, b) \<Longrightarrow> s = a @ sep @ b"
  by (induction sep s arbitrary: a rule: split_once.induct)
    (auto split: option.splits if_splits simp: strip_prefix_Some_iff)

definition contains_str :: "'a list \<Rightarrow> 'a list \<Rightarrow> bool"
  where "contains_str sep s = (split_once sep s \<noteq> None)"

lemma contains_str_singleton: "contains_str [c] s \<longleftrightarrow> c \<in> set s"
proof (induction s)
  case Nil
  then show ?case by (simp add: contains_str_def)
next
  case (Cons a s)
  then show ?case
    by (cases "split_once [c] s") (auto simp: contains_str_def)
qed

section \<open>White space and trim\<close>

definition white_space :: "string list"
  where "white_space =
    [[CHR 0x09], [CHR 0x0A], [CHR 0x0B], [CHR 0x0C], [CHR 0x0D], [CHR 0x20],
     [CHR 0xC2, CHR 0x85], [CHR 0xC2, CHR 0xA0], [CHR 0xE1, CHR 0x9A, CHR 0x80],
     [CHR 0xE2, CHR 0x80, CHR 0x80], [CHR 0xE2, CHR 0x80, CHR 0x81],
     [CHR 0xE2, CHR 0x80, CHR 0x82], [CHR 0xE2, CHR 0x80, CHR 0x83],
     [CHR 0xE2, CHR 0x80, CHR 0x84], [CHR 0xE2, CHR 0x80, CHR 0x85],
     [CHR 0xE2, CHR 0x80, CHR 0x86], [CHR 0xE2, CHR 0x80, CHR 0x87],
     [CHR 0xE2, CHR 0x80, CHR 0x88], [CHR 0xE2, CHR 0x80, CHR 0x89],
     [CHR 0xE2, CHR 0x80, CHR 0x8A], [CHR 0xE2, CHR 0x80, CHR 0xA8],
     [CHR 0xE2, CHR 0x80, CHR 0xA9], [CHR 0xE2, CHR 0x80, CHR 0xAF],
     [CHR 0xE2, CHR 0x81, CHR 0x9F], [CHR 0xE3, CHR 0x80, CHR 0x80]]"

function drop_prefixes :: "'a list list \<Rightarrow> 'a list \<Rightarrow> 'a list"
  where "drop_prefixes ps s =
    (case strip_any ps s of
       None \<Rightarrow> s
     | Some r \<Rightarrow> if length r < length s then drop_prefixes ps r else s)"
  by pat_completeness auto

termination drop_prefixes
  by (relation "measure (\<lambda>(ps, s). length s)") auto

declare drop_prefixes.simps [simp del]

definition trim_start :: "string \<Rightarrow> string"
  where "trim_start s = drop_prefixes white_space s"

definition trim_end :: "string \<Rightarrow> string"
  where "trim_end s = rev (drop_prefixes (map rev white_space) (rev s))"

definition trim :: "string \<Rightarrow> string"
  where "trim s = trim_end (trim_start s)"

definition is_blank :: "string \<Rightarrow> bool"
  where "is_blank s = (trim s = [])"

definition contains_white_space :: "string \<Rightarrow> bool"
  where "contains_white_space s = list_ex (\<lambda>w. contains_str w s) white_space"

lemmas trim_eval = trim_def trim_start_def trim_end_def drop_prefixes.simps white_space_def

lemma drop_prefixes_suffix: "\<exists>p. s = p @ drop_prefixes ps s"
proof (induction ps s rule: drop_prefixes.induct)
  case (1 ps s)
  show ?case
  proof (cases "strip_any ps s")
    case None
    then show ?thesis by (simp add: drop_prefixes.simps)
  next
    case (Some r)
    obtain q where q: "s = q @ r"
      using strip_any_SomeD [OF Some] by blast
    show ?thesis
    proof (cases "length r < length s")
      case True
      then obtain p where "r = p @ drop_prefixes ps r"
        using 1 [OF Some True] by blast
      then have "s = (q @ p) @ drop_prefixes ps r"
        using q by simp
      moreover have "drop_prefixes ps s = drop_prefixes ps r"
        using Some True by (simp add: drop_prefixes.simps [of ps s])
      ultimately show ?thesis by metis
    next
      case False
      then show ?thesis
        using Some by (simp add: drop_prefixes.simps)
    qed
  qed
qed

lemma drop_prefixes_length: "length (drop_prefixes ps s) \<le> length s"
  using drop_prefixes_suffix [of s ps] by (metis le_add2 length_append)

text \<open>Nothing is left to strip, as long as no prefix of the list is empty.\<close>

lemma strip_any_shorter:
  assumes "[] \<notin> set ps" "strip_any ps s = Some r"
  shows "length r < length s"
  using strip_any_SomeD [OF assms(2)] assms(1) by fastforce

lemma drop_prefixes_stuck:
  "[] \<notin> set ps \<Longrightarrow> strip_any ps (drop_prefixes ps s) = None"
proof (induction ps s rule: drop_prefixes.induct)
  case (1 ps s)
  show ?case
  proof (cases "strip_any ps s")
    case None
    then show ?thesis by (simp add: drop_prefixes.simps)
  next
    case (Some r)
    then show ?thesis
      using 1 strip_any_shorter [OF 1(2) Some] by (simp add: drop_prefixes.simps [of ps s])
  qed
qed

lemma drop_prefixes_id: "strip_any ps s = None \<Longrightarrow> drop_prefixes ps s = s"
  by (simp add: drop_prefixes.simps)

lemma strip_prefix_None_prefix: "strip_prefix p (a @ b) = None \<Longrightarrow> strip_prefix p a = None"
  by (induction p a rule: strip_prefix.induct) auto

lemma strip_any_None_prefix: "strip_any ps (a @ b) = None \<Longrightarrow> strip_any ps a = None"
  by (auto simp: strip_any_None_iff dest: strip_prefix_None_prefix)

lemma white_space_nonempty: "[] \<notin> set white_space" "[] \<notin> set (map rev white_space)"
  by (simp_all add: white_space_def)

lemma trim_end_prefix: "\<exists>q. s = trim_end s @ q"
proof -
  obtain p where "rev s = p @ drop_prefixes (map rev white_space) (rev s)"
    using drop_prefixes_suffix by blast
  then have "s = trim_end s @ rev p"
    unfolding trim_end_def by (metis rev_append rev_rev_ident)
  then show ?thesis by blast
qed

lemma trim_start_trim: "trim_start (trim s) = trim s"
proof -
  obtain q where q: "trim_start s = trim s @ q"
    using trim_end_prefix [of "trim_start s"] by (auto simp: trim_def)
  have "strip_any white_space (trim_start s) = None"
    by (simp add: trim_start_def drop_prefixes_stuck white_space_nonempty(1))
  then have "strip_any white_space (trim s) = None"
    by (metis q strip_any_None_prefix)
  then show ?thesis
    by (simp add: trim_start_def drop_prefixes_id)
qed

lemma trim_end_trim: "trim_end (trim s) = trim s"
  unfolding trim_def trim_end_def rev_rev_ident
  by (simp only: drop_prefixes_id [OF drop_prefixes_stuck [OF white_space_nonempty(2)]])

lemma trim_idem [simp]: "trim (trim s) = trim s"
  using trim_start_trim [of s] trim_end_trim [of s] by (simp add: trim_def)

lemma is_blank_trim [simp]: "is_blank (trim s) \<longleftrightarrow> is_blank s"
  by (simp add: is_blank_def)

lemma length_trim_le: "length (trim s) \<le> length s"
proof -
  obtain q where "trim_start s = trim s @ q"
    using trim_end_prefix [of "trim_start s"] by (auto simp: trim_def)
  then have "length (trim s) \<le> length (trim_start s)" by simp
  also have "\<dots> \<le> length s"
    by (simp add: trim_start_def drop_prefixes_length)
  finally show ?thesis .
qed

section \<open>Debug output of strings\<close>

text \<open>
  \<^verbatim>\<open>{:?}\<close> of a string: quoted, with quotes, backslashes and control characters escaped.
  The bytes of non-ASCII characters are kept (the standard library also escapes those of them that do
  not print).
\<close>

definition hex_digit :: "nat \<Rightarrow> char"
  where "hex_digit n = ''0123456789abcdef'' ! n"

definition char_debug :: "char \<Rightarrow> string"
  where "char_debug c =
    (if c = CHR 0x00 then [CHR 0x5C, CHR ''0'']
     else if c = CHR 0x09 then [CHR 0x5C, CHR ''t'']
     else if c = CHR 0x0A then [CHR 0x5C, CHR ''n'']
     else if c = CHR 0x0D then [CHR 0x5C, CHR ''r'']
     else if c = CHR 0x22 \<or> c = CHR 0x5C then [CHR 0x5C, c]
     else if of_char c < (16 :: nat) then [CHR 0x5C, CHR ''u'', CHR 0x7B, hex_digit (of_char c), CHR 0x7D]
     else if of_char c < (32 :: nat) \<or> c = CHR 0x7F
     then [CHR 0x5C, CHR ''u'', CHR 0x7B, hex_digit (of_char c div 16), hex_digit (of_char c mod 16), CHR 0x7D]
     else [c])"

definition str_debug :: "string \<Rightarrow> string"
  where "str_debug s = [CHR 0x22] @ concat (map char_debug s) @ [CHR 0x22]"

end
