(* ===== verification/Run_Status.thy ===== *)
theory Run_Status
  imports Rust_Text
begin

text \<open>
  Status vocabulary of runs and run steps: \<^verbatim>\<open>run/status.rs\<close> and the version
  counters of \<^verbatim>\<open>run/mod.rs\<close> (crate \<^verbatim>\<open>vestrace-domain\<close>).  The transition
  tables are shown to be status machines whose terminal states absorb, and the
  stored names to be one-to-one.
\<close>

section \<open>RunExecutionMode\<close>

datatype run_execution_mode = Autopilot | Supervised | Manual

fun run_execution_mode_as_str :: "run_execution_mode \<Rightarrow> string"
  where
    "run_execution_mode_as_str Autopilot = ''autopilot''"
  | "run_execution_mode_as_str Supervised = ''supervised''"
  | "run_execution_mode_as_str Manual = ''manual''"

definition run_execution_mode_parse :: "string \<Rightarrow> run_execution_mode option"
  where "run_execution_mode_parse s =
    (if s = ''autopilot'' then Some Autopilot
     else if s = ''supervised'' then Some Supervised
     else if s = ''manual'' then Some Manual
     else None)"

section \<open>RunStatus\<close>

datatype run_status =
    Run_Created
  | Run_Preparing
  | Run_Running
  | Run_WaitingForInput
  | Run_WaitingForApproval
  | Run_WaitingForDependency
  | Run_Paused
  | Run_PausedPolicyChanged
  | Run_Succeeded
  | Run_SucceededWithWarnings
  | Run_Partial
  | Run_Failed
  | Run_Cancelled
  | Run_Expired

fun run_status_as_str :: "run_status \<Rightarrow> string"
  where
    "run_status_as_str Run_Created = ''created''"
  | "run_status_as_str Run_Preparing = ''preparing''"
  | "run_status_as_str Run_Running = ''running''"
  | "run_status_as_str Run_WaitingForInput = ''waiting_for_input''"
  | "run_status_as_str Run_WaitingForApproval = ''waiting_for_approval''"
  | "run_status_as_str Run_WaitingForDependency = ''waiting_for_dependency''"
  | "run_status_as_str Run_Paused = ''paused''"
  | "run_status_as_str Run_PausedPolicyChanged = ''paused_policy_changed''"
  | "run_status_as_str Run_Succeeded = ''succeeded''"
  | "run_status_as_str Run_SucceededWithWarnings = ''succeeded_with_warnings''"
  | "run_status_as_str Run_Partial = ''partial''"
  | "run_status_as_str Run_Failed = ''failed''"
  | "run_status_as_str Run_Cancelled = ''cancelled''"
  | "run_status_as_str Run_Expired = ''expired''"

definition run_status_parse :: "string \<Rightarrow> run_status option"
  where "run_status_parse s =
    (if s = ''created'' then Some Run_Created
     else if s = ''preparing'' then Some Run_Preparing
     else if s = ''running'' then Some Run_Running
     else if s = ''waiting_for_input'' then Some Run_WaitingForInput
     else if s = ''waiting_for_approval'' then Some Run_WaitingForApproval
     else if s = ''waiting_for_dependency'' then Some Run_WaitingForDependency
     else if s = ''paused'' then Some Run_Paused
     else if s = ''paused_policy_changed'' then Some Run_PausedPolicyChanged
     else if s = ''succeeded'' then Some Run_Succeeded
     else if s = ''succeeded_with_warnings'' then Some Run_SucceededWithWarnings
     else if s = ''partial'' then Some Run_Partial
     else if s = ''failed'' then Some Run_Failed
     else if s = ''cancelled'' then Some Run_Cancelled
     else if s = ''expired'' then Some Run_Expired
     else None)"

text \<open>The derived \<^verbatim>\<open>Debug\<close> rendering, as \<^verbatim>\<open>{self:?}\<close> prints it.\<close>

fun run_status_debug :: "run_status \<Rightarrow> string"
  where
    "run_status_debug Run_Created = ''Created''"
  | "run_status_debug Run_Preparing = ''Preparing''"
  | "run_status_debug Run_Running = ''Running''"
  | "run_status_debug Run_WaitingForInput = ''WaitingForInput''"
  | "run_status_debug Run_WaitingForApproval = ''WaitingForApproval''"
  | "run_status_debug Run_WaitingForDependency = ''WaitingForDependency''"
  | "run_status_debug Run_Paused = ''Paused''"
  | "run_status_debug Run_PausedPolicyChanged = ''PausedPolicyChanged''"
  | "run_status_debug Run_Succeeded = ''Succeeded''"
  | "run_status_debug Run_SucceededWithWarnings = ''SucceededWithWarnings''"
  | "run_status_debug Run_Partial = ''Partial''"
  | "run_status_debug Run_Failed = ''Failed''"
  | "run_status_debug Run_Cancelled = ''Cancelled''"
  | "run_status_debug Run_Expired = ''Expired''"

definition run_status_is_terminal :: "run_status \<Rightarrow> bool"
  where "run_status_is_terminal s =
    (s \<in> {Run_Succeeded, Run_SucceededWithWarnings, Run_Partial, Run_Failed, Run_Cancelled,
          Run_Expired})"

definition run_status_is_active :: "run_status \<Rightarrow> bool"
  where "run_status_is_active s = (\<not> run_status_is_terminal s)"

definition run_status_can_pause :: "run_status \<Rightarrow> bool"
  where "run_status_can_pause s =
    (s \<in> {Run_Running, Run_WaitingForInput, Run_WaitingForApproval, Run_WaitingForDependency})"

definition run_status_can_resume :: "run_status \<Rightarrow> bool"
  where "run_status_can_resume s = (s \<in> {Run_Paused, Run_PausedPolicyChanged})"

definition run_status_is_waiting :: "run_status \<Rightarrow> bool"
  where "run_status_is_waiting s =
    (s \<in> {Run_WaitingForInput, Run_WaitingForApproval, Run_WaitingForDependency})"

fun run_status_allowed :: "run_status \<Rightarrow> run_status list option"
  where
    "run_status_allowed Run_Created = Some [Run_Preparing, Run_Cancelled]"
  | "run_status_allowed Run_Preparing =
       Some [Run_Running, Run_WaitingForInput, Run_Failed, Run_Cancelled]"
  | "run_status_allowed Run_Running =
       Some [Run_WaitingForInput, Run_WaitingForApproval, Run_WaitingForDependency, Run_Paused,
             Run_PausedPolicyChanged, Run_Succeeded, Run_SucceededWithWarnings, Run_Partial,
             Run_Failed, Run_Cancelled]"
  | "run_status_allowed Run_WaitingForInput =
       Some [Run_Running, Run_Paused, Run_Cancelled, Run_Expired]"
  | "run_status_allowed Run_WaitingForApproval =
       Some [Run_Running, Run_Paused, Run_Cancelled, Run_Expired]"
  | "run_status_allowed Run_WaitingForDependency =
       Some [Run_Running, Run_Paused, Run_Failed, Run_Cancelled, Run_Expired]"
  | "run_status_allowed Run_Paused = Some [Run_Running, Run_Cancelled, Run_Expired]"
  | "run_status_allowed Run_PausedPolicyChanged = Some [Run_Running, Run_Cancelled, Run_Expired]"
  | "run_status_allowed _ = None"

definition run_status_transition_to :: "run_status \<Rightarrow> run_status \<Rightarrow> (domain_error, unit) result"
  where "run_status_transition_to s next =
    (if s = next then Ok ()
     else if run_status_is_terminal s
     then Err (InvalidArgument (''cannot transition from terminal run status '' @ run_status_debug s))
     else case run_status_allowed s of
       None \<Rightarrow>
         Err (InvalidArgument (''cannot transition from terminal run status '' @ run_status_debug s))
     | Some allowed \<Rightarrow>
         if next \<in> set allowed then Ok ()
         else Err (InvalidArgument
           (''invalid run transition: '' @ run_status_debug s @ '' -> '' @ run_status_debug next)))"

section \<open>RunStepStatus\<close>

datatype run_step_status =
    Step_Pending
  | Step_Ready
  | Step_Running
  | Step_Waiting
  | Step_Succeeded
  | Step_Failed
  | Step_Cancelled
  | Step_Skipped
  | Step_Unknown

fun run_step_status_as_str :: "run_step_status \<Rightarrow> string"
  where
    "run_step_status_as_str Step_Pending = ''pending''"
  | "run_step_status_as_str Step_Ready = ''ready''"
  | "run_step_status_as_str Step_Running = ''running''"
  | "run_step_status_as_str Step_Waiting = ''waiting''"
  | "run_step_status_as_str Step_Succeeded = ''succeeded''"
  | "run_step_status_as_str Step_Failed = ''failed''"
  | "run_step_status_as_str Step_Cancelled = ''cancelled''"
  | "run_step_status_as_str Step_Skipped = ''skipped''"
  | "run_step_status_as_str Step_Unknown = ''unknown''"

definition run_step_status_parse :: "string \<Rightarrow> run_step_status option"
  where "run_step_status_parse s =
    (if s = ''pending'' then Some Step_Pending
     else if s = ''ready'' then Some Step_Ready
     else if s = ''running'' then Some Step_Running
     else if s = ''waiting'' then Some Step_Waiting
     else if s = ''succeeded'' then Some Step_Succeeded
     else if s = ''failed'' then Some Step_Failed
     else if s = ''cancelled'' then Some Step_Cancelled
     else if s = ''skipped'' then Some Step_Skipped
     else if s = ''unknown'' then Some Step_Unknown
     else None)"

fun run_step_status_debug :: "run_step_status \<Rightarrow> string"
  where
    "run_step_status_debug Step_Pending = ''Pending''"
  | "run_step_status_debug Step_Ready = ''Ready''"
  | "run_step_status_debug Step_Running = ''Running''"
  | "run_step_status_debug Step_Waiting = ''Waiting''"
  | "run_step_status_debug Step_Succeeded = ''Succeeded''"
  | "run_step_status_debug Step_Failed = ''Failed''"
  | "run_step_status_debug Step_Cancelled = ''Cancelled''"
  | "run_step_status_debug Step_Skipped = ''Skipped''"
  | "run_step_status_debug Step_Unknown = ''Unknown''"

definition run_step_status_is_terminal :: "run_step_status \<Rightarrow> bool"
  where "run_step_status_is_terminal s =
    (s \<in> {Step_Succeeded, Step_Failed, Step_Cancelled, Step_Skipped})"

definition run_step_status_is_active :: "run_step_status \<Rightarrow> bool"
  where "run_step_status_is_active s =
    (\<not> run_step_status_is_terminal s \<and> s \<noteq> Step_Unknown)"

fun run_step_status_allowed :: "run_step_status \<Rightarrow> run_step_status list option"
  where
    "run_step_status_allowed Step_Pending = Some [Step_Ready, Step_Skipped, Step_Cancelled]"
  | "run_step_status_allowed Step_Ready = Some [Step_Running, Step_Skipped, Step_Cancelled]"
  | "run_step_status_allowed Step_Running =
       Some [Step_Waiting, Step_Succeeded, Step_Failed, Step_Cancelled, Step_Unknown]"
  | "run_step_status_allowed Step_Waiting =
       Some [Step_Ready, Step_Running, Step_Failed, Step_Cancelled, Step_Unknown]"
  | "run_step_status_allowed Step_Unknown =
       Some [Step_Waiting, Step_Succeeded, Step_Failed, Step_Cancelled]"
  | "run_step_status_allowed _ = None"

definition run_step_status_transition_to ::
    "run_step_status \<Rightarrow> run_step_status \<Rightarrow> (domain_error, unit) result"
  where "run_step_status_transition_to s next =
    (if s = next then Ok ()
     else case run_step_status_allowed s of
       None \<Rightarrow>
         Err (InvalidArgument
           (''cannot transition from terminal step status '' @ run_step_status_debug s))
     | Some allowed \<Rightarrow>
         if next \<in> set allowed then Ok ()
         else Err (InvalidArgument
           (''invalid step transition: '' @ run_step_status_debug s @ '' -> ''
             @ run_step_status_debug next)))"

section \<open>RunVersion and ResumeCursor\<close>

datatype run_version = RunVersion (version_value: u64)

definition run_version_zero :: run_version
  where "run_version_zero = RunVersion 0"

definition run_version_initial :: run_version
  where "run_version_initial = RunVersion 1"

definition run_version_new :: "u64 \<Rightarrow> (domain_error, run_version) result"
  where "run_version_new v =
    (if v = 0 then Err (InvalidArgument ''run version must be positive'') else Ok (RunVersion v))"

definition run_version_next :: "run_version \<Rightarrow> (domain_error, run_version) result"
  where "run_version_next v =
    ok_or (InvalidArgument ''run version overflow'')
      (map_option RunVersion (checked_add (version_value v) 1))"

definition run_version_previous :: "run_version \<Rightarrow> (domain_error, run_version) result"
  where "run_version_previous v =
    (if version_value v \<le> 1 then Err (InvalidArgument ''run version has no previous'')
     else Ok (RunVersion (version_value v - 1)))"

datatype resume_cursor = ResumeCursor (cursor_value: u64)

definition resume_cursor_before_first :: resume_cursor
  where "resume_cursor_before_first = ResumeCursor 0"

definition resume_cursor_from_version :: "run_version \<Rightarrow> resume_cursor"
  where "resume_cursor_from_version v = ResumeCursor (version_value v)"

section \<open>Facts\<close>

lemmas run_status_flags =
  run_status_is_terminal_def run_status_is_active_def run_status_can_pause_def
  run_status_can_resume_def run_status_is_waiting_def

interpretation execution_mode: named_enum run_execution_mode_as_str run_execution_mode_parse
proof unfold_locales
  show "run_execution_mode_parse (run_execution_mode_as_str x) = Some x" for x
    by (cases x) (simp_all add: run_execution_mode_parse_def)
  show "run_execution_mode_parse s = Some x \<Longrightarrow> run_execution_mode_as_str x = s" for s x
    by (auto simp: run_execution_mode_parse_def split: if_splits)
qed

interpretation run_status_name: named_enum run_status_as_str run_status_parse
proof unfold_locales
  show "run_status_parse (run_status_as_str x) = Some x" for x
    by (cases x) (simp_all add: run_status_parse_def)
  show "run_status_parse s = Some x \<Longrightarrow> run_status_as_str x = s" for s x
    by (auto simp: run_status_parse_def split: if_splits)
qed

interpretation step_status_name: named_enum run_step_status_as_str run_step_status_parse
proof unfold_locales
  show "run_step_status_parse (run_step_status_as_str x) = Some x" for x
    by (cases x) (simp_all add: run_step_status_parse_def)
  show "run_step_status_parse s = Some x \<Longrightarrow> run_step_status_as_str x = s" for s x
    by (auto simp: run_step_status_parse_def split: if_splits)
qed

definition run_status_may_step :: "run_status \<Rightarrow> run_status \<Rightarrow> bool"
  where "run_status_may_step s t = is_ok (run_status_transition_to s t)"

definition run_step_status_may_step :: "run_step_status \<Rightarrow> run_step_status \<Rightarrow> bool"
  where "run_step_status_may_step s t = is_ok (run_step_status_transition_to s t)"

interpretation run_machine: status_machine run_status_may_step run_status_is_terminal
  by unfold_locales
    (auto simp: run_status_may_step_def run_status_transition_to_def split: if_splits)

interpretation step_machine: status_machine run_step_status_may_step run_step_status_is_terminal
  by unfold_locales
    (auto simp: run_step_status_may_step_def run_step_status_transition_to_def
      run_step_status_is_terminal_def split: if_splits)

text \<open>
  The \<^verbatim>\<open>match\<close> on the status inside \<^verbatim>\<open>transition_to\<close> repeats the terminal check:
  the arm without a table is reached exactly by the terminal statuses.
\<close>

lemma run_status_allowed_None_iff: "run_status_allowed s = None \<longleftrightarrow> run_status_is_terminal s"
  by (cases s) (simp_all add: run_status_is_terminal_def)

lemma run_step_status_allowed_None_iff:
  "run_step_status_allowed s = None \<longleftrightarrow> run_step_status_is_terminal s"
  by (cases s) (simp_all add: run_step_status_is_terminal_def)

lemma run_version_next_Ok_iff [result_simps]:
  "run_version_next v = Ok w \<longleftrightarrow> unat (version_value w) = Suc (unat (version_value v))"
  by (cases w) (auto simp: run_version_next_def result_simps word_arith)

lemma run_version_next_Err_iff:
  "run_version_next v = Err e \<longleftrightarrow>
     version_value v = - 1 \<and> e = InvalidArgument ''run version overflow''"
proof -
  have "checked_add (version_value v) 1 = None \<longleftrightarrow> version_value v = - 1"
    using unsigned_less [of "version_value v", where ?'a = nat]
    by (auto simp: word_arith word_unat_eq_iff unsigned_minus_1_eq_mask mask_eq_exp_minus_1)
  then show ?thesis
    by (auto simp: run_version_next_def result_simps)
qed

lemma run_version_previous_next:
  assumes "run_version_previous v = Ok w"
  shows "run_version_next w = Ok v"
proof -
  have w: "w = RunVersion (version_value v - 1)" and "\<not> version_value v \<le> 1"
    using assms by (auto simp: run_version_previous_def split: if_splits)
  then have "1 \<le> version_value v" by simp
  then have "unat (version_value v - 1) = unat (version_value v) - 1"
    by (simp add: unat_sub)
  moreover have "0 < unat (version_value v)"
    using \<open>1 \<le> version_value v\<close> by (simp add: word_le_nat_alt)
  ultimately show ?thesis
    using w by (simp add: run_version_next_Ok_iff)
qed

end
