(* ===== verification/Run_Aggregate.thy ===== *)
theory Run_Aggregate
  imports Run_Status
begin

text \<open>
  The mutable aggregates of \<^verbatim>\<open>run/step.rs\<close>: an agent run with optimistic
  concurrency on its version, and a run step with attempts.  A method on
  \<^verbatim>\<open>&mut self\<close> returns its result together with the state it leaves behind, also
  when it returns an error.
\<close>

section \<open>Data\<close>

record run_failure =
  rf_code :: string
  rf_message :: string
  rf_retryable :: bool

datatype run_terminal_result =
    Result_Succeeded "string option"
  | Result_SucceededWithWarnings string "string list"
  | Result_Partial string "string list"
  | Result_Failed string string bool
  | Result_Cancelled "string option"
  | Result_Expired

definition run_terminal_result_from_failure :: "run_failure \<Rightarrow> run_terminal_result"
  where "run_terminal_result_from_failure f =
    Result_Failed (rf_code f) (rf_message f) (rf_retryable f)"

datatype run_actor_ref =
    ActorRef_Principal uuid
  | ActorRef_AgentSnapshot uuid
  | ActorRef_Worker uuid
  | ActorRef_System

datatype run_reference_kind =
    Ref_Context | Ref_Artifact | Ref_Approval | Ref_ModelInvocation | Ref_ToolInvocation
  | Ref_SubRun | Ref_External

record run_reference =
  rr_id :: uuid
  rr_kind :: run_reference_kind

record parent_run_link =
  pl_parent_run_id :: uuid
  pl_parent_step_id :: uuid

record new_agent_run =
  nr_id :: uuid
  nr_workspace_id :: uuid
  nr_objective :: string
  nr_coordinator_snapshot_id :: uuid
  nr_execution_mode :: run_execution_mode
  nr_parent :: "parent_run_link option"
  nr_budget_snapshot_id :: "uuid option"
  nr_resource_usage_snapshot_id :: "uuid option"

record agent_run =
  ar_id :: uuid
  ar_workspace_id :: uuid
  ar_objective :: string
  ar_coordinator_snapshot_id :: uuid
  ar_active_plan_revision_id :: "uuid option"
  ar_execution_mode :: run_execution_mode
  ar_status :: run_status
  ar_current_step_id :: "uuid option"
  ar_checkpoint_id :: "uuid option"
  ar_parent :: "parent_run_link option"
  ar_root_run_id :: uuid
  ar_budget_snapshot_id :: "uuid option"
  ar_resource_usage_snapshot_id :: "uuid option"
  ar_version :: run_version
  ar_result :: "run_terminal_result option"
  ar_created_at :: timestamp
  ar_updated_at :: timestamp
  ar_finished_at :: "timestamp option"

record run_status_change =
  sc_from :: run_status
  sc_to :: run_status
  sc_new_version :: run_version

record run_plan_change =
  pc_plan_revision_id :: uuid
  pc_new_version :: run_version

record run_current_step_change =
  cc_step_id :: "uuid option"
  cc_new_version :: run_version

definition max_objective_len :: nat where "max_objective_len = 32 * 1024"
definition max_field_len :: nat where "max_field_len = 32 * 1024"
definition max_plan_ref_len :: nat where "max_plan_ref_len = 256"

section \<open>AgentRun\<close>

definition agent_run_create :: "new_agent_run \<Rightarrow> timestamp \<Rightarrow> (domain_error, agent_run) result"
  where "agent_run_create input at =
    (let objective = trim (nr_objective input) in
     if objective = [] then Err (InvalidArgument ''objective must not be blank'')
     else if length objective > max_objective_len
     then Err (InvalidArgument (''objective exceeds '' @ show_nat max_objective_len @ '' bytes''))
     else if (case nr_parent input of
                None \<Rightarrow> False
              | Some parent \<Rightarrow> pl_parent_run_id parent = nr_id input)
     then Err (InvalidArgument ''parent run id must differ from run id'')
     else Ok \<lparr> ar_id = nr_id input,
               ar_workspace_id = nr_workspace_id input,
               ar_objective = objective,
               ar_coordinator_snapshot_id = nr_coordinator_snapshot_id input,
               ar_active_plan_revision_id = None,
               ar_execution_mode = nr_execution_mode input,
               ar_status = Run_Created,
               ar_current_step_id = None,
               ar_checkpoint_id = None,
               ar_parent = nr_parent input,
               ar_root_run_id = nr_id input,
               ar_budget_snapshot_id = nr_budget_snapshot_id input,
               ar_resource_usage_snapshot_id = nr_resource_usage_snapshot_id input,
               ar_version = run_version_initial,
               ar_result = None,
               ar_created_at = at,
               ar_updated_at = at,
               ar_finished_at = None \<rparr>)"

text \<open>
  The field assignments before \<^verbatim>\<open>self.version.next()?\<close> are kept when the version
  overflows: the error branch of \<^const>\<open>run_version_next\<close> returns the state
  already written.
\<close>

definition agent_run_transition ::
    "agent_run \<Rightarrow> run_version \<Rightarrow> run_status \<Rightarrow> run_terminal_result option \<Rightarrow> timestamp
     \<Rightarrow> (domain_error, run_status_change) result \<times> agent_run"
  where "agent_run_transition run expected target res at =
    (if expected \<noteq> ar_version run
     then (Err (RevisionConflict (version_value expected) (version_value (ar_version run))), run)
     else if run_status_is_terminal target \<and> res = None
     then (Err (InvalidArgument
             (''terminal target '' @ run_status_debug target @ '' requires a result'')), run)
     else if \<not> run_status_is_terminal target \<and> res \<noteq> None
     then (Err (InvalidArgument
             (''non-terminal target '' @ run_status_debug target @ '' rejects a result'')), run)
     else case run_status_transition_to (ar_status run) target of
       Inl e \<Rightarrow> (Err e, run)
     | Inr _ \<Rightarrow>
         (let from = ar_status run;
              run1 = run\<lparr>ar_status := target\<rparr>;
              run2 = (if run_status_is_terminal target
                      then run1\<lparr>ar_result := res, ar_finished_at := Some at\<rparr>
                      else run1)
          in case run_version_next (ar_version run2) of
               Inl e \<Rightarrow> (Err e, run2)
             | Inr v \<Rightarrow>
                 (Ok \<lparr>sc_from = from, sc_to = target, sc_new_version = v\<rparr>,
                  run2\<lparr>ar_version := v, ar_updated_at := at\<rparr>)))"

definition agent_run_attach_plan ::
    "agent_run \<Rightarrow> run_version \<Rightarrow> uuid \<Rightarrow> timestamp
     \<Rightarrow> (domain_error, run_plan_change) result \<times> agent_run"
  where "agent_run_attach_plan run expected plan at =
    (if expected \<noteq> ar_version run
     then (Err (RevisionConflict (version_value expected) (version_value (ar_version run))), run)
     else let run1 = run\<lparr>ar_active_plan_revision_id := Some plan\<rparr>
          in case run_version_next (ar_version run1) of
               Inl e \<Rightarrow> (Err e, run1)
             | Inr v \<Rightarrow>
                 (Ok \<lparr>pc_plan_revision_id = plan, pc_new_version = v\<rparr>,
                  run1\<lparr>ar_version := v, ar_updated_at := at\<rparr>))"

definition agent_run_select_current_step ::
    "agent_run \<Rightarrow> run_version \<Rightarrow> uuid option \<Rightarrow> timestamp
     \<Rightarrow> (domain_error, run_current_step_change) result \<times> agent_run"
  where "agent_run_select_current_step run expected step at =
    (if expected \<noteq> ar_version run
     then (Err (RevisionConflict (version_value expected) (version_value (ar_version run))), run)
     else let run1 = run\<lparr>ar_current_step_id := step\<rparr>
          in case run_version_next (ar_version run1) of
               Inl e \<Rightarrow> (Err e, run1)
             | Inr v \<Rightarrow>
                 (Ok \<lparr>cc_step_id = step, cc_new_version = v\<rparr>,
                  run1\<lparr>ar_version := v, ar_updated_at := at\<rparr>))"

section \<open>RunStep\<close>

record new_run_step =
  ns_id :: uuid
  ns_run_id :: uuid
  ns_plan_step_reference :: "string option"
  ns_assigned_actor :: run_actor_ref
  ns_input_references :: "run_reference list"

record run_step =
  st_id :: uuid
  st_run_id :: uuid
  st_plan_step_reference :: "string option"
  st_assigned_actor :: run_actor_ref
  st_input_references :: "run_reference list"
  st_status :: run_step_status
  st_attempt :: u32
  st_output_references :: "run_reference list"
  st_error :: "run_failure option"
  st_created_at :: timestamp
  st_started_at :: "timestamp option"
  st_finished_at :: "timestamp option"

definition option_filter :: "('a \<Rightarrow> bool) \<Rightarrow> 'a option \<Rightarrow> 'a option"
  where "option_filter p v = (case v of None \<Rightarrow> None | Some x \<Rightarrow> if p x then Some x else None)"

definition run_step_create :: "new_run_step \<Rightarrow> timestamp \<Rightarrow> (domain_error, run_step) result"
  where "run_step_create input at =
    and_then
      (case ns_plan_step_reference input of
         None \<Rightarrow> Ok ()
       | Some reference \<Rightarrow>
           let trimmed = trim reference in
           if trimmed = []
           then Err (InvalidArgument ''plan_step_reference must not be blank if present'')
           else if length trimmed > max_plan_ref_len
           then Err (InvalidArgument
                  (''plan_step_reference exceeds '' @ show_nat max_plan_ref_len @ '' bytes''))
           else Ok ())
      (\<lambda>_. Ok \<lparr> st_id = ns_id input,
               st_run_id = ns_run_id input,
               st_plan_step_reference =
                 option_filter (\<lambda>s. s \<noteq> []) (map_option trim (ns_plan_step_reference input)),
               st_assigned_actor = ns_assigned_actor input,
               st_input_references = ns_input_references input,
               st_status = Step_Pending,
               st_attempt = 1,
               st_output_references = [],
               st_error = None,
               st_created_at = at,
               st_started_at = None,
               st_finished_at = None \<rparr>)"

definition run_step_transition_to ::
    "run_step \<Rightarrow> run_step_status \<Rightarrow> timestamp \<Rightarrow> (domain_error, unit) result \<times> run_step"
  where "run_step_transition_to step next at =
    (case run_step_status_transition_to (st_status step) next of
       Inl e \<Rightarrow> (Err e, step)
     | Inr _ \<Rightarrow>
         (let was_terminal = run_step_status_is_terminal (st_status step);
              step1 = step\<lparr>st_status := next\<rparr>;
              step2 = (if next = Step_Running \<and> st_started_at step1 = None
                       then step1\<lparr>st_started_at := Some at\<rparr> else step1);
              step3 = (if run_step_status_is_terminal next \<and> \<not> was_terminal
                       then step2\<lparr>st_finished_at := Some at\<rparr> else step2);
              step4 = (if run_step_status_is_terminal next
                       then step3\<lparr>st_error := None\<rparr> else step3)
          in (Ok (), step4)))"

definition run_step_retry ::
    "run_step \<Rightarrow> timestamp \<Rightarrow> (domain_error, unit) result \<times> run_step"
  where "run_step_retry step at =
    (if st_status step \<noteq> Step_Failed
     then (Err (InvalidArgument ''retry is only allowed from Failed status''), step)
     else case checked_add (st_attempt step) 1 of
       None \<Rightarrow> (Err (InvalidArgument ''attempt counter overflow''), step)
     | Some attempt \<Rightarrow>
         (Ok (), step\<lparr>st_attempt := attempt, st_status := Step_Ready, st_started_at := None,
                     st_finished_at := None, st_error := None\<rparr>))"

definition run_step_fail ::
    "run_step \<Rightarrow> run_failure \<Rightarrow> timestamp \<Rightarrow> (domain_error, unit) result \<times> run_step"
  where "run_step_fail step failure at =
    (let code = trim (rf_code failure); message = trim (rf_message failure) in
     if code = [] then (Err (InvalidArgument ''failure code must not be blank''), step)
     else if length code > max_field_len
     then (Err (InvalidArgument (''failure code exceeds '' @ show_nat max_field_len @ '' bytes'')),
           step)
     else if length message > max_field_len
     then (Err (InvalidArgument
             (''failure message exceeds '' @ show_nat max_field_len @ '' bytes'')), step)
     else case run_step_status_transition_to (st_status step) Step_Failed of
       Inl e \<Rightarrow> (Err e, step)
     | Inr _ \<Rightarrow>
         (Ok (), step\<lparr>st_status := Step_Failed,
                     st_error := Some \<lparr>rf_code = code, rf_message = message,
                                       rf_retryable = rf_retryable failure\<rparr>,
                     st_finished_at := Some at\<rparr>))"

section \<open>Invariants\<close>

definition agent_run_ok :: "agent_run \<Rightarrow> bool"
  where "agent_run_ok r =
    (version_value (ar_version r) \<noteq> 0 \<and>
     (ar_result r \<noteq> None) = run_status_is_terminal (ar_status r) \<and>
     (ar_finished_at r \<noteq> None) = run_status_is_terminal (ar_status r) \<and>
     ar_root_run_id r = ar_id r \<and>
     trim (ar_objective r) = ar_objective r \<and> ar_objective r \<noteq> [] \<and>
     length (ar_objective r) \<le> max_objective_len)"

text \<open>The mutating calls on a run, for histories of calls.\<close>

datatype agent_run_call =
    Call_Transition run_version run_status "run_terminal_result option" timestamp
  | Call_AttachPlan run_version uuid timestamp
  | Call_SelectStep run_version "uuid option" timestamp

fun agent_run_call_expected :: "agent_run_call \<Rightarrow> run_version"
  where
    "agent_run_call_expected (Call_Transition v _ _ _) = v"
  | "agent_run_call_expected (Call_AttachPlan v _ _) = v"
  | "agent_run_call_expected (Call_SelectStep v _ _) = v"

text \<open>Whether the call returned \<^verbatim>\<open>Ok\<close>, and the state it left.\<close>

fun agent_run_perform :: "agent_run \<Rightarrow> agent_run_call \<Rightarrow> bool \<times> agent_run"
  where
    "agent_run_perform r (Call_Transition v t res at) =
       apfst is_ok (agent_run_transition r v t res at)"
  | "agent_run_perform r (Call_AttachPlan v p at) =
       apfst is_ok (agent_run_attach_plan r v p at)"
  | "agent_run_perform r (Call_SelectStep v st at) =
       apfst is_ok (agent_run_select_current_step r v st at)"

fun agent_run_history :: "agent_run \<Rightarrow> agent_run_call list \<Rightarrow> nat \<times> agent_run"
  where
    "agent_run_history r [] = (0, r)"
  | "agent_run_history r (c # cs) =
       (let (succeeded, r1) = agent_run_perform r c; (n, r2) = agent_run_history r1 cs
        in ((if succeeded then 1 else 0) + n, r2))"

lemma next_version_nonzero: "run_version_next v = Ok w \<Longrightarrow> version_value w \<noteq> 0"
  by (auto simp: run_version_next_Ok_iff)

lemma transition_terminal_same:
  assumes "run_status_transition_to s t = Ok u" "run_status_is_terminal s"
  shows "t = s"
  using run_machine.terminal_absorbs [of s t] assms by (simp add: run_status_may_step_def)

lemma agent_run_create_ok:
  assumes "agent_run_create input at = Ok r"
  shows "agent_run_ok r \<and> ar_version r = run_version_initial \<and> ar_status r = Run_Created"
  using assms
  by (auto simp: agent_run_create_def agent_run_ok_def Let_def run_version_initial_def
      run_status_is_terminal_def split: if_splits option.splits)

lemma agent_run_transition_ok:
  assumes "agent_run_ok r"
  shows "agent_run_ok (snd (agent_run_transition r v t res at))"
proof (cases "run_status_transition_to (ar_status r) t")
  case (Inl e)
  then show ?thesis
    using assms by (simp add: agent_run_transition_def)
next
  case (Inr u)
  have "run_status_is_terminal (ar_status r) \<Longrightarrow> t = ar_status r"
    using transition_terminal_same [OF Inr] .
  then show ?thesis
    using assms Inr next_version_nonzero [of "ar_version r"]
    by (cases "run_version_next (ar_version r)")
      (auto simp: agent_run_transition_def agent_run_ok_def Let_def)
qed

lemma agent_run_perform_ok: "agent_run_ok r \<Longrightarrow> agent_run_ok (snd (agent_run_perform r c))"
proof (cases c)
  case (Call_Transition v t res at)
  assume "agent_run_ok r"
  then show ?thesis
    using agent_run_transition_ok [of r v t res at] Call_Transition by simp
next
  case (Call_AttachPlan v p at)
  assume "agent_run_ok r"
  then show ?thesis
    using Call_AttachPlan next_version_nonzero [of "ar_version r"]
    by (cases "run_version_next (ar_version r)")
      (auto simp: agent_run_attach_plan_def agent_run_ok_def Let_def)
next
  case (Call_SelectStep v st at)
  assume "agent_run_ok r"
  then show ?thesis
    using Call_SelectStep next_version_nonzero [of "ar_version r"]
    by (cases "run_version_next (ar_version r)")
      (auto simp: agent_run_select_current_step_def agent_run_ok_def Let_def)
qed

lemma next_unat: "run_version_next v = Ok w \<Longrightarrow> unat (version_value w) = Suc (unat (version_value v))"
  by (simp add: run_version_next_Ok_iff)

lemma agent_run_perform_version:
  "unat (version_value (ar_version (snd (agent_run_perform r c)))) =
     unat (version_value (ar_version r)) + (if fst (agent_run_perform r c) then 1 else 0)"
proof (cases c)
  case (Call_Transition v t res at)
  then show ?thesis
    by (cases "run_version_next (ar_version r)"; cases "run_status_transition_to (ar_status r) t")
      (auto simp: agent_run_transition_def Let_def dest: next_unat)
next
  case (Call_AttachPlan v p at)
  then show ?thesis
    by (cases "run_version_next (ar_version r)")
      (auto simp: agent_run_attach_plan_def Let_def dest: next_unat)
next
  case (Call_SelectStep v st at)
  then show ?thesis
    by (cases "run_version_next (ar_version r)")
      (auto simp: agent_run_select_current_step_def Let_def dest: next_unat)
qed

lemma agent_run_perform_stale:
  assumes "agent_run_call_expected c \<noteq> ar_version r"
  shows "agent_run_perform r c = (False, r)"
  using assms
  by (cases c) (simp_all add: agent_run_transition_def agent_run_attach_plan_def
      agent_run_select_current_step_def)

lemma agent_run_history_ok:
  "agent_run_ok r \<Longrightarrow> agent_run_history r cs = (n, r') \<Longrightarrow>
     agent_run_ok r' \<and> unat (version_value (ar_version r')) = unat (version_value (ar_version r)) + n"
proof (induction cs arbitrary: r n)
  case (Cons c cs)
  obtain b r1 where b: "agent_run_perform r c = (b, r1)" by fastforce
  obtain m where m: "agent_run_history r1 cs = (m, r')" "n = (if b then 1 else 0) + m"
    using Cons.prems(2) b by (auto split: prod.splits)
  then show ?case
    using Cons.IH [OF _ m(1)] agent_run_perform_ok [OF Cons.prems(1), of c]
      agent_run_perform_version [of r c] b by auto
qed simp

text \<open>
  C14: a run built by \<^verbatim>\<open>AgentRun::create\<close> and changed by any sequence of calls, successful
  or not, keeps its invariant: result and finish time are present exactly in a terminal
  status, the objective is trimmed, non-blank and bounded.  Its version is one plus the
  number of calls that returned \<^verbatim>\<open>Ok\<close>, so it never wraps and a stale caller is
  always detected.
\<close>

theorem agent_run_history_invariant:
  assumes "agent_run_create input at = Ok r" "agent_run_history r calls = (n, r')"
  shows "agent_run_ok r' \<and> unat (version_value (ar_version r')) = Suc n \<and>
    (\<forall>c. agent_run_call_expected c \<noteq> ar_version r' \<longrightarrow> agent_run_perform r' c = (False, r'))"
  using agent_run_history_ok [OF _ assms(2)] agent_run_create_ok [OF assms(1)] agent_run_perform_stale
  by (auto simp: run_version_initial_def)

definition example_new_run :: new_agent_run
  where "example_new_run =
    \<lparr> nr_id = 1, nr_workspace_id = 2, nr_objective = '' Summarize '', nr_coordinator_snapshot_id = 3,
      nr_execution_mode = Autopilot, nr_parent = None, nr_budget_snapshot_id = None,
      nr_resource_usage_snapshot_id = None \<rparr>"

theorem agent_run_history_invariant_witness:
  "\<exists>r r'. agent_run_create example_new_run 0 = Ok r \<and>
     agent_run_history r
       [Call_Transition (RunVersion 1) Run_Preparing None 1,
        Call_Transition (RunVersion 1) Run_Running None 2,
        Call_Transition (RunVersion 2) Run_Failed (Some (Result_Failed ''lost'' ''worker'' True)) 3] = (2, r') \<and>
     agent_run_ok r' \<and> unat (version_value (ar_version r')) = 3 \<and> ar_status r' = Run_Failed"
proof -
  obtain r where r: "agent_run_create example_new_run 0 = Ok r" "ar_status r = Run_Created"
      "ar_version r = RunVersion 1"
    by (simp add: agent_run_create_def example_new_run_def trim_eval max_objective_len_def
        run_version_initial_def)
  obtain r' where r': "agent_run_history r
       [Call_Transition (RunVersion 1) Run_Preparing None 1,
        Call_Transition (RunVersion 1) Run_Running None 2,
        Call_Transition (RunVersion 2) Run_Failed (Some (Result_Failed ''lost'' ''worker'' True)) 3] = (2, r')"
      "ar_status r' = Run_Failed"
    by (simp add: r agent_run_transition_def run_status_transition_to_def run_status_is_terminal_def
        run_version_next_def checked_add_def Let_def)
  show ?thesis
    using agent_run_history_invariant [OF r(1) r'(1)] r r' by auto
qed

section \<open>Lifecycle of a step\<close>

definition run_step_ok :: "run_step \<Rightarrow> bool"
  where "run_step_ok st =
    (st_attempt st \<noteq> 0 \<and>
     (st_finished_at st \<noteq> None) = run_step_status_is_terminal (st_status st) \<and>
     (st_error st \<noteq> None \<longrightarrow> st_status st = Step_Failed) \<and>
     (st_status st \<in> {Step_Running, Step_Waiting, Step_Unknown, Step_Succeeded, Step_Failed}
        \<longrightarrow> st_started_at st \<noteq> None) \<and>
     (case st_error st of
        None \<Rightarrow> True
      | Some f \<Rightarrow> rf_code f \<noteq> [] \<and> trim (rf_code f) = rf_code f \<and> length (rf_code f) \<le> max_field_len \<and>
          length (rf_message f) \<le> max_field_len))"

text \<open>
  What may happen to a step after its creation; \<^verbatim>\<open>n\<close> counts the retries.  A call that
  returns an error is part of the relation, too.
\<close>

inductive run_step_reaches :: "run_step \<Rightarrow> nat \<Rightarrow> run_step \<Rightarrow> bool"
  for start :: run_step
  where
    start: "run_step_reaches start 0 start"
  | transition: "run_step_reaches start n st \<Longrightarrow>
      run_step_reaches start n (snd (run_step_transition_to st next at))"
  | fail: "run_step_reaches start n st \<Longrightarrow>
      run_step_reaches start n (snd (run_step_fail st failure at))"
  | retry: "run_step_reaches start n st \<Longrightarrow> run_step_retry st at = (Ok (), st') \<Longrightarrow>
      run_step_reaches start (Suc n) st'"

lemma step_status_next:
  assumes "run_step_status_transition_to s t = Ok u" "s \<noteq> t"
  shows "\<not> run_step_status_is_terminal s"
    and "t = Step_Succeeded \<Longrightarrow> s \<in> {Step_Running, Step_Unknown}"
    and "t \<in> {Step_Waiting, Step_Failed, Step_Unknown} \<Longrightarrow> s \<in> {Step_Running, Step_Waiting, Step_Unknown}"
  using assms
  by (cases s; auto simp: run_step_status_transition_to_def run_step_status_is_terminal_def
      split: if_splits)+

lemma run_step_create_ok:
  assumes "run_step_create input at = Ok st"
  shows "run_step_ok st" "st_attempt st = 1" "st_status st = Step_Pending"
  using assms
  by (auto simp: run_step_create_def and_then_Ok_iff run_step_ok_def run_step_status_is_terminal_def)

lemma run_step_transition_ok:
  assumes ok: "run_step_ok st"
  shows "run_step_ok (snd (run_step_transition_to st next at))"
proof (cases "run_step_status_transition_to (st_status st) next")
  case (Inl e)
  then show ?thesis using ok by (simp add: run_step_transition_to_def)
next
  case (Inr u)
  show ?thesis
  proof (cases "st_status st = next")
    case True
    then show ?thesis
      using ok Inr
      by (cases "st_started_at st")
        (auto simp: run_step_transition_to_def run_step_ok_def Let_def split: option.splits)
  next
    case False
    note nxt = step_status_next [OF Inr False]
    have err: "st_error st = None"
      using ok nxt(1) by (auto simp: run_step_ok_def run_step_status_is_terminal_def)
    have started: "next \<in> {Step_Waiting, Step_Unknown, Step_Succeeded, Step_Failed} \<Longrightarrow> st_started_at st \<noteq> None"
      using ok nxt(2,3) by (auto simp: run_step_ok_def)
    show ?thesis
      using ok Inr nxt(1) err started
      by (auto simp: run_step_transition_to_def run_step_ok_def Let_def)
  qed
qed

lemma run_step_fail_ok:
  assumes ok: "run_step_ok st"
  shows "run_step_ok (snd (run_step_fail st failure at))"
proof (cases "run_step_status_transition_to (st_status st) Step_Failed")
  case (Inl e)
  then show ?thesis using ok by (simp add: run_step_fail_def Let_def)
next
  case (Inr u)
  have "st_started_at st \<noteq> None"
  proof (cases "st_status st = Step_Failed")
    case False
    then show ?thesis
      using step_status_next(3) [OF Inr False] ok by (auto simp: run_step_ok_def)
  qed (use ok in \<open>auto simp: run_step_ok_def\<close>)
  then show ?thesis
    using ok Inr
    by (auto simp: run_step_fail_def run_step_ok_def run_step_status_is_terminal_def Let_def)
qed

lemma run_step_retry_ok:
  assumes "run_step_ok st" "run_step_retry st at = (Ok (), st')"
  shows "run_step_ok st'" "unat (st_attempt st') = Suc (unat (st_attempt st))" "st_status st = Step_Failed"
proof -
  obtain a where a: "st_status st = Step_Failed" "checked_add (st_attempt st) 1 = Some a"
      "st' = st\<lparr>st_attempt := a, st_status := Step_Ready, st_started_at := None,
        st_finished_at := None, st_error := None\<rparr>"
    using assms(2) by (auto simp: run_step_retry_def split: if_splits option.splits)
  have "unat a = Suc (unat (st_attempt st))"
    using a(2) by (simp add: word_arith)
  moreover from this have "a \<noteq> 0" by auto
  ultimately show "run_step_ok st'" "unat (st_attempt st') = Suc (unat (st_attempt st))"
      "st_status st = Step_Failed"
    using a by (simp_all add: run_step_ok_def run_step_status_is_terminal_def)
qed

lemma run_step_attempt_kept:
  "st_attempt (snd (run_step_transition_to st next at)) = st_attempt st"
  "st_attempt (snd (run_step_fail st failure at)) = st_attempt st"
  by (simp_all add: run_step_transition_to_def run_step_fail_def Let_def split: sum.split)

text \<open>
  Whatever sequence of \<^verbatim>\<open>transition_to\<close>, \<^verbatim>\<open>fail\<close> and \<^verbatim>\<open>retry\<close> a created step goes
  through, it is finished exactly in a terminal status, carries an error only when it
  failed, with a trimmed, non-blank and bounded code, was started whenever its status
  needs it, and counts its attempts: one plus the number of retries.
\<close>

theorem run_step_lifecycle:
  assumes "run_step_create input at = Ok st0" "run_step_reaches st0 n st"
  shows "run_step_ok st \<and> unat (st_attempt st) = Suc n"
  using assms(2)
proof induction
  case start
  then show ?case using run_step_create_ok [OF assms(1)] by simp
next
  case (transition n st)
  then show ?case using run_step_transition_ok run_step_attempt_kept(1) by simp
next
  case (fail n st)
  then show ?case using run_step_fail_ok run_step_attempt_kept(2) by simp
next
  case (retry n st)
  then show ?case using run_step_retry_ok(1,2) by metis
qed

definition example_new_step :: new_run_step
  where "example_new_step =
    \<lparr> ns_id = 1, ns_run_id = 2, ns_plan_step_reference = None, ns_assigned_actor = ActorRef_System,
      ns_input_references = [] \<rparr>"

theorem run_step_lifecycle_witness:
  "\<exists>st0 st. run_step_create example_new_step 0 = Ok st0 \<and> run_step_reaches st0 1 st \<and>
     run_step_ok st \<and> unat (st_attempt st) = 2 \<and> st_status st = Step_Ready"
proof -
  obtain st0 where st0: "run_step_create example_new_step 0 = Ok st0"
    and s0: "st_status st0 = Step_Pending" "st_attempt st0 = 1"
    by (simp add: run_step_create_def example_new_step_def)
  define st1 where "st1 = snd (run_step_transition_to st0 Step_Ready 1)"
  define st2 where "st2 = snd (run_step_transition_to st1 Step_Running 2)"
  define st3 where
    "st3 = snd (run_step_fail st2 \<lparr>rf_code = ''lost'', rf_message = [], rf_retryable = True\<rparr> 3)"
  have s1: "st_status st1 = Step_Ready" "st_attempt st1 = 1"
    using s0 by (simp_all add: st1_def run_step_transition_to_def run_step_status_transition_to_def Let_def)
  have s2: "st_status st2 = Step_Running" "st_attempt st2 = 1"
    using s1 by (simp_all add: st2_def run_step_transition_to_def run_step_status_transition_to_def Let_def)
  have s3: "st_status st3 = Step_Failed" "st_attempt st3 = 1"
    using s2 by (simp_all add: st3_def run_step_fail_def run_step_status_transition_to_def Let_def
        trim_eval max_field_len_def)
  obtain st4 where st4: "run_step_retry st3 4 = (Ok (), st4)" "st_status st4 = Step_Ready"
    using s3 by (simp add: run_step_retry_def checked_add_def)
  have "run_step_reaches st0 1 st4"
    using run_step_reaches.retry [OF _ st4(1), of st0 0]
    by (simp add: st1_def st2_def st3_def run_step_reaches.intros)
  then show ?thesis
    using run_step_lifecycle [OF st0] st0 st4(2) by auto
qed

end
