(* ===== verification/Run_Log.thy ===== *)
theory Run_Log
  imports Run_Aggregate
begin

text \<open>
  Records that accompany a run: canonical run events (\<^verbatim>\<open>run/event.rs\<close>), checkpoints of
  scheduling state (\<^verbatim>\<open>run/checkpoint.rs\<close>) and queued work items (\<^verbatim>\<open>run/work.rs\<close>).
\<close>

section \<open>RunEvent\<close>

datatype run_event_payload =
    Payload_RunCreated string run_execution_mode uuid "parent_run_link option"
  | Payload_RunStatusChanged run_status run_status "run_terminal_result option"
  | Payload_PlanAttached "uuid option" uuid
  | Payload_StepsAdded "run_step list"
  | Payload_StepStatusChanged uuid run_step_status run_step_status u32
  | Payload_CurrentStepChanged "uuid option" "uuid option"
  | Payload_CheckpointCreated uuid resume_cursor
  | Payload_ApprovalGranted uuid

fun run_event_payload_event_type :: "run_event_payload \<Rightarrow> string"
  where
    "run_event_payload_event_type (Payload_RunCreated _ _ _ _) = ''run.created''"
  | "run_event_payload_event_type (Payload_RunStatusChanged _ _ _) = ''run.status_changed''"
  | "run_event_payload_event_type (Payload_PlanAttached _ _) = ''run.plan_attached''"
  | "run_event_payload_event_type (Payload_StepsAdded _) = ''run.steps_added''"
  | "run_event_payload_event_type (Payload_StepStatusChanged _ _ _ _) = ''run.step_status_changed''"
  | "run_event_payload_event_type (Payload_CurrentStepChanged _ _) = ''run.current_step_changed''"
  | "run_event_payload_event_type (Payload_CheckpointCreated _ _) = ''run.checkpoint_created''"
  | "run_event_payload_event_type (Payload_ApprovalGranted _) = ''run.approval_granted''"

fun is_creation :: "run_event_payload \<Rightarrow> bool"
  where
    "is_creation (Payload_RunCreated _ _ _ _) = True"
  | "is_creation _ = False"

record run_event =
  re_id :: uuid
  re_workspace_id :: uuid
  re_run_id :: uuid
  re_sequence :: resume_cursor
  re_run_version :: run_version
  re_actor :: run_actor_ref
  re_payload :: run_event_payload
  re_correlation_id :: uuid
  re_causation_event_id :: "uuid option"
  re_occurred_at :: timestamp

definition run_event_with_id ::
    "uuid \<Rightarrow> uuid \<Rightarrow> uuid \<Rightarrow> run_version \<Rightarrow> resume_cursor \<Rightarrow> run_actor_ref \<Rightarrow> run_event_payload
     \<Rightarrow> uuid \<Rightarrow> uuid option \<Rightarrow> timestamp \<Rightarrow> (domain_error, run_event) result"
  where "run_event_with_id eid run_id workspace_id run_version sequence actor payload
      correlation_id causation_event_id occurred_at =
    (if sequence \<noteq> resume_cursor_from_version run_version
     then Err (InvalidArgument (''event sequence '' @ show_u64 (cursor_value sequence)
            @ '' must equal run version '' @ show_u64 (version_value run_version)))
     else if is_creation payload \<and> run_version \<noteq> run_version_initial
     then Err (InvalidArgument ''RunCreated event must have version 1'')
     else if \<not> is_creation payload \<and> run_version = run_version_initial
     then Err (InvalidArgument ''non-creation event must have version greater than 1'')
     else if causation_event_id = Some eid
     then Err (InvalidArgument ''causation event id must not self-reference'')
     else Ok \<lparr> re_id = eid, re_workspace_id = workspace_id, re_run_id = run_id,
               re_sequence = sequence, re_run_version = run_version, re_actor = actor,
               re_payload = payload, re_correlation_id = correlation_id,
               re_causation_event_id = causation_event_id, re_occurred_at = occurred_at \<rparr>)"

text \<open>\<^verbatim>\<open>RunEvent::new\<close> draws its identifier; \<^verbatim>\<open>fresh\<close> is the drawn value.\<close>

definition run_event_new ::
    "uuid \<Rightarrow> uuid \<Rightarrow> uuid \<Rightarrow> run_version \<Rightarrow> resume_cursor \<Rightarrow> run_actor_ref \<Rightarrow> run_event_payload
     \<Rightarrow> uuid \<Rightarrow> uuid option \<Rightarrow> timestamp \<Rightarrow> (domain_error, run_event) result"
  where "run_event_new fresh run_id workspace_id run_version sequence actor payload
      correlation_id causation_event_id occurred_at =
    run_event_with_id fresh run_id workspace_id run_version sequence actor payload
      correlation_id causation_event_id occurred_at"

section \<open>RunCheckpoint\<close>

record run_checkpoint_payload_v1 =
  v1_completed_steps :: "uuid list"
  v1_ready_steps :: "uuid list"
  v1_pending_work_items :: "uuid list"
  v1_pending_tool_calls :: "uuid list"
  v1_pending_approvals :: "uuid list"
  v1_active_subruns :: "uuid list"
  v1_context_references :: "run_reference list"
  v1_artifact_references :: "run_reference list"
  v1_budget_snapshot_id :: "uuid option"

datatype run_checkpoint_payload = Checkpoint_V1 run_checkpoint_payload_v1

record scheduling_checkpoint =
  sk_id :: uuid
  sk_workspace_id :: uuid
  sk_run_id :: uuid
  sk_run_version :: run_version
  sk_active_plan_revision_id :: "uuid option"
  sk_resume_cursor :: resume_cursor
  sk_payload :: run_checkpoint_payload
  sk_created_at :: timestamp

text \<open>The two nested index loops.\<close>

definition check_no_duplicates :: "string \<Rightarrow> 'a list \<Rightarrow> (domain_error, unit) result"
  where "check_no_duplicates field_name items =
    (if list_ex (\<lambda>i. list_ex (\<lambda>j. items ! i = items ! j) [Suc i..<length items]) [0..<length items]
     then Err (InvalidArgument (''checkpoint '' @ field_name @ '' contains duplicate IDs''))
     else Ok ())"

definition validate_payload :: "run_checkpoint_payload \<Rightarrow> (domain_error, unit) result"
  where "validate_payload payload =
    (case payload of Checkpoint_V1 v1 \<Rightarrow>
       and_then (check_no_duplicates ''completed_steps'' (v1_completed_steps v1)) (\<lambda>_.
       and_then (check_no_duplicates ''ready_steps'' (v1_ready_steps v1)) (\<lambda>_.
       and_then (check_no_duplicates ''pending_work_items'' (v1_pending_work_items v1)) (\<lambda>_.
       and_then (check_no_duplicates ''pending_tool_calls'' (v1_pending_tool_calls v1)) (\<lambda>_.
       and_then (check_no_duplicates ''pending_approvals'' (v1_pending_approvals v1)) (\<lambda>_.
       and_then (check_no_duplicates ''active_subruns'' (v1_active_subruns v1)) (\<lambda>_.
       Ok ())))))))"

definition scheduling_checkpoint_new ::
    "uuid \<Rightarrow> uuid \<Rightarrow> uuid \<Rightarrow> run_version \<Rightarrow> uuid option \<Rightarrow> run_checkpoint_payload \<Rightarrow> timestamp
     \<Rightarrow> (domain_error, scheduling_checkpoint) result"
  where "scheduling_checkpoint_new cid workspace_id run_id run_version plan payload created_at =
    and_then (validate_payload payload) (\<lambda>_.
    Ok \<lparr> sk_id = cid, sk_workspace_id = workspace_id, sk_run_id = run_id,
         sk_run_version = run_version, sk_active_plan_revision_id = plan,
         sk_resume_cursor = resume_cursor_from_version run_version, sk_payload = payload,
         sk_created_at = created_at \<rparr>)"

section \<open>WorkItem\<close>

datatype work_item_kind = AdvanceRun | ResumeRun | CreateCheckpoint | ExpireRun | ExecuteStep

fun work_item_kind_as_str :: "work_item_kind \<Rightarrow> string"
  where
    "work_item_kind_as_str AdvanceRun = ''advance_run''"
  | "work_item_kind_as_str ResumeRun = ''resume_run''"
  | "work_item_kind_as_str CreateCheckpoint = ''create_checkpoint''"
  | "work_item_kind_as_str ExpireRun = ''expire_run''"
  | "work_item_kind_as_str ExecuteStep = ''execute_step''"

definition parse_kind :: "string \<Rightarrow> work_item_kind option"
  where "parse_kind s =
    (if s = ''advance_run'' then Some AdvanceRun
     else if s = ''resume_run'' then Some ResumeRun
     else if s = ''create_checkpoint'' then Some CreateCheckpoint
     else if s = ''expire_run'' then Some ExpireRun
     else if s = ''execute_step'' then Some ExecuteStep
     else None)"

fun work_item_kind_debug :: "work_item_kind \<Rightarrow> string"
  where
    "work_item_kind_debug AdvanceRun = ''AdvanceRun''"
  | "work_item_kind_debug ResumeRun = ''ResumeRun''"
  | "work_item_kind_debug CreateCheckpoint = ''CreateCheckpoint''"
  | "work_item_kind_debug ExpireRun = ''ExpireRun''"
  | "work_item_kind_debug ExecuteStep = ''ExecuteStep''"

datatype work_item_status =
    Work_Ready | Work_Leased | Work_Completed | Work_Failed | Work_Cancelled | Work_DeadLetter

fun work_item_status_as_str :: "work_item_status \<Rightarrow> string"
  where
    "work_item_status_as_str Work_Ready = ''ready''"
  | "work_item_status_as_str Work_Leased = ''leased''"
  | "work_item_status_as_str Work_Completed = ''completed''"
  | "work_item_status_as_str Work_Failed = ''failed''"
  | "work_item_status_as_str Work_Cancelled = ''cancelled''"
  | "work_item_status_as_str Work_DeadLetter = ''dead_letter''"

definition parse_status :: "string \<Rightarrow> work_item_status option"
  where "parse_status s =
    (if s = ''ready'' then Some Work_Ready
     else if s = ''leased'' then Some Work_Leased
     else if s = ''completed'' then Some Work_Completed
     else if s = ''failed'' then Some Work_Failed
     else if s = ''cancelled'' then Some Work_Cancelled
     else if s = ''dead_letter'' then Some Work_DeadLetter
     else None)"

datatype run_work_payload =
    Work_Advance
  | Work_Resume "uuid option"
  | Work_CreateCheckpoint
  | Work_Expire

record work_item =
  wi_id :: uuid
  wi_workspace_id :: uuid
  wi_run_id :: uuid
  wi_step_id :: "uuid option"
  wi_expected_run_version :: run_version
  wi_kind :: work_item_kind
  wi_payload :: run_work_payload
  wi_status :: work_item_status
  wi_priority :: "16 word"
  wi_available_at :: timestamp
  wi_deadline :: "timestamp option"
  wi_attempt :: u32
  wi_max_attempts :: u32
  wi_idempotency_key :: string

fun kind_payload_agree :: "work_item_kind \<Rightarrow> run_work_payload \<Rightarrow> bool"
  where
    "kind_payload_agree AdvanceRun Work_Advance = True"
  | "kind_payload_agree ResumeRun (Work_Resume _) = True"
  | "kind_payload_agree CreateCheckpoint Work_CreateCheckpoint = True"
  | "kind_payload_agree ExpireRun Work_Expire = True"
  | "kind_payload_agree ExecuteStep Work_Advance = True"
  | "kind_payload_agree _ _ = False"

text \<open>\<^verbatim>\<open>show_payload\<close> stands for \<^verbatim>\<open>{payload:?}\<close>.\<close>

definition validate_kind_payload_agreement ::
    "(run_work_payload \<Rightarrow> string) \<Rightarrow> work_item_kind \<Rightarrow> run_work_payload \<Rightarrow> (domain_error, unit) result"
  where "validate_kind_payload_agreement show_payload kind payload =
    (if \<not> kind_payload_agree kind payload
     then Err (InvalidArgument (''work item kind '' @ work_item_kind_debug kind
            @ '' does not match payload '' @ show_payload payload))
     else Ok ())"

definition work_item_new ::
    "(run_work_payload \<Rightarrow> string) \<Rightarrow> uuid \<Rightarrow> uuid \<Rightarrow> uuid \<Rightarrow> uuid option \<Rightarrow> run_version
     \<Rightarrow> work_item_kind \<Rightarrow> run_work_payload \<Rightarrow> 16 word \<Rightarrow> timestamp \<Rightarrow> timestamp option \<Rightarrow> u32 \<Rightarrow> string
     \<Rightarrow> (domain_error, work_item) result"
  where "work_item_new show_payload wid workspace_id run_id step_id expected_run_version kind payload
      priority available_at deadline max_attempts idempotency_key =
    and_then (validate_kind_payload_agreement show_payload kind payload) (\<lambda>_.
    if trim idempotency_key = [] then Err (InvalidArgument ''idempotency_key must not be blank'')
    else if max_attempts < 1 then Err (InvalidArgument ''max_attempts must be >= 1'')
    else Ok \<lparr> wi_id = wid, wi_workspace_id = workspace_id, wi_run_id = run_id, wi_step_id = step_id,
              wi_expected_run_version = expected_run_version, wi_kind = kind, wi_payload = payload,
              wi_status = Work_Ready, wi_priority = priority, wi_available_at = available_at,
              wi_deadline = deadline, wi_attempt = 0, wi_max_attempts = max_attempts,
              wi_idempotency_key = idempotency_key \<rparr>)"

section \<open>Facts\<close>

interpretation work_kind_name: named_enum work_item_kind_as_str parse_kind
proof unfold_locales
  show "parse_kind (work_item_kind_as_str x) = Some x" for x
    by (cases x) (simp_all add: parse_kind_def)
  show "parse_kind s = Some x \<Longrightarrow> work_item_kind_as_str x = s" for s x
    by (auto simp: parse_kind_def split: if_splits)
qed

interpretation work_status_name: named_enum work_item_status_as_str parse_status
proof unfold_locales
  show "parse_status (work_item_status_as_str x) = Some x" for x
    by (cases x) (simp_all add: parse_status_def)
  show "parse_status s = Some x \<Longrightarrow> work_item_status_as_str x = s" for s x
    by (auto simp: parse_status_def split: if_splits)
qed

text \<open>The quadratic duplicate check decides \<^const>\<open>distinct\<close>.\<close>

lemma check_no_duplicates_iff: "check_no_duplicates f items = Ok u \<longleftrightarrow> distinct items"
proof -
  have "list_ex (\<lambda>i. list_ex (\<lambda>j. items ! i = items ! j) [Suc i..<length items]) [0..<length items]
      \<longleftrightarrow> \<not> distinct items"
    unfolding list_ex_iff distinct_conv_nth set_upt Bex_def atLeastLessThan_iff
    by (metis Suc_le_eq le0 linorder_neqE_nat order_less_irrefl order_less_trans)
  then show ?thesis
    by (auto simp: check_no_duplicates_def)
qed

text \<open>
  A checkpoint is created exactly when none of its six identifier lists repeats an
  identifier, and then resumes right after the version it was taken at.
\<close>

theorem scheduling_checkpoint_created_iff:
  "(\<exists>c. scheduling_checkpoint_new cid ws run v plan (Checkpoint_V1 p) at = Ok c \<and>
        cursor_value (sk_resume_cursor c) = version_value v) \<longleftrightarrow>
   distinct (v1_completed_steps p) \<and> distinct (v1_ready_steps p) \<and>
   distinct (v1_pending_work_items p) \<and> distinct (v1_pending_tool_calls p) \<and>
   distinct (v1_pending_approvals p) \<and> distinct (v1_active_subruns p)"
  by (auto simp: scheduling_checkpoint_new_def validate_payload_def and_then_Ok_iff
      check_no_duplicates_iff resume_cursor_from_version_def)

end
