(* ===== verification/Resource_Scope.thy ===== *)
theory Resource_Scope
  imports Rust_Text
begin

text \<open>
  The vocabulary of resource scopes (\<^verbatim>\<open>security/scope.rs\<close>) and the two containment
  rules of \<^verbatim>\<open>security/delegation.rs\<close>: dotted operation selectors and slash-separated
  scopes.  Containment is an interface of its own, which authorization and delegation
  rest on.
\<close>

section \<open>Containment rules\<close>

definition selector_is_within :: "string \<Rightarrow> string \<Rightarrow> bool"
  where "selector_is_within child parent =
    (if CHR ''*'' \<in> set child \<or> CHR ''*'' \<in> set parent then False
     else child = parent \<or> strip_prefix (parent @ ''.'') child \<noteq> None)"

definition scope_is_within :: "string \<Rightarrow> string \<Rightarrow> bool"
  where "scope_is_within child parent =
    (if CHR ''*'' \<in> set child \<or> CHR ''*'' \<in> set parent then False
     else if parent = [] then child = []
     else if child = parent then True
     else case strip_prefix parent child of
       None \<Rightarrow> False
     | Some rest \<Rightarrow>
         if last parent = CHR ''/'' then rest \<noteq> []
         else strip_prefix ''/'' rest \<noteq> None)"

section \<open>ResourceKind\<close>

datatype resource_kind =
    Kind_Memory | Kind_Event | Kind_Context | Kind_Agent | Kind_Skill | Kind_Workflow
  | Kind_Execution | Kind_Run | Kind_Model | Kind_Provider | Kind_Evaluation | Kind_Learning
  | Kind_Audit | Kind_Export | Kind_Finding | Kind_Capability | Kind_Workspace

definition resource_kind_all :: "resource_kind list"
  where "resource_kind_all =
    [Kind_Memory, Kind_Event, Kind_Context, Kind_Agent, Kind_Skill, Kind_Workflow, Kind_Execution,
     Kind_Run, Kind_Model, Kind_Provider, Kind_Evaluation, Kind_Learning, Kind_Audit, Kind_Export,
     Kind_Finding, Kind_Capability, Kind_Workspace]"

fun scheme :: "resource_kind \<Rightarrow> string"
  where
    "scheme Kind_Memory = ''memory''"
  | "scheme Kind_Event = ''event''"
  | "scheme Kind_Context = ''context''"
  | "scheme Kind_Agent = ''agent''"
  | "scheme Kind_Skill = ''skill''"
  | "scheme Kind_Workflow = ''workflow''"
  | "scheme Kind_Execution = ''execution''"
  | "scheme Kind_Run = ''run''"
  | "scheme Kind_Model = ''model''"
  | "scheme Kind_Provider = ''provider''"
  | "scheme Kind_Evaluation = ''evaluation''"
  | "scheme Kind_Learning = ''learning''"
  | "scheme Kind_Audit = ''audit''"
  | "scheme Kind_Export = ''export''"
  | "scheme Kind_Finding = ''finding''"
  | "scheme Kind_Capability = ''capability''"
  | "scheme Kind_Workspace = ''workspace''"

fun join :: "string \<Rightarrow> string list \<Rightarrow> string"
  where
    "join sep [] = []"
  | "join sep [s] = s"
  | "join sep (s # t # ss) = s @ sep @ join sep (t # ss)"

definition resource_kind_from_str :: "string \<Rightarrow> (domain_error, resource_kind) result"
  where "resource_kind_from_str value =
    ok_or (InvalidArgument (''resource scope names the unknown kind `'' @ value
        @ ''`, so it would match nothing that is ever checked; the kinds are: ''
        @ join '', '' (map scheme resource_kind_all)))
      (find (\<lambda>kind. scheme kind = value) resource_kind_all)"

section \<open>ResourceScope\<close>

datatype resource_scope =
    EveryOfKind resource_kind
  | One resource_kind string
  | Surface string
  | External string string

definition resource_scope_workspace :: resource_scope
  where "resource_scope_workspace = EveryOfKind Kind_Workspace"

fun resource_scope_display :: "resource_scope \<Rightarrow> string"
  where
    "resource_scope_display (EveryOfKind kind) = scheme kind @ ''://''"
  | "resource_scope_display (One kind i) = scheme kind @ ''://'' @ i"
  | "resource_scope_display (Surface path) = path"
  | "resource_scope_display (External s target) = s @ ''://'' @ target"

definition resource_scope_parse :: "string \<Rightarrow> (domain_error, resource_scope) result"
  where "resource_scope_parse value =
    (let trimmed = trim value in
     if trimmed = []
     then Err (InvalidArgument ''capability grant resource scope must not be empty'')
     else if length trimmed \<noteq> length value
     then Err (InvalidArgument (''resource scope `'' @ value
       @ ''` is surrounded by whitespace, and would not match the trimmed form anything asks about''))
     else if contains_white_space trimmed
     then Err (InvalidArgument (''resource scope `'' @ value @ ''` contains whitespace''))
     else if CHR ''*'' \<in> set trimmed
     then Err (InvalidArgument (''resource scope `'' @ value
       @ ''` contains `*`, which is refused everywhere it is compared rather than treated as a wildcard; name the container instead, as in `memory://`''))
     else case strip_prefix ''/'' trimmed of
       Some path \<Rightarrow>
         if path = []
         then Err (InvalidArgument ''resource scope `/` is the whole HTTP surface, which is not a scope anybody writes deliberately'')
         else Ok (Surface trimmed)
     | None \<Rightarrow>
         (case split_once ''://'' trimmed of
            None \<Rightarrow> Err (InvalidArgument (''resource scope `'' @ value
              @ ''` is in no vocabulary this system checks; a scope is `<kind>://` for every resource of a kind, `<kind>://<id>` for one, `/<path>` for an HTTP surface, or `<scheme>://<target>` for something at a provider''))
          | Some (s, rest) \<Rightarrow>
              if s = []
              then Err (InvalidArgument (''resource scope `'' @ value @ ''` names no kind before `://`''))
              else case resource_kind_from_str s of
                Inr kind \<Rightarrow> Ok (if rest = [] then EveryOfKind kind else One kind rest)
              | Inl _ \<Rightarrow>
                  if rest = []
                  then Err (InvalidArgument (''resource scope `'' @ value @ ''` names no target after `''
                    @ s @ ''://`, so it would contain everything that scheme can reach''))
                  else Ok (External s rest)))"

fun is_internal :: "resource_scope \<Rightarrow> bool"
  where
    "is_internal (EveryOfKind _) = True"
  | "is_internal (One _ _) = True"
  | "is_internal (Surface _) = True"
  | "is_internal (External _ _) = False"

definition covers :: "resource_scope \<Rightarrow> resource_scope \<Rightarrow> bool"
  where "covers self requested =
    scope_is_within (resource_scope_display requested) (resource_scope_display self)"

section \<open>Interface: containment\<close>

text \<open>
  What authorization and delegation rely on: containment is a partial order on the names
  without a wildcard, and holds between such names only.
\<close>

locale containment =
  fixes within :: "string \<Rightarrow> string \<Rightarrow> bool"
  assumes within_literal: "within a b \<Longrightarrow> CHR ''*'' \<notin> set a \<and> CHR ''*'' \<notin> set b"
    and within_refl: "CHR ''*'' \<notin> set a \<Longrightarrow> within a a"
    and within_trans: "within a b \<Longrightarrow> within b c \<Longrightarrow> within a c"
    and within_antisym: "within a b \<Longrightarrow> within b a \<Longrightarrow> a = b"
begin

lemma within_left: "within a b \<Longrightarrow> within a a"
  using within_literal within_refl by blast

text \<open>A chain of narrowings ends inside every link it started from.\<close>

lemma chain_within: "successively (\<lambda>parent child. within child parent) (x # xs) \<Longrightarrow>
    y \<in> set xs \<Longrightarrow> within y x"
proof (induction xs arbitrary: x)
  case Nil
  then show ?case by simp
next
  case (Cons z zs)
  then have z: "within z x" "successively (\<lambda>parent child. within child parent) (z # zs)"
    by simp_all
  show ?case
  proof (cases "y = z")
    case False
    then have "within y z"
      using Cons.IH [OF z(2)] Cons.prems(2) by simp
    then show ?thesis
      using z(1) within_trans by blast
  qed (use z in simp)
qed

end

lemma selector_within_iff:
  "selector_is_within child parent \<longleftrightarrow> CHR ''*'' \<notin> set child \<and> CHR ''*'' \<notin> set parent \<and>
     (child = parent \<or> (\<exists>rest. child = parent @ ''.'' @ rest))"
proof -
  have "strip_prefix (parent @ ''.'') child \<noteq> None \<longleftrightarrow> (\<exists>rest. child = parent @ ''.'' @ rest)"
    using strip_prefix_Some_iff [of "parent @ ''.''" child] by auto
  then show ?thesis
    by (simp add: selector_is_within_def)
qed

text \<open>Containment of scopes as continuation past the parent at a boundary.\<close>

lemma scope_within_iff:
  "scope_is_within child parent \<longleftrightarrow> CHR ''*'' \<notin> set child \<and> CHR ''*'' \<notin> set parent \<and>
     (child = parent \<or> (\<exists>rest. child = parent @ rest \<and> parent \<noteq> [] \<and> rest \<noteq> [] \<and>
        (last parent = CHR ''/'' \<or> hd rest = CHR ''/'')))"
proof -
  have slash: "strip_prefix ''/'' rest \<noteq> None \<longleftrightarrow> rest \<noteq> [] \<and> hd rest = CHR ''/''" for rest
    by (cases rest) auto
  show ?thesis
  proof (cases "strip_prefix parent child")
    case None
    then have "\<nexists>rest. child = parent @ rest"
      by auto
    then show ?thesis
      using None by (auto simp: scope_is_within_def)
  next
    case (Some rest)
    then have "child = parent @ rest"
      by (simp add: strip_prefix_Some_iff)
    then show ?thesis
      using Some slash [of rest] by (auto simp: scope_is_within_def simp del: strip_prefix.simps)
  qed
qed

interpretation selector: containment selector_is_within
proof unfold_locales
  show "selector_is_within a c" if "selector_is_within a b" "selector_is_within b c" for a b c
    using that by (auto simp: selector_within_iff)
  show "a = b" if "selector_is_within a b" "selector_is_within b a" for a b
    using that by (auto simp: selector_within_iff)
qed (auto simp: selector_within_iff)

interpretation scope: containment scope_is_within
proof unfold_locales
  show "scope_is_within a c" if ab: "scope_is_within a b" and bc: "scope_is_within b c" for a b c
  proof (cases "a = b \<or> b = c")
    case False
    then obtain r q where rq: "a = b @ r" "b = c @ q" "c \<noteq> []" "r \<noteq> []" "q \<noteq> []"
        "last c = CHR ''/'' \<or> hd q = CHR ''/''"
      using ab bc unfolding scope_within_iff by metis
    then have "a = c @ (q @ r)" "q @ r \<noteq> []" "last c = CHR ''/'' \<or> hd (q @ r) = CHR ''/''"
      by auto
    then show ?thesis
      using ab bc rq(3) unfolding scope_within_iff by blast
  qed (use ab bc in auto)
  show "a = b" if "scope_is_within a b" "scope_is_within b a" for a b
    using that by (auto simp: scope_within_iff)
qed (auto simp: scope_within_iff)

section \<open>Parsing, proved\<close>

lemma scheme_inj: "scheme k = scheme k' \<longleftrightarrow> k = k'"
  by (cases k; cases k') simp_all

lemma resource_kind_all_complete: "k \<in> set resource_kind_all"
  by (cases k) (simp_all add: resource_kind_all_def)

lemma resource_kind_from_str_Ok_iff: "resource_kind_from_str s = Ok k \<longleftrightarrow> s = scheme k"
proof
  assume "resource_kind_from_str s = Ok k"
  then show "s = scheme k"
    by (auto simp: resource_kind_from_str_def ok_or_Ok_iff find_Some_iff)
next
  assume s: "s = scheme k"
  have "find (\<lambda>kind. scheme kind = s) resource_kind_all = Some k"
  proof (cases "find (\<lambda>kind. scheme kind = s) resource_kind_all")
    case None
    then show ?thesis
      using s resource_kind_all_complete [of k] by (auto simp: find_None_iff)
  next
    case (Some k')
    then show ?thesis
      using s scheme_inj by (auto simp: find_Some_iff)
  qed
  then show "resource_kind_from_str s = Ok k"
    by (simp add: resource_kind_from_str_def)
qed

lemma scheme_letters: "c \<in> set (scheme k) \<Longrightarrow> c \<notin> set ''*:/ ''" "scheme k \<noteq> []"
  by (cases k; auto)+

text \<open>
  \<^verbatim>\<open>split_once\<close> finds the separator it was given when that cannot overlap itself.
\<close>

lemma split_once_append:
  assumes "c \<notin> set sep" "split_once (c # sep) a = None"
  shows "split_once (c # sep) (a @ (c # sep) @ b) = Some (a, b)"
  using assms(2)
proof (induction a)
  case Nil
  then show ?case
    using strip_prefix_append [of "c # sep" b] by simp
next
  case (Cons x a)
  then have none: "strip_prefix (c # sep) (x # a) = None" "split_once (c # sep) a = None"
    by (auto split: option.splits simp del: strip_prefix.simps)
  have "strip_prefix (c # sep) ((x # a) @ (c # sep) @ b) = None"
  proof (rule ccontr)
    assume "strip_prefix (c # sep) ((x # a) @ (c # sep) @ b) \<noteq> None"
    then obtain r where r: "(x # a) @ (c # sep) @ b = (c # sep) @ r"
      unfolding not_None_eq strip_prefix_Some_iff by blast
    show False
    proof (cases "length sep \<le> length a")
      case True
      have "x = c" "take (length sep) (a @ (c # sep) @ b) = take (length sep) (sep @ r)"
        using r by simp_all
      then have "x = c" "take (length sep) a = sep"
        using True by simp_all
      then have "x # a = (c # sep) @ drop (length sep) a"
        using append_take_drop_id [of "length sep" a] by (metis append_Cons)
      then show False
        using none(1) strip_prefix_append [of "c # sep" "drop (length sep) a"] by simp
    next
      case False
      then have l: "length a < length sep" by simp
      then have "sep ! length a = (sep @ r) ! length a"
        by (simp add: nth_append)
      also have "sep @ r = a @ (c # sep) @ b"
        using r by simp
      also have "\<dots> ! length a = c"
        by simp
      finally show False
        using l assms(1) nth_mem [of "length a" sep] by simp
    qed
  qed
  then show ?case
    using Cons.IH [OF none(2)] by (simp del: strip_prefix.simps)
qed

lemma split_once_first:
  assumes "split_once (c # sep) s = Some (a, b)"
  shows "split_once (c # sep) a = None"
  using assms
proof (induction s arbitrary: a b)
  case Nil
  then show ?case by simp
next
  case (Cons x s)
  show ?case
  proof (cases "strip_prefix (c # sep) (x # s)")
    case (Some r)
    then show ?thesis
      using Cons.prems by simp
  next
    case None
    then obtain a' where a': "split_once (c # sep) s = Some (a', b)" "a = x # a'"
      using Cons.prems by (auto simp del: strip_prefix.simps)
    have "x # s = (x # a') @ (c # sep) @ b"
      using split_once_SomeD [OF a'(1)] by simp
    then have "strip_prefix (c # sep) (x # a') = None"
      using None strip_prefix_None_prefix [of "c # sep" "x # a'"] by metis
    then show ?thesis
      using Cons.IH [OF a'(1)] a'(2) by (simp del: strip_prefix.simps)
  qed
qed

lemma split_once_no_char: "c \<notin> set s \<Longrightarrow> split_once (c # sep) s = None"
  by (induction s) auto

lemma trim_length_eq: "length (trim s) = length s \<Longrightarrow> trim s = s"
proof -
  assume l: "length (trim s) = length s"
  obtain q where q: "trim_start s = trim s @ q"
    using trim_end_prefix [of "trim_start s"] by (auto simp: trim_def)
  obtain p where p: "s = p @ trim_start s"
    using drop_prefixes_suffix [of s white_space] by (auto simp: trim_start_def)
  have s: "s = p @ trim s @ q"
    using p [unfolded q] .
  have "length s = length p + (length (trim s) + length q)"
    using arg_cong [OF s, of length] by simp
  then have "p = [] \<and> q = []"
    using l by simp
  then have "p @ trim s @ q = trim s"
    by simp
  then show "trim s = s"
    by (rule trans [OF _ s [symmetric], OF sym])
qed

text \<open>The scopes that have a spelling, each in the one way \<^verbatim>\<open>Display\<close> writes it.\<close>

definition plain_text :: "string \<Rightarrow> bool"
  where "plain_text s = (s \<noteq> [] \<and> trim s = s \<and> \<not> contains_white_space s \<and> CHR ''*'' \<notin> set s)"

fun resource_scope_shape :: "resource_scope \<Rightarrow> bool"
  where
    "resource_scope_shape (EveryOfKind k) = True"
  | "resource_scope_shape (One k i) = (i \<noteq> [])"
  | "resource_scope_shape (Surface p) = (\<exists>q. q \<noteq> [] \<and> p = ''/'' @ q)"
  | "resource_scope_shape (External s t) =
       (s \<noteq> [] \<and> t \<noteq> [] \<and> hd s \<noteq> CHR ''/'' \<and> s \<notin> set (map scheme resource_kind_all) \<and>
        split_once ''://'' s = None)"

definition resource_scope_ok :: "resource_scope \<Rightarrow> bool"
  where "resource_scope_ok x = (plain_text (resource_scope_display x) \<and> resource_scope_shape x)"

lemma split_scheme: "split_once ''://'' (scheme k @ ''://'' @ rest) = Some (scheme k, rest)"
  using split_once_append [of "CHR '':''" "''//''" "scheme k" rest] scheme_letters(1) [of _ k]
    split_once_no_char [of "CHR '':''" "scheme k"] by fastforce

lemma scheme_not_slash: "strip_prefix ''/'' (scheme k @ rest) = None"
  by (cases k) simp_all

lemma not_slash: "strip_prefix ''/'' s = None \<longleftrightarrow> s = [] \<or> hd s \<noteq> CHR ''/''"
  by (cases s) auto

text \<open>The dispatch of the parser once the text is plain.\<close>

lemma parse_plain_iff:
  "resource_scope_parse s = Ok x \<longleftrightarrow> plain_text s \<and>
     (case strip_prefix ''/'' s of
        Some path \<Rightarrow> path \<noteq> [] \<and> x = Surface s
      | None \<Rightarrow> (case split_once ''://'' s of
          None \<Rightarrow> False
        | Some (a, b) \<Rightarrow> a \<noteq> [] \<and> (case resource_kind_from_str a of
            Inr kind \<Rightarrow> x = (if b = [] then EveryOfKind kind else One kind b)
          | Inl _ \<Rightarrow> b \<noteq> [] \<and> x = External a b)))"
proof -
  have t: "trim s \<noteq> [] \<and> length (trim s) = length s \<longleftrightarrow> s \<noteq> [] \<and> trim s = s"
    using trim_length_eq [of s] by auto
  show ?thesis
  proof (cases "trim s = s")
    case True
    then show ?thesis
      by (simp add: resource_scope_parse_def plain_text_def Let_def split: option.split sum.split prod.split
          del: strip_prefix.simps)
        auto
  next
    case False
    then have "length (trim s) \<noteq> length s"
      using trim_length_eq by blast
    then show ?thesis
      using False by (simp add: resource_scope_parse_def plain_text_def Let_def)
  qed
qed

lemma kind_cases:
  obtains k where "a = scheme k" "resource_kind_from_str a = Ok k"
  | e where "resource_kind_from_str a = Err e" "a \<notin> set (map scheme resource_kind_all)"
proof (cases "resource_kind_from_str a")
  case (Inl e)
  then have "a \<noteq> scheme k" for k
    using resource_kind_from_str_Ok_iff [of a k] by auto
  then show ?thesis
    using Inl that(2) by auto
next
  case (Inr k)
  then show ?thesis
    using that(1) resource_kind_from_str_Ok_iff by blast
qed

lemma parse_sound:
  assumes "resource_scope_parse s = Ok x"
  shows "s = resource_scope_display x \<and> resource_scope_ok x"
proof (cases "strip_prefix ''/'' s")
  case (Some path)
  then show ?thesis
    using assms unfolding parse_plain_iff
    by (auto simp: resource_scope_ok_def strip_prefix_Some_iff)
next
  case None
  then obtain a b where ab: "split_once ''://'' s = Some (a, b)" "a \<noteq> []" "plain_text s"
      "case resource_kind_from_str a of
         Inr kind \<Rightarrow> x = (if b = [] then EveryOfKind kind else One kind b)
       | Inl _ \<Rightarrow> b \<noteq> [] \<and> x = External a b"
    using assms unfolding parse_plain_iff by (auto split: option.splits)
  have s: "s = a @ ''://'' @ b" and first: "split_once ''://'' a = None"
    using ab(1) by (auto dest: split_once_SomeD split_once_first)
  have "hd a \<noteq> CHR ''/''"
    using None ab(2) s by (auto simp: not_slash simp del: strip_prefix.simps)
  then show ?thesis
    using ab(2-4) s first
    by (cases rule: kind_cases [of a]) (auto simp: resource_scope_ok_def split: if_splits)
qed

lemma parse_display:
  assumes "resource_scope_ok x"
  shows "resource_scope_parse (resource_scope_display x) = Ok x"
proof (cases x)
  case (EveryOfKind k)
  then show ?thesis
    using assms split_scheme [of k "[]"] scheme_not_slash [of k "''://''"] scheme_letters(2)
    unfolding parse_plain_iff
    by (simp add: resource_scope_ok_def resource_kind_from_str_Ok_iff [THEN iffD2] del: strip_prefix.simps)
next
  case (One k i)
  then show ?thesis
    using assms split_scheme [of k i] scheme_not_slash [of k "''://'' @ i"] scheme_letters(2)
    unfolding parse_plain_iff
    by (simp add: resource_scope_ok_def resource_kind_from_str_Ok_iff [THEN iffD2] del: strip_prefix.simps)
next
  case (Surface p)
  then show ?thesis
    using assms unfolding parse_plain_iff by (auto simp: resource_scope_ok_def)
next
  case (External a b)
  have split: "split_once ''://'' (a @ ''://'' @ b) = Some (a, b)"
    using assms External split_once_append [of "CHR '':''" "''//''" a b]
    by (simp add: resource_scope_ok_def)
  have "strip_prefix ''/'' (a @ ''://'' @ b) = None"
    using assms External by (auto simp: resource_scope_ok_def not_slash)
  then show ?thesis
    using assms External split
    unfolding parse_plain_iff
    by (cases rule: kind_cases [of a])
      (auto simp: resource_scope_ok_def resource_kind_all_complete simp del: strip_prefix.simps)
qed

section \<open>Properties\<close>

text \<open>
  C40: parsing and printing of resource scopes are inverse: a text parses to a scope exactly
  when it is the scope's own spelling and the scope has one.  No two texts name one scope,
  and no text names two.
\<close>

theorem resource_scope_parse_iff:
  "resource_scope_parse s = Ok x \<longleftrightarrow> s = resource_scope_display x \<and> resource_scope_ok x"
  using parse_sound parse_display by blast

text \<open>
  Of the scopes that can be written, \<^verbatim>\<open><kind>://\<close> covers itself and the single
  resources of that kind, and nothing else: no other kind, no HTTP surface, no external target.
\<close>

theorem every_of_kind_covers_iff:
  assumes "resource_scope_ok x"
  shows "covers (EveryOfKind k) x \<longleftrightarrow> x = EveryOfKind k \<or> (\<exists>i. x = One k i)"
proof -
  have lit: "CHR ''*'' \<notin> set (resource_scope_display x)" "CHR ''*'' \<notin> set (scheme k)"
    using assms scheme_letters(1) [of _ k] by (auto simp: resource_scope_ok_def plain_text_def)
  have cov: "covers (EveryOfKind k) x \<longleftrightarrow> (\<exists>rest. resource_scope_display x = scheme k @ ''://'' @ rest)"
    (is "_ = ?continues")
  proof
    assume "covers (EveryOfKind k) x"
    then show ?continues
      unfolding covers_def scope_within_iff by (metis append.assoc append_Nil2 resource_scope_display.simps(1))
  next
    assume ?continues
    then obtain rest where "resource_scope_display x = (scheme k @ ''://'') @ rest" by auto
    then show "covers (EveryOfKind k) x"
      using lit by (cases "rest = []") (auto simp: covers_def scope_within_iff)
  qed
  have other: "k' = k" if "scheme k' @ ''://'' @ a = scheme k @ ''://'' @ b" for k' a b
    using arg_cong [OF that, of "split_once ''://''"] unfolding split_scheme by (simp add: scheme_inj)
  show ?thesis
  proof (cases x)
    case (EveryOfKind k')
    then show ?thesis unfolding cov using other [of k' "[]"] by auto
  next
    case (One k' i)
    then show ?thesis unfolding cov using other [of k' i] by auto
  next
    case (Surface p)
    then have "strip_prefix ''/'' (resource_scope_display x) \<noteq> None"
      using assms by (auto simp: resource_scope_ok_def)
    then have "resource_scope_display x \<noteq> scheme k @ ''://'' @ rest" for rest
      using scheme_not_slash by metis
    then show ?thesis
      using cov Surface by simp
  next
    case (External a b)
    then have "split_once ''://'' (resource_scope_display x) = Some (a, b)" "a \<noteq> scheme k"
      using assms split_once_append [of "CHR '':''" "''//''" a b] resource_kind_all_complete [of k]
      by (auto simp: resource_scope_ok_def)
    then have "resource_scope_display x \<noteq> scheme k @ ''://'' @ rest" for rest
      using split_scheme [of k rest] by (metis option.inject prod.inject)
    then show ?thesis
      using cov External by simp
  qed
qed

theorem every_of_kind_covers_iff_witness:
  "resource_scope_ok (One Kind_Memory ''0198'') \<and>
   covers (EveryOfKind Kind_Memory) (One Kind_Memory ''0198'') \<and>
   \<not> covers (EveryOfKind Kind_Run) (One Kind_Memory ''0198'')"
proof -
  have ok: "resource_scope_ok (One Kind_Memory ''0198'')"
    by (simp add: resource_scope_ok_def plain_text_def trim_eval contains_white_space_def contains_str_def)
  show ?thesis
    using ok every_of_kind_covers_iff [OF ok, of Kind_Memory] every_of_kind_covers_iff [OF ok, of Kind_Run]
    by simp
qed

end
