(* ===== verification/Capability_Grants.thy ===== *)
theory Capability_Grants
  imports Resource_Scope
begin

text \<open>
  Capabilities, grants and authorization (\<^verbatim>\<open>security/mod.rs\<close>, \<^verbatim>\<open>security/capability.rs\<close>).
\<close>

section \<open>Capability\<close>

datatype capability =
    MemoryRead | MemoryWrite | MemoryPurge
  | EventRead | EventWrite | ContextRetrieve
  | AgentRead | AgentWrite | SkillRead
  | SkillWrite | WorkflowRead | WorkflowWrite
  | ExecutionRead | ExecutionWrite | ModelRead
  | ModelWrite | ProviderRead | ProviderWrite
  | EvaluationRead | EvaluationWrite | LearningRead
  | LearningWrite | AuditRead | ExportRead
  | EmbeddingRetryAfterUnknown | EmbeddingRetryCarriedTransitionBatchAfterUnknown | EmbeddingRetryRetrievalGenerationChanged
  | CapabilityDelegate | WorkspaceAdmin

fun capability_display :: "capability \<Rightarrow> string"
  where
    "capability_display MemoryRead = ''memory.read''"
  | "capability_display MemoryWrite = ''memory.write''"
  | "capability_display MemoryPurge = ''memory.purge''"
  | "capability_display EventRead = ''event.read''"
  | "capability_display EventWrite = ''event.write''"
  | "capability_display ContextRetrieve = ''context.retrieve''"
  | "capability_display AgentRead = ''agent.read''"
  | "capability_display AgentWrite = ''agent.write''"
  | "capability_display SkillRead = ''skill.read''"
  | "capability_display SkillWrite = ''skill.write''"
  | "capability_display WorkflowRead = ''workflow.read''"
  | "capability_display WorkflowWrite = ''workflow.write''"
  | "capability_display ExecutionRead = ''execution.read''"
  | "capability_display ExecutionWrite = ''execution.write''"
  | "capability_display ModelRead = ''model.read''"
  | "capability_display ModelWrite = ''model.write''"
  | "capability_display ProviderRead = ''provider.read''"
  | "capability_display ProviderWrite = ''provider.write''"
  | "capability_display EvaluationRead = ''evaluation.read''"
  | "capability_display EvaluationWrite = ''evaluation.write''"
  | "capability_display LearningRead = ''learning.read''"
  | "capability_display LearningWrite = ''learning.write''"
  | "capability_display AuditRead = ''audit.read''"
  | "capability_display ExportRead = ''export.read''"
  | "capability_display EmbeddingRetryAfterUnknown = ''embedding.retry_after_unknown''"
  | "capability_display EmbeddingRetryRetrievalGenerationChanged = ''embedding.retry_retrieval_generation_changed''"
  | "capability_display EmbeddingRetryCarriedTransitionBatchAfterUnknown = ''embedding.retry_carried_transition_batch_after_unknown''"
  | "capability_display CapabilityDelegate = ''capability.delegate''"
  | "capability_display WorkspaceAdmin = ''workspace.admin''"

text \<open>The arms of \<^verbatim>\<open>from_str\<close>, in their order.\<close>

definition capability_arms :: "(string \<times> capability) list"
  where "capability_arms =
    [(''memory.read'', MemoryRead),
     (''memory.write'', MemoryWrite),
     (''memory.purge'', MemoryPurge),
     (''event.read'', EventRead),
     (''event.write'', EventWrite),
     (''context.retrieve'', ContextRetrieve),
     (''agent.read'', AgentRead),
     (''agent.write'', AgentWrite),
     (''skill.read'', SkillRead),
     (''skill.write'', SkillWrite),
     (''workflow.read'', WorkflowRead),
     (''workflow.write'', WorkflowWrite),
     (''execution.read'', ExecutionRead),
     (''execution.write'', ExecutionWrite),
     (''model.read'', ModelRead),
     (''model.write'', ModelWrite),
     (''provider.read'', ProviderRead),
     (''provider.write'', ProviderWrite),
     (''evaluation.read'', EvaluationRead),
     (''evaluation.write'', EvaluationWrite),
     (''learning.read'', LearningRead),
     (''learning.write'', LearningWrite),
     (''audit.read'', AuditRead),
     (''export.read'', ExportRead),
     (''embedding.retry_after_unknown'', EmbeddingRetryAfterUnknown),
     (''embedding.retry_retrieval_generation_changed'', EmbeddingRetryRetrievalGenerationChanged),
     (''embedding.retry_carried_transition_batch_after_unknown'', EmbeddingRetryCarriedTransitionBatchAfterUnknown),
     (''capability.delegate'', CapabilityDelegate),
     (''workspace.admin'', WorkspaceAdmin)]"

definition capability_from_str :: "string \<Rightarrow> (domain_error, capability) result"
  where "capability_from_str s =
    ok_or (InvalidArgument (''unknown capability '' @ s)) (map_of capability_arms s)"

section \<open>RiskCategory\<close>

datatype risk_category = Risk_Low | Risk_Medium | Risk_High | Risk_Critical

fun risk_rank :: "risk_category \<Rightarrow> nat"
  where
    "risk_rank Risk_Low = 0"
  | "risk_rank Risk_Medium = 1"
  | "risk_rank Risk_High = 2"
  | "risk_rank Risk_Critical = 3"

lemma risk_rank_inj: "risk_rank a = risk_rank b \<longleftrightarrow> a = b"
  by (cases a; cases b) simp_all

instantiation risk_category :: linorder
begin

definition less_eq_risk_category :: "risk_category \<Rightarrow> risk_category \<Rightarrow> bool"
  where "less_eq_risk_category a b = (risk_rank a \<le> risk_rank b)"

definition less_risk_category :: "risk_category \<Rightarrow> risk_category \<Rightarrow> bool"
  where "less_risk_category a b = (risk_rank a < risk_rank b)"

instance
  by standard (auto simp: less_eq_risk_category_def less_risk_category_def risk_rank_inj)

end

section \<open>Grants\<close>

record budget_constraint =
  max_units :: u64

record grant_condition =
  gc_name :: string
  gc_expected_value :: string

definition grant_condition_new :: "string \<Rightarrow> string \<Rightarrow> (domain_error, grant_condition) result"
  where "grant_condition_new name expected_value =
    (if trim name = [] then Err (InvalidArgument ''grant condition name must not be empty'')
     else if trim expected_value = []
     then Err (InvalidArgument ''grant condition value must not be empty'')
     else Ok \<lparr> gc_name = name, gc_expected_value = expected_value \<rparr>)"

datatype capability_grant_status = Grant_Active | Grant_Revoked

record capability_grant_spec =
  sp_id :: uuid
  sp_workspace_id :: uuid
  sp_subject_id :: uuid
  sp_issuer_id :: uuid
  sp_capability :: capability
  sp_operation :: string
  sp_resource_scope :: string
  sp_valid_from :: timestamp
  sp_valid_until :: "timestamp option"
  sp_budget :: "budget_constraint option"
  sp_risk_ceiling :: risk_category
  sp_conditions :: "grant_condition list"

record capability_grant =
  cg_id :: uuid
  cg_workspace_id :: uuid
  cg_subject_id :: uuid
  cg_issuer_id :: uuid
  cg_capability :: capability
  cg_operation :: string
  cg_resource_scope :: string
  cg_valid_from :: timestamp
  cg_valid_until :: "timestamp option"
  cg_budget :: "budget_constraint option"
  cg_risk_ceiling :: risk_category
  cg_conditions :: "grant_condition list"
  cg_status :: capability_grant_status
  cg_created_at :: timestamp
  cg_revoked_at :: "timestamp option"

text \<open>The loop over the conditions.\<close>

fun check_conditions :: "grant_condition list \<Rightarrow> (domain_error, unit) result"
  where
    "check_conditions [] = Ok ()"
  | "check_conditions (c # cs) =
       (if trim (gc_name c) = []
        then Err (InvalidArgument ''capability grant condition name must not be empty'')
        else if trim (gc_expected_value c) = []
        then Err (InvalidArgument ''capability grant condition value must not be empty'')
        else check_conditions cs)"

definition issue :: "capability_grant_spec \<Rightarrow> timestamp \<Rightarrow> (domain_error, capability_grant) result"
  where "issue spec created_at =
    (if trim (sp_operation spec) = []
     then Err (InvalidArgument ''capability grant operation must not be empty'')
     else
       and_then (resource_scope_parse (sp_resource_scope spec)) (\<lambda>_.
       if (case sp_valid_until spec of Some valid_until \<Rightarrow> valid_until \<le> sp_valid_from spec | None \<Rightarrow> False)
       then Err (InvalidArgument ''capability grant valid_until must be after valid_from'')
       else
         and_then (check_conditions (sp_conditions spec)) (\<lambda>_.
         Ok \<lparr> cg_id = sp_id spec,
              cg_workspace_id = sp_workspace_id spec,
              cg_subject_id = sp_subject_id spec,
              cg_issuer_id = sp_issuer_id spec,
              cg_capability = sp_capability spec,
              cg_operation = sp_operation spec,
              cg_resource_scope = sp_resource_scope spec,
              cg_valid_from = sp_valid_from spec,
              cg_valid_until = sp_valid_until spec,
              cg_budget = sp_budget spec,
              cg_risk_ceiling = sp_risk_ceiling spec,
              cg_conditions = sp_conditions spec,
              cg_status = Grant_Active,
              cg_created_at = created_at,
              cg_revoked_at = None \<rparr>)))"

definition revoke :: "capability_grant \<Rightarrow> timestamp \<Rightarrow> (domain_error, capability_grant) result"
  where "revoke g at =
    (if cg_status g = Grant_Revoked
     then Err (PolicyViolation ''capability grant is already revoked'')
     else Ok (g\<lparr>cg_status := Grant_Revoked, cg_revoked_at := Some at\<rparr>))"

definition is_active_at :: "capability_grant \<Rightarrow> timestamp \<Rightarrow> bool"
  where "is_active_at g at =
    (cg_status g = Grant_Active \<and> cg_valid_from g \<le> at \<and>
     (case cg_valid_until g of Some until \<Rightarrow> at < until | None \<Rightarrow> True))"

record authorization_request =
  rq_capability :: capability
  rq_operation :: string
  rq_resource_scope :: string
  rq_requested_risk :: risk_category
  rq_context_risk :: risk_category
  rq_requested_budget_units :: u64
  rq_conditions :: "grant_condition list"

definition authorization_request_new ::
    "capability \<Rightarrow> string \<Rightarrow> string \<Rightarrow> risk_category \<Rightarrow> authorization_request"
  where "authorization_request_new capability operation resource_scope requested_risk =
    \<lparr> rq_capability = capability, rq_operation = operation, rq_resource_scope = resource_scope,
      rq_requested_risk = requested_risk, rq_context_risk = Risk_Low,
      rq_requested_budget_units = 0, rq_conditions = [] \<rparr>"

definition effective_risk :: "authorization_request \<Rightarrow> risk_category"
  where "effective_risk r = max (rq_requested_risk r) (rq_context_risk r)"

datatype policy_decision_result = Deny | Allow | PrepareOnly | RequireApproval

datatype policy_decision_reason =
    DefaultDeny | GrantMatched | ConfiguredAllowance | WorkspaceMismatch | SubjectMismatch
  | CapabilityMismatch | OperationMismatch | ResourceMismatch | NotYetValid | Expired | Revoked
  | BudgetExceeded | RiskExceedsCeiling | ConditionNotSatisfied

definition failure_reason ::
    "capability_grant \<Rightarrow> uuid \<Rightarrow> uuid \<Rightarrow> authorization_request \<Rightarrow> timestamp
     \<Rightarrow> policy_decision_reason option"
  where "failure_reason g workspace_id subject_id request at =
    (if cg_workspace_id g \<noteq> workspace_id then Some WorkspaceMismatch
     else if cg_subject_id g \<noteq> subject_id then Some SubjectMismatch
     else if cg_capability g \<noteq> rq_capability request then Some CapabilityMismatch
     else if \<not> selector_is_within (rq_operation request) (cg_operation g) then Some OperationMismatch
     else if \<not> scope_is_within (rq_resource_scope request) (cg_resource_scope g)
     then Some ResourceMismatch
     else if cg_status g = Grant_Revoked then Some Revoked
     else if at < cg_valid_from g then Some NotYetValid
     else if (case cg_valid_until g of Some until \<Rightarrow> until \<le> at | None \<Rightarrow> False) then Some Expired
     else if (case cg_budget g of Some b \<Rightarrow> rq_requested_budget_units request > max_units b
              | None \<Rightarrow> False) then Some BudgetExceeded
     else if effective_risk request > cg_risk_ceiling g then Some RiskExceedsCeiling
     else if \<not> list_all (\<lambda>expected. list_ex (\<lambda>actual. actual = expected) (rq_conditions request))
              (cg_conditions g)
     then Some ConditionNotSatisfied
     else None)"

section \<open>Policy decisions\<close>

record policy_input_state =
  pi_workspace_id :: uuid
  pi_subject_id :: uuid
  pi_capability :: capability
  pi_operation :: string
  pi_resource_scope :: string
  pi_requested_risk :: risk_category
  pi_context_risk :: risk_category
  pi_effective_risk :: risk_category
  pi_requested_budget_units :: u64
  pi_conditions :: "grant_condition list"

definition policy_input_state_from_request ::
    "uuid \<Rightarrow> uuid \<Rightarrow> authorization_request \<Rightarrow> policy_input_state"
  where "policy_input_state_from_request workspace_id subject_id r =
    \<lparr> pi_workspace_id = workspace_id, pi_subject_id = subject_id, pi_capability = rq_capability r,
      pi_operation = rq_operation r, pi_resource_scope = rq_resource_scope r,
      pi_requested_risk = rq_requested_risk r, pi_context_risk = rq_context_risk r,
      pi_effective_risk = effective_risk r,
      pi_requested_budget_units = rq_requested_budget_units r, pi_conditions = rq_conditions r \<rparr>"

record policy_decision =
  pd_id :: uuid
  pd_policy_id :: "uuid option"
  pd_policy_version :: string
  pd_workspace_id :: uuid
  pd_subject_id :: uuid
  pd_capability :: capability
  pd_operation :: string
  pd_resource_scope :: string
  pd_result :: policy_decision_result
  pd_reason :: policy_decision_reason
  pd_input_state :: policy_input_state
  pd_matched_grant_id :: "uuid option"
  pd_decided_at :: timestamp

definition is_allowed :: "policy_decision \<Rightarrow> bool"
  where "is_allowed d = (pd_result d = Allow)"

text \<open>
  The loop over the grants: the first one without a failure, or else the failure of the
  first grant.
\<close>

fun find_grant ::
    "uuid \<Rightarrow> uuid \<Rightarrow> authorization_request \<Rightarrow> timestamp \<Rightarrow> policy_decision_reason option
     \<Rightarrow> capability_grant list \<Rightarrow> policy_decision_result \<times> policy_decision_reason \<times> uuid option"
  where
    "find_grant workspace_id subject_id request at first_failure [] =
       (Deny, (case first_failure of Some r \<Rightarrow> r | None \<Rightarrow> DefaultDeny), None)"
  | "find_grant workspace_id subject_id request at first_failure (g # gs) =
       (if failure_reason g workspace_id subject_id request at = None
        then (Allow, GrantMatched, Some (cg_id g))
        else find_grant workspace_id subject_id request at
               (if first_failure = None then failure_reason g workspace_id subject_id request at
                else first_failure) gs)"

definition evaluate_capability_grants ::
    "uuid \<Rightarrow> uuid \<Rightarrow> uuid \<Rightarrow> string \<Rightarrow> authorization_request \<Rightarrow> capability_grant list \<Rightarrow> timestamp
     \<Rightarrow> (domain_error, policy_decision) result"
  where "evaluate_capability_grants decision_id workspace_id subject_id policy_version request grants
      decided_at =
    (if trim policy_version = [] then Err (InvalidArgument ''policy version must not be empty'')
     else if trim (rq_operation request) = []
     then Err (InvalidArgument ''authorization operation must not be empty'')
     else
       and_then (resource_scope_parse (rq_resource_scope request)) (\<lambda>_.
       let (result, reason, matched) =
             find_grant workspace_id subject_id request decided_at None grants
       in Ok \<lparr> pd_id = decision_id, pd_policy_id = None, pd_policy_version = policy_version,
               pd_workspace_id = workspace_id, pd_subject_id = subject_id,
               pd_capability = rq_capability request, pd_operation = rq_operation request,
               pd_resource_scope = rq_resource_scope request, pd_result = result,
               pd_reason = reason,
               pd_input_state = policy_input_state_from_request workspace_id subject_id request,
               pd_matched_grant_id = matched, pd_decided_at = decided_at \<rparr>))"

section \<open>Approvals and audit events\<close>

datatype approval_kind =
    HardPurge | PermissionChange | ProviderEnablement | RestrictedTransfer | Approve_ExportBundle

datatype approval_status =
    Approval_Requested | Approval_AwaitingApproval | Approval_Approved | Approval_Rejected
  | Approval_Expired

fun approval_status_debug :: "approval_status \<Rightarrow> string"
  where
    "approval_status_debug Approval_Requested = ''Requested''"
  | "approval_status_debug Approval_AwaitingApproval = ''AwaitingApproval''"
  | "approval_status_debug Approval_Approved = ''Approved''"
  | "approval_status_debug Approval_Rejected = ''Rejected''"
  | "approval_status_debug Approval_Expired = ''Expired''"

record approval_record =
  ap_id :: uuid
  ap_workspace_id :: uuid
  ap_requestor_id :: uuid
  ap_approver_id :: "uuid option"
  ap_kind :: approval_kind
  ap_status :: approval_status
  ap_reason :: string
  ap_operation_hash :: "string option"
  ap_expires_at :: "timestamp option"
  ap_created_at :: timestamp
  ap_updated_at :: timestamp

definition approval_record_new ::
    "uuid \<Rightarrow> uuid \<Rightarrow> uuid \<Rightarrow> approval_kind \<Rightarrow> string \<Rightarrow> timestamp \<Rightarrow> approval_record"
  where "approval_record_new aid workspace_id requestor_id kind reason at =
    \<lparr> ap_id = aid, ap_workspace_id = workspace_id, ap_requestor_id = requestor_id,
      ap_approver_id = None, ap_kind = kind, ap_status = Approval_Requested, ap_reason = reason,
      ap_operation_hash = None, ap_expires_at = None, ap_created_at = at, ap_updated_at = at \<rparr>"

definition approve ::
    "approval_record \<Rightarrow> uuid \<Rightarrow> string option \<Rightarrow> timestamp option \<Rightarrow> timestamp
     \<Rightarrow> (domain_error, approval_record) result"
  where "approve a approver_id operation_hash expires_at at =
    (if ap_status a \<noteq> Approval_Requested \<and> ap_status a \<noteq> Approval_AwaitingApproval
     then Err (PolicyViolation (''cannot approve record in status '' @ approval_status_debug (ap_status a)))
     else Ok (a\<lparr>ap_status := Approval_Approved, ap_approver_id := Some approver_id,
                ap_operation_hash := operation_hash, ap_expires_at := expires_at,
                ap_updated_at := at\<rparr>))"

definition reject ::
    "approval_record \<Rightarrow> uuid \<Rightarrow> timestamp \<Rightarrow> (domain_error, approval_record) result"
  where "reject a approver_id at =
    (if ap_status a \<noteq> Approval_Requested \<and> ap_status a \<noteq> Approval_AwaitingApproval
     then Err (PolicyViolation (''cannot reject record in status '' @ approval_status_debug (ap_status a)))
     else Ok (a\<lparr>ap_status := Approval_Rejected, ap_approver_id := Some approver_id,
                ap_updated_at := at\<rparr>))"

definition approval_is_valid :: "approval_record \<Rightarrow> timestamp \<Rightarrow> bool"
  where "approval_is_valid a at =
    (if ap_status a \<noteq> Approval_Approved then False
     else case ap_expires_at a of Some expires \<Rightarrow> at \<le> expires | None \<Rightarrow> True)"

definition approval_covers :: "approval_record \<Rightarrow> string \<Rightarrow> timestamp \<Rightarrow> bool"
  where "approval_covers a operation_hash at =
    (if \<not> approval_is_valid a at then False
     else case ap_operation_hash a of
       Some approved \<Rightarrow> trim approved \<noteq> [] \<and> approved = operation_hash
     | None \<Rightarrow> False)"

record 'json audit_event =
  au_id :: uuid
  au_workspace_id :: uuid
  au_principal_id :: uuid
  au_action :: string
  au_resource_type :: string
  au_resource_id :: uuid
  au_payload :: 'json
  au_created_at :: timestamp

definition audit_event_new ::
    "uuid \<Rightarrow> uuid \<Rightarrow> uuid \<Rightarrow> string \<Rightarrow> string \<Rightarrow> uuid \<Rightarrow> 'json \<Rightarrow> timestamp
     \<Rightarrow> (domain_error, 'json audit_event) result"
  where "audit_event_new eid workspace_id principal_id action resource_type resource_id payload at =
    (if trim action = [] then Err (InvalidArgument ''audit action must not be empty'')
     else if trim resource_type = []
     then Err (InvalidArgument ''audit resource_type must not be empty'')
     else Ok \<lparr> au_id = eid, au_workspace_id = workspace_id, au_principal_id = principal_id,
               au_action = action, au_resource_type = resource_type, au_resource_id = resource_id,
               au_payload = payload, au_created_at = at \<rparr>)"

section \<open>Names, proved\<close>

definition capability_parse :: "string \<Rightarrow> capability option"
  where "capability_parse s = (case capability_from_str s of Inl _ \<Rightarrow> None | Inr c \<Rightarrow> Some c)"

lemma capability_arms_display: "(s, c) \<in> set capability_arms \<Longrightarrow> s = capability_display c"
  by (auto simp: capability_arms_def)

lemma capability_arms_lookup: "map_of capability_arms (capability_display c) = Some c"
  by (cases c) (simp_all add: capability_arms_def)

interpretation capability_name: named_enum capability_display capability_parse
proof unfold_locales
  show "capability_parse (capability_display x) = Some x" for x
    by (simp add: capability_parse_def capability_from_str_def capability_arms_lookup)
  show "capability_parse s = Some x \<Longrightarrow> capability_display x = s" for s x
    by (auto simp: capability_parse_def capability_from_str_def ok_or_Ok_iff split: sum.splits
        dest!: map_of_SomeD dest: capability_arms_display)
qed

section \<open>Authorization, proved\<close>

text \<open>What it means that a grant authorizes a request, independent of the order of checks.\<close>

definition grant_authorizes ::
    "capability_grant \<Rightarrow> uuid \<Rightarrow> uuid \<Rightarrow> authorization_request \<Rightarrow> timestamp \<Rightarrow> bool"
  where "grant_authorizes g workspace_id subject_id request at \<longleftrightarrow>
    cg_workspace_id g = workspace_id \<and> cg_subject_id g = subject_id \<and>
    cg_capability g = rq_capability request \<and>
    selector_is_within (rq_operation request) (cg_operation g) \<and>
    scope_is_within (rq_resource_scope request) (cg_resource_scope g) \<and>
    is_active_at g at \<and>
    (\<forall>b. cg_budget g = Some b \<longrightarrow> rq_requested_budget_units request \<le> max_units b) \<and>
    rq_requested_risk request \<le> cg_risk_ceiling g \<and> rq_context_risk request \<le> cg_risk_ceiling g \<and>
    set (cg_conditions g) \<subseteq> set (rq_conditions request)"

lemma grant_status_cases: "cg_status g \<noteq> Grant_Revoked \<longleftrightarrow> cg_status g = Grant_Active"
  by (cases "cg_status g") simp_all

lemma failure_reason_None_iff:
  "failure_reason g workspace_id subject_id request at = None \<longleftrightarrow>
     grant_authorizes g workspace_id subject_id request at"
proof -
  have cond: "list_all (\<lambda>e. list_ex (\<lambda>a. a = e) (rq_conditions request)) (cg_conditions g) \<longleftrightarrow>
      set (cg_conditions g) \<subseteq> set (rq_conditions request)"
    by (auto simp: list_all_iff list_ex_iff)
  have risk: "\<not> effective_risk request > cg_risk_ceiling g \<longleftrightarrow>
      rq_requested_risk request \<le> cg_risk_ceiling g \<and> rq_context_risk request \<le> cg_risk_ceiling g"
    by (auto simp: effective_risk_def not_less)
  have "failure_reason g workspace_id subject_id request at = None \<longleftrightarrow>
    cg_workspace_id g = workspace_id \<and> cg_subject_id g = subject_id \<and>
    cg_capability g = rq_capability request \<and>
    selector_is_within (rq_operation request) (cg_operation g) \<and>
    scope_is_within (rq_resource_scope request) (cg_resource_scope g) \<and>
    cg_status g \<noteq> Grant_Revoked \<and> \<not> at < cg_valid_from g \<and>
    \<not> (case cg_valid_until g of Some until \<Rightarrow> until \<le> at | None \<Rightarrow> False) \<and>
    \<not> (case cg_budget g of Some b \<Rightarrow> rq_requested_budget_units request > max_units b | None \<Rightarrow> False) \<and>
    \<not> effective_risk request > cg_risk_ceiling g \<and>
    set (cg_conditions g) \<subseteq> set (rq_conditions request)"
    unfolding failure_reason_def cond by simp
  then show ?thesis
    unfolding risk grant_authorizes_def is_active_at_def grant_status_cases
    by (auto split: option.splits)
qed

text \<open>The loop returns the first grant that authorizes, or the reason of the first grant.\<close>

lemma find_grant_spec:
  "find_grant w s r at first grants =
     (case find (\<lambda>g. grant_authorizes g w s r at) grants of
        Some g \<Rightarrow> (Allow, GrantMatched, Some (cg_id g))
      | None \<Rightarrow> (Deny, (case first of Some f \<Rightarrow> f
                        | None \<Rightarrow> (case grants of [] \<Rightarrow> DefaultDeny
                                   | g # _ \<Rightarrow> the (failure_reason g w s r at))), None))"
proof (induction grants arbitrary: first)
  case Nil
  then show ?case by (simp split: option.split)
next
  case (Cons g gs)
  show ?case
  proof (cases "failure_reason g w s r at")
    case None
    then show ?thesis
      by (simp add: failure_reason_None_iff)
  next
    case (Some f)
    then have "\<not> grant_authorizes g w s r at"
      by (metis failure_reason_None_iff option.distinct(1))
    then show ?thesis
      using Some by (simp add: Cons.IH split: option.split)
  qed
qed

lemma evaluate_Ok_iff:
  "is_ok (evaluate_capability_grants i w s v r grants at) \<longleftrightarrow>
     trim v \<noteq> [] \<and> trim (rq_operation r) \<noteq> [] \<and> is_ok (resource_scope_parse (rq_resource_scope r))"
  by (auto simp: evaluate_capability_grants_def is_ok_iff and_then_Ok_iff Let_def split: prod.splits)

lemma evaluate_decision:
  assumes "evaluate_capability_grants i w s v r grants at = Ok d"
  shows "(pd_result d, pd_reason d, pd_matched_grant_id d) = find_grant w s r at None grants"
    and "pd_input_state d = policy_input_state_from_request w s r" and "pd_decided_at d = at"
  using assms
  by (auto simp: evaluate_capability_grants_def and_then_Ok_iff Let_def split: prod.splits if_splits)

lemma evaluate_allowed_iff:
  assumes "evaluate_capability_grants i w s v r grants at = Ok d"
  shows "is_allowed d \<longleftrightarrow> (\<exists>g\<in>set grants. grant_authorizes g w s r at)"
  using evaluate_decision(1) [OF assms]
  by (auto simp: find_grant_spec is_allowed_def find_None_iff find_Some_iff split: option.splits)

section \<open>Properties\<close>

text \<open>
  C21: the policy decision is exactly the authority of the grants.  A decision allows when some
  grant covers workspace, subject, capability, operation, resource, time, budget, risk and
  conditions of the request, and it then names the first such grant; otherwise it denies, names
  no grant, and gives the reason of the first grant, or the default denial when there is none.
  Either way it records the request it decided.
\<close>

theorem evaluate_is_grant_authority:
  assumes "evaluate_capability_grants decision workspace subject version request grants at = Ok d"
  shows "pd_input_state d = policy_input_state_from_request workspace subject request \<and>
    (case find (\<lambda>g. grant_authorizes g workspace subject request at) grants of
       Some g \<Rightarrow> is_allowed d \<and> pd_reason d = GrantMatched \<and> pd_matched_grant_id d = Some (cg_id g)
     | None \<Rightarrow> pd_result d = Deny \<and> pd_matched_grant_id d = None \<and>
         (case grants of
            [] \<Rightarrow> pd_reason d = DefaultDeny
          | g # _ \<Rightarrow> failure_reason g workspace subject request at = Some (pd_reason d)))"
proof (cases "find (\<lambda>g. grant_authorizes g workspace subject request at) grants")
  case None
  have "failure_reason g workspace subject request at \<noteq> None" if "g \<in> set grants" for g
    using None that by (auto simp: find_None_iff failure_reason_None_iff)
  then show ?thesis
    using evaluate_decision [OF assms] None
    by (auto simp: find_grant_spec split: list.splits)
next
  case (Some g)
  then show ?thesis
    using evaluate_decision [OF assms] by (simp add: find_grant_spec is_allowed_def)
qed

definition sample_grant :: capability_grant
  where "sample_grant =
    \<lparr> cg_id = 21, cg_workspace_id = 3, cg_subject_id = 4, cg_issuer_id = 5,
      cg_capability = MemoryWrite, cg_operation = ''memory.write'', cg_resource_scope = ''memory://'',
      cg_valid_from = 10, cg_valid_until = Some 20, cg_budget = Some \<lparr> max_units = 50 \<rparr>,
      cg_risk_ceiling = Risk_Medium, cg_conditions = [], cg_status = Grant_Active,
      cg_created_at = 9, cg_revoked_at = None \<rparr>"

definition sample_request :: authorization_request
  where "sample_request =
    \<lparr> rq_capability = MemoryWrite, rq_operation = ''memory.write.metadata'',
      rq_resource_scope = ''memory://0198'', rq_requested_risk = Risk_Low,
      rq_context_risk = Risk_Medium, rq_requested_budget_units = 50, rq_conditions = [] \<rparr>"

lemma sample_authorized: "grant_authorizes sample_grant 3 4 sample_request 15"
  by (simp add: grant_authorizes_def sample_grant_def sample_request_def is_active_at_def
      selector_is_within_def scope_is_within_def less_eq_risk_category_def)

lemma sample_scope_parses: "is_ok (resource_scope_parse ''memory://0198'')"
  by (simp add: resource_scope_parse_def trim_eval contains_white_space_def contains_str_def
      resource_kind_from_str_def resource_kind_all_def Let_def)

lemma sample_evaluates:
  "is_ok (evaluate_capability_grants 1 3 4 ''v1'' sample_request grants 15)"
  by (simp add: evaluate_Ok_iff sample_request_def sample_scope_parses) (simp add: trim_eval)

theorem evaluate_is_grant_authority_witness:
  "\<exists>d. evaluate_capability_grants 1 3 4 ''v1'' sample_request [sample_grant] 15 = Ok d \<and>
     is_allowed d \<and> pd_matched_grant_id d = Some 21"
proof -
  obtain d where d: "evaluate_capability_grants 1 3 4 ''v1'' sample_request [sample_grant] 15 = Ok d"
    using sample_evaluates by (auto simp: is_ok_iff)
  show ?thesis
    using evaluate_is_grant_authority [OF d] d by (simp add: sample_authorized) (simp add: sample_grant_def)
qed

text \<open>
  Revocation is final and complete.  Once a grant is revoked, decisions at every time,
  past or future, are those that would be made without the grant; and it cannot be revoked
  again or become active.
\<close>

theorem revoke_removes_authority:
  assumes "revoke g at = Ok g'"
    and "evaluate_capability_grants i w s v r (before @ g' # after) now = Ok d"
    and "evaluate_capability_grants j w s v' r (before @ after) now = Ok d'"
  shows "(is_allowed d \<longleftrightarrow> is_allowed d') \<and> \<not> is_active_at g' t \<and> \<not> is_ok (revoke g' t) \<and>
    cg_revoked_at g' = Some at"
proof -
  have g': "cg_status g' = Grant_Revoked" "cg_revoked_at g' = Some at"
    using assms(1) by (auto simp: revoke_def split: if_splits)
  then have "\<not> grant_authorizes g' w s r now"
    by (simp add: grant_authorizes_def is_active_at_def)
  then show ?thesis
    using g' by (auto simp: evaluate_allowed_iff [OF assms(2)] evaluate_allowed_iff [OF assms(3)]
        is_active_at_def revoke_def)
qed

theorem revoke_removes_authority_witness:
  "\<exists>g' d. revoke sample_grant 12 = Ok g' \<and>
     evaluate_capability_grants 1 3 4 ''v1'' sample_request [g'] 15 = Ok d \<and> \<not> is_allowed d"
proof -
  obtain g' where g': "revoke sample_grant 12 = Ok g'"
    by (simp add: revoke_def sample_grant_def)
  obtain d d' where d: "evaluate_capability_grants 1 3 4 ''v1'' sample_request ([] @ g' # []) 15 = Ok d"
      "evaluate_capability_grants 1 3 4 ''v1'' sample_request ([] @ []) 15 = Ok d'"
    using sample_evaluates by (meson is_ok_iff)
  have "\<not> is_allowed d'"
    using evaluate_allowed_iff [OF d(2)] by simp
  then show ?thesis
    using revoke_removes_authority [OF g' d(1) d(2)] g' d(1) by auto
qed

datatype approval_call =
    Call_Approve uuid "string option" "timestamp option" timestamp
  | Call_Reject uuid timestamp

fun approval_perform :: "approval_record \<Rightarrow> approval_call \<Rightarrow> (domain_error, approval_record) result"
  where
    "approval_perform a (Call_Approve who h expires at) = approve a who h expires at"
  | "approval_perform a (Call_Reject who at) = reject a who at"

lemma approval_decided_once:
  assumes "approval_perform a c = Ok b"
  shows "\<not> is_ok (approval_perform b c')"
  using assms by (cases c; cases c') (auto simp: approve_def reject_def split: if_splits)

text \<open>
  An approval covers one operation only.  Of all sequences of decisions on a new record, the
  only ones after which it covers an operation hash at a time are a single approval that named
  exactly that hash and has not expired.
\<close>

theorem approval_covers_what_was_approved:
  assumes "try_fold approval_perform (approval_record_new aid ws who kind reason at) calls = Ok a"
    and "approval_covers a h now"
  shows "\<exists>approver expires decided. calls = [Call_Approve approver (Some h) expires decided] \<and>
    trim h \<noteq> [] \<and> ap_approver_id a = Some approver \<and>
    (case expires of Some e \<Rightarrow> now \<le> e | None \<Rightarrow> True)"
proof (cases calls)
  case Nil
  then show ?thesis
    using assms by (auto simp: approval_record_new_def approval_covers_def approval_is_valid_def)
next
  case (Cons c cs)
  then obtain b where b: "approval_perform (approval_record_new aid ws who kind reason at) c = Ok b"
      "try_fold approval_perform b cs = Ok a"
    using assms(1) by (auto simp: and_then_Ok_iff)
  have "cs = []"
    using b(2) approval_decided_once [OF b(1)]
    by (cases cs) (auto simp: and_then_Ok_iff is_ok_iff)
  then show ?thesis
    using assms(2) b Cons
    by (cases c) (auto simp: approve_def reject_def approval_covers_def approval_is_valid_def
        split: if_splits option.splits)
qed

theorem approval_covers_what_was_approved_witness:
  "\<exists>a. try_fold approval_perform (approval_record_new 1 3 4 HardPurge ''cleanup'' 10)
     [Call_Approve 5 (Some ''purge-7'') (Some 20) 11] = Ok a \<and> approval_covers a ''purge-7'' 20 \<and>
     ap_approver_id a = Some 5"
proof -
  obtain a where a: "try_fold approval_perform (approval_record_new 1 3 4 HardPurge ''cleanup'' 10)
     [Call_Approve 5 (Some ''purge-7'') (Some 20) 11] = Ok a" "approval_covers a ''purge-7'' 20"
    by (simp add: approval_record_new_def approve_def approval_covers_def approval_is_valid_def trim_eval)
  show ?thesis
    using approval_covers_what_was_approved [OF a] a by auto
qed

end
