(* ===== verification/Effect_Outcome.thy ===== *)
theory Effect_Outcome
  imports Prelude
begin

text \<open>
  What may be learned about an external effect: the strength of an observation,
  ordered as the source declares it, and the outcome of a reconciliation
  (\<^verbatim>\<open>external_effects.rs\<close>).  Run events and external effects share them.
\<close>

datatype evidence_strength =
    ResponseDigest
  | MarkerSearch
  | ContentHash
  | EtagVersion
  | OperationStatus
  | ExternalResourceReadBack
  | ProviderIdempotencyLookup

text \<open>The derived \<^verbatim>\<open>Ord\<close>: the order of declaration.\<close>

fun evidence_rank :: "evidence_strength \<Rightarrow> nat"
  where
    "evidence_rank ResponseDigest = 0"
  | "evidence_rank MarkerSearch = 1"
  | "evidence_rank ContentHash = 2"
  | "evidence_rank EtagVersion = 3"
  | "evidence_rank OperationStatus = 4"
  | "evidence_rank ExternalResourceReadBack = 5"
  | "evidence_rank ProviderIdempotencyLookup = 6"

lemma evidence_rank_inj: "evidence_rank a = evidence_rank b \<longleftrightarrow> a = b"
  by (cases a; cases b) simp_all

instantiation evidence_strength :: linorder
begin

definition less_eq_evidence_strength :: "evidence_strength \<Rightarrow> evidence_strength \<Rightarrow> bool"
  where "less_eq_evidence_strength a b = (evidence_rank a \<le> evidence_rank b)"

definition less_evidence_strength :: "evidence_strength \<Rightarrow> evidence_strength \<Rightarrow> bool"
  where "less_evidence_strength a b = (evidence_rank a < evidence_rank b)"

instance
  by standard
    (auto simp: less_eq_evidence_strength_def less_evidence_strength_def evidence_rank_inj)

end

datatype reconciliation_outcome =
    Outcome_Confirmed
  | Outcome_NotApplied
  | Outcome_Inconclusive
  | Outcome_HumanRequired

definition reconciliation_outcome_is_settled :: "reconciliation_outcome \<Rightarrow> bool"
  where "reconciliation_outcome_is_settled r = (r \<in> {Outcome_Confirmed, Outcome_NotApplied})"

text \<open>The \<^verbatim>\<open>serde\<close> name of an outcome (\<^verbatim>\<open>rename_all = "snake_case"\<close>).\<close>

fun reconciliation_outcome_name :: "reconciliation_outcome \<Rightarrow> string"
  where
    "reconciliation_outcome_name Outcome_Confirmed = ''confirmed''"
  | "reconciliation_outcome_name Outcome_NotApplied = ''not_applied''"
  | "reconciliation_outcome_name Outcome_Inconclusive = ''inconclusive''"
  | "reconciliation_outcome_name Outcome_HumanRequired = ''human_required''"

definition reconciliation_outcome_settled_names :: "string list"
  where "reconciliation_outcome_settled_names =
    map reconciliation_outcome_name [Outcome_Confirmed, Outcome_NotApplied]"

text \<open>
  The names handed to the storage query select exactly the settled outcomes.
\<close>

lemma settled_names_complete:
  "reconciliation_outcome_name r \<in> set reconciliation_outcome_settled_names \<longleftrightarrow>
     reconciliation_outcome_is_settled r"
  by (cases r)
    (simp_all add: reconciliation_outcome_settled_names_def reconciliation_outcome_is_settled_def)

end
