(* ===== verification/External_Effects.thy ===== *)
theory External_Effects
  imports Capability_Grants Effect_Outcome
begin

text \<open>
  External effects (\<^verbatim>\<open>vestrace-domain/src/external_effects.rs\<close>): the immutable intent, the
  authorization it is checked against, the receipt of a dispatch, and the reconciliation of an
  effect with what was observed of it.  Identifiers that the code generates, and
  times, are arguments.  \<^verbatim>\<open>uuid\<close> is a parameter where its text form is parsed or rendered; a
  \<^verbatim>\<open>chrono::Duration\<close> is its number of nanoseconds.
\<close>

section \<open>Vocabulary\<close>

datatype delivery_semantics = AtMostOnce | AtLeastOnce | EffectivelyOnce | Delivery_Unknown

datatype idempotency_profile = Idempotency_None | ProviderKey | Conditional | Idempotency_Unknown

datatype effect_reversibility = Reversible | Compensatable | Irreversible | Reversibility_Unknown

datatype dry_run_mode = Native | Simulated | Unsupported

record effect_precondition =
  ep_name :: string
  ep_expected_value :: string

definition effect_precondition_new :: "string \<Rightarrow> string \<Rightarrow> (domain_error, effect_precondition) result"
  where "effect_precondition_new name expected_value =
    (if trim name = [] \<or> trim expected_value = []
     then Err (InvalidArgument ''external effect precondition requires name and expected value'')
     else Ok \<lparr> ep_name = name, ep_expected_value = expected_value \<rparr>)"

record external_effect_adapter_descriptor =
  ad_name :: string
  ad_dispatch_timeout :: "int option"
  ad_delivery_semantics :: delivery_semantics
  ad_idempotency_profile :: idempotency_profile
  ad_reversibility :: effect_reversibility
  ad_dry_run :: dry_run_mode
  ad_supports_reconciliation :: bool
  ad_supports_read_back :: bool
  ad_required_capability :: capability

definition adapter_descriptor_new ::
    "external_effect_adapter_descriptor \<Rightarrow> (domain_error, external_effect_adapter_descriptor) result"
  where "adapter_descriptor_new d =
    (if trim (ad_name d) = []
     then Err (InvalidArgument ''external effect adapter name must not be empty'')
     else if (case ad_dispatch_timeout d of Some timeout \<Rightarrow> timeout \<le> 0 | None \<Rightarrow> False)
     then Err (InvalidArgument ''external effect adapter dispatch timeout must be positive'')
     else Ok d)"

datatype adapter_contract_error =
    EffectivelyOnceRequiresProviderIdempotency
  | ReconciliationNotDeclared

definition validate_adapter_descriptor ::
    "external_effect_adapter_descriptor \<Rightarrow> (adapter_contract_error, unit) result"
  where "validate_adapter_descriptor d =
    (if ad_delivery_semantics d = EffectivelyOnce \<and> ad_idempotency_profile d \<notin> {ProviderKey, Conditional}
     then Err EffectivelyOnceRequiresProviderIdempotency
     else if \<not> ad_supports_reconciliation d then Err ReconciliationNotDeclared
     else Ok ())"

section \<open>Intents\<close>

definition validate_execution_ref :: "string \<Rightarrow> (domain_error, unit) result"
  where "validate_execution_ref execution_ref =
    and_then (map_err (\<lambda>e. InvalidArgument (''external effect execution reference is not a reference: ''
                @ domain_error_display e)) (resource_scope_parse execution_ref)) (\<lambda>scope.
    case scope of
      One Kind_Run _ \<Rightarrow> Ok ()
    | One Kind_Execution _ \<Rightarrow> Ok ()
    | EveryOfKind Kind_Workspace \<Rightarrow> Ok ()
    | other \<Rightarrow> Err (InvalidArgument (''external effect execution reference `'' @ resource_scope_display other
        @ ''` names no execution; it must be `run://<id>`, `execution://<id>`, or `workspace://` for an operator acting directly'')))"

record external_effect_intent =
  ei_id :: uuid
  ei_execution_ref :: string
  ei_workspace_id :: uuid
  ei_actor_id :: uuid
  ei_adapter :: string
  ei_operation :: string
  ei_target :: string
  ei_normalized_arguments_digest :: string
  ei_expected_effect :: string
  ei_preconditions :: "effect_precondition list"
  ei_precondition_digest :: string
  ei_risk :: risk_category
  ei_reversibility :: effect_reversibility
  ei_idempotency_profile :: idempotency_profile
  ei_delivery_semantics :: delivery_semantics
  ei_required_capability :: capability
  ei_budget_reservation_ref :: "string option"
  ei_policy_decision_ref :: "string option"
  ei_compensates_effect_id :: "uuid option"
  ei_created_at :: timestamp

text \<open>
  \<^verbatim>\<open>ExternalEffectIntent::new\<close>: the argument is the value to construct; the identifier is the one that
  \<^verbatim>\<open>ExternalEffectId::new\<close> generates.
\<close>

definition external_effect_intent_new ::
    "uuid \<Rightarrow> external_effect_intent \<Rightarrow> (domain_error, external_effect_intent) result"
  where "external_effect_intent_new fresh_id i =
    (if list_ex (\<lambda>value. trim value = [])
          [ei_execution_ref i, ei_adapter i, ei_operation i, ei_target i, ei_normalized_arguments_digest i,
           ei_expected_effect i, ei_precondition_digest i]
     then Err (InvalidArgument ''external effect intent requires execution, adapter, operation, target, digest and expected effect'')
     else
       and_then (validate_execution_ref (ei_execution_ref i)) (\<lambda>_.
       and_then (resource_scope_parse (ei_target i)) (\<lambda>_.
       if ei_preconditions i = []
       then Err (InvalidArgument ''external effect intent requires at least one precondition'')
       else Ok (i\<lparr>ei_id := fresh_id, ei_compensates_effect_id := None\<rparr>))))"

definition execution_run_id :: "(string \<Rightarrow> uuid option) \<Rightarrow> external_effect_intent \<Rightarrow> uuid option"
  where "execution_run_id parse_uuid i =
    (case resource_scope_parse (ei_execution_ref i) of
       Inr (One Kind_Run run_id) \<Rightarrow> parse_uuid run_id
     | _ \<Rightarrow> None)"

section \<open>Authorization\<close>

record effect_authorization =
  ea_allowed :: bool
  ea_decision_ref :: string
  ea_policy_version :: string
  ea_workspace_id :: uuid
  ea_actor_id :: uuid
  ea_capability :: capability
  ea_operation :: string
  ea_resource_scope :: string

definition from_policy_decision :: "(uuid \<Rightarrow> string) \<Rightarrow> policy_decision \<Rightarrow> effect_authorization"
  where "from_policy_decision show_uuid d =
    \<lparr> ea_allowed = is_allowed d, ea_decision_ref = show_uuid (pd_id d), ea_policy_version = pd_policy_version d,
      ea_workspace_id = pd_workspace_id d, ea_actor_id = pd_subject_id d, ea_capability = pd_capability d,
      ea_operation = pd_operation d, ea_resource_scope = pd_resource_scope d \<rparr>"

definition authorization_allow ::
    "string \<Rightarrow> string \<Rightarrow> uuid \<Rightarrow> uuid \<Rightarrow> capability \<Rightarrow> string \<Rightarrow> string \<Rightarrow> effect_authorization"
  where "authorization_allow decision_ref policy_version workspace_id actor_id capability operation resource_scope =
    \<lparr> ea_allowed = True, ea_decision_ref = decision_ref, ea_policy_version = policy_version,
      ea_workspace_id = workspace_id, ea_actor_id = actor_id, ea_capability = capability,
      ea_operation = operation, ea_resource_scope = resource_scope \<rparr>"

definition authorization_deny ::
    "string \<Rightarrow> string \<Rightarrow> uuid \<Rightarrow> uuid \<Rightarrow> capability \<Rightarrow> string \<Rightarrow> string \<Rightarrow> effect_authorization"
  where "authorization_deny decision_ref policy_version workspace_id actor_id capability operation resource_scope =
    (authorization_allow decision_ref policy_version workspace_id actor_id capability operation resource_scope)
      \<lparr>ea_allowed := False\<rparr>"

record authorized_external_effect =
  ae_intent :: external_effect_intent
  ae_authorization :: effect_authorization

definition intent_authorize ::
    "external_effect_intent \<Rightarrow> effect_authorization \<Rightarrow> (domain_error, authorized_external_effect) result"
  where "intent_authorize i a =
    (if \<not> ea_allowed a \<or> ea_workspace_id a \<noteq> ei_workspace_id i \<or> ea_actor_id a \<noteq> ei_actor_id i
        \<or> ea_capability a \<noteq> ei_required_capability i \<or> ea_operation a \<noteq> ei_operation i
        \<or> ea_resource_scope a \<noteq> ei_target i
        \<or> (case ei_policy_decision_ref i of Some expected \<Rightarrow> expected \<noteq> ea_decision_ref a | None \<Rightarrow> False)
     then Err (PolicyViolation ''external effect authorization does not match immutable intent'')
     else Ok \<lparr> ae_intent = i, ae_authorization = a \<rparr>)"

definition compensation_for ::
    "external_effect_intent \<Rightarrow> uuid \<Rightarrow> string \<Rightarrow> string \<Rightarrow> string \<Rightarrow> timestamp
     \<Rightarrow> (domain_error, external_effect_intent) result"
  where "compensation_for i fresh_id operation digest expected_effect created_at =
    (if ei_reversibility i \<noteq> Compensatable
     then Err (PolicyViolation ''effect is not declared compensatable'')
     else
       and_then (external_effect_intent_new fresh_id
         (i\<lparr>ei_operation := operation, ei_normalized_arguments_digest := digest,
            ei_expected_effect := expected_effect, ei_budget_reservation_ref := None,
            ei_policy_decision_ref := None, ei_created_at := created_at\<rparr>)) (\<lambda>compensation.
       Ok (compensation\<lparr>ei_compensates_effect_id := Some (ei_id i)\<rparr>)))"

section \<open>Dispatch and receipts\<close>

datatype adapter_error =
    Adapter_Timeout
  | Adapter_Unavailable string
  | Adapter_Rejected string

datatype adapter_outcome = Adapter_Acknowledged | Adapter_Failed | Adapter_Unknown

record adapter_dispatch_result =
  dr_outcome :: adapter_outcome
  dr_response_class :: string
  dr_external_resource_id :: "string option"
  dr_external_version :: "string option"
  dr_response_digest :: "string option"
  dr_evidence_refs :: "string list"

definition dispatch_result_new ::
    "adapter_outcome \<Rightarrow> string \<Rightarrow> string option \<Rightarrow> string option \<Rightarrow> string list \<Rightarrow> adapter_dispatch_result"
  where "dispatch_result_new outcome response_class external_resource_id response_digest evidence_refs =
    \<lparr> dr_outcome = outcome, dr_response_class = response_class,
      dr_external_resource_id = external_resource_id, dr_external_version = None,
      dr_response_digest = response_digest, dr_evidence_refs = evidence_refs \<rparr>"

definition result_acknowledged ::
    "string \<Rightarrow> string option \<Rightarrow> string option \<Rightarrow> string list \<Rightarrow> adapter_dispatch_result"
  where "result_acknowledged = dispatch_result_new Adapter_Acknowledged"

definition result_failed :: "string \<Rightarrow> string list \<Rightarrow> adapter_dispatch_result"
  where "result_failed response_class = dispatch_result_new Adapter_Failed response_class None None"

definition result_unknown :: "string \<Rightarrow> string list \<Rightarrow> adapter_dispatch_result"
  where "result_unknown response_class = dispatch_result_new Adapter_Unknown response_class None None"

datatype effect_lifecycle_status =
    Effect_Prepared | Effect_Authorized | Effect_Dispatching | Effect_Acknowledged
  | Effect_Failed | Effect_Unknown | Effect_Confirmed | Effect_Reconciling

fun effect_lifecycle_status_as_str :: "effect_lifecycle_status \<Rightarrow> string"
  where
    "effect_lifecycle_status_as_str Effect_Prepared = ''prepared''"
  | "effect_lifecycle_status_as_str Effect_Authorized = ''authorized''"
  | "effect_lifecycle_status_as_str Effect_Dispatching = ''dispatching''"
  | "effect_lifecycle_status_as_str Effect_Acknowledged = ''acknowledged''"
  | "effect_lifecycle_status_as_str Effect_Failed = ''failed''"
  | "effect_lifecycle_status_as_str Effect_Unknown = ''unknown''"
  | "effect_lifecycle_status_as_str Effect_Confirmed = ''confirmed''"
  | "effect_lifecycle_status_as_str Effect_Reconciling = ''reconciling''"

definition effect_lifecycle_status_all_names :: "string list"
  where "effect_lifecycle_status_all_names = map effect_lifecycle_status_as_str
    [Effect_Prepared, Effect_Authorized, Effect_Dispatching, Effect_Acknowledged, Effect_Failed,
     Effect_Unknown, Effect_Confirmed, Effect_Reconciling]"

datatype retry_decision = Retry_Allowed | DeniedUnknown | DeniedNotRetrySafe

datatype dispatch_error =
    StaleIntent
  | AdapterDoesNotMatchIntent
  | AdapterContractViolation adapter_contract_error
  | AdapterFailure adapter_error

record external_effect_receipt =
  rx_id :: uuid
  rx_effect_id :: uuid
  rx_adapter :: string
  rx_dispatched_at :: timestamp
  rx_acknowledgement_at :: "timestamp option"
  rx_response_class :: string
  rx_external_resource_id :: "string option"
  rx_external_version :: "string option"
  rx_response_digest :: "string option"
  rx_outcome_status :: effect_lifecycle_status
  rx_evidence_refs :: "string list"
  rx_recorded_at :: timestamp

definition marker_receipt :: "string \<Rightarrow> (uuid \<Rightarrow> string) \<Rightarrow> uuid \<Rightarrow> uuid \<Rightarrow> string \<Rightarrow> uuid \<Rightarrow> timestamp
    \<Rightarrow> external_effect_receipt"
  where "marker_receipt prefix show_uuid receipt_id effect_id adapter preparation_id recorded_at =
    \<lparr> rx_id = receipt_id, rx_effect_id = effect_id, rx_adapter = adapter, rx_dispatched_at = recorded_at,
      rx_acknowledgement_at = Some recorded_at, rx_response_class = ''http_200'',
      rx_external_resource_id = None, rx_external_version = None, rx_response_digest = None,
      rx_outcome_status = Effect_Acknowledged, rx_evidence_refs = [prefix @ show_uuid preparation_id],
      rx_recorded_at = recorded_at \<rparr>"

definition provider_result_acknowledged ::
    "(uuid \<Rightarrow> string) \<Rightarrow> uuid \<Rightarrow> uuid \<Rightarrow> string \<Rightarrow> uuid \<Rightarrow> timestamp \<Rightarrow> external_effect_receipt"
  where "provider_result_acknowledged = marker_receipt ''provider_result_preparation:''"

definition embedding_result_prepared_acknowledged ::
    "(uuid \<Rightarrow> string) \<Rightarrow> uuid \<Rightarrow> uuid \<Rightarrow> string \<Rightarrow> uuid \<Rightarrow> timestamp \<Rightarrow> external_effect_receipt"
  where "embedding_result_prepared_acknowledged = marker_receipt ''embedding_job_result_preparation:''"

definition from_dispatch ::
    "uuid \<Rightarrow> uuid \<Rightarrow> string \<Rightarrow> adapter_dispatch_result \<Rightarrow> timestamp \<Rightarrow> external_effect_receipt"
  where "from_dispatch fresh_id effect_id adapter result recorded_at =
    \<lparr> rx_id = fresh_id, rx_effect_id = effect_id, rx_adapter = adapter, rx_dispatched_at = recorded_at,
      rx_acknowledgement_at = (if dr_outcome result = Adapter_Acknowledged then Some recorded_at else None),
      rx_response_class = dr_response_class result, rx_external_resource_id = dr_external_resource_id result,
      rx_external_version = dr_external_version result, rx_response_digest = dr_response_digest result,
      rx_outcome_status = (case dr_outcome result of
          Adapter_Acknowledged \<Rightarrow> Effect_Acknowledged
        | Adapter_Failed \<Rightarrow> Effect_Failed
        | Adapter_Unknown \<Rightarrow> Effect_Unknown),
      rx_evidence_refs = dr_evidence_refs result, rx_recorded_at = recorded_at \<rparr>"

definition synthetic_unknown ::
    "uuid \<Rightarrow> uuid \<Rightarrow> string \<Rightarrow> timestamp \<Rightarrow> string list \<Rightarrow> (domain_error, external_effect_receipt) result"
  where "synthetic_unknown fresh_id effect_id adapter recorded_at evidence_refs =
    (if evidence_refs = [] then Err (InvalidArgument ''external effect receipt requires evidence'')
     else Ok (from_dispatch fresh_id effect_id adapter
            (result_unknown ''synthetic-unknown'' evidence_refs) recorded_at))"

definition requires_reconciliation :: "external_effect_receipt \<Rightarrow> bool"
  where "requires_reconciliation r = (rx_outcome_status r \<in> {Effect_Acknowledged, Effect_Unknown})"

definition receipt_retry_decision :: "external_effect_receipt \<Rightarrow> retry_decision"
  where "receipt_retry_decision r =
    (case rx_outcome_status r of
       Effect_Unknown \<Rightarrow> DeniedUnknown
     | Effect_Failed \<Rightarrow> DeniedNotRetrySafe
     | _ \<Rightarrow> Retry_Allowed)"

definition validate_dispatch ::
    "authorized_external_effect \<Rightarrow> external_effect_adapter_descriptor \<Rightarrow> string \<Rightarrow> (dispatch_error, unit) result"
  where "validate_dispatch e d current_precondition_digest =
    and_then (map_err AdapterContractViolation (validate_adapter_descriptor d)) (\<lambda>_.
    if ad_name d \<noteq> ei_adapter (ae_intent e)
       \<or> ad_delivery_semantics d \<noteq> ei_delivery_semantics (ae_intent e)
       \<or> ad_idempotency_profile d \<noteq> ei_idempotency_profile (ae_intent e)
       \<or> ad_reversibility d \<noteq> ei_reversibility (ae_intent e)
       \<or> ad_required_capability d \<noteq> ei_required_capability (ae_intent e)
    then Err AdapterDoesNotMatchIntent
    else if current_precondition_digest \<noteq> ei_precondition_digest (ae_intent e) then Err StaleIntent
    else Ok ())"

text \<open>
  \<^verbatim>\<open>AuthorizedExternalEffect::dispatch\<close>; \<open>reply\<close> is what the adapter returns for the intent, asked for only
  when the validation succeeds.
\<close>

definition effect_dispatch ::
    "authorized_external_effect \<Rightarrow> external_effect_adapter_descriptor
     \<Rightarrow> (external_effect_intent \<Rightarrow> (adapter_error, adapter_dispatch_result) result) \<Rightarrow> string \<Rightarrow> uuid \<Rightarrow> timestamp
     \<Rightarrow> (dispatch_error, external_effect_receipt) result"
  where "effect_dispatch e d reply current_precondition_digest fresh_id recorded_at =
    and_then (validate_dispatch e d current_precondition_digest) (\<lambda>_.
    and_then (map_err AdapterFailure (reply (ae_intent e))) (\<lambda>result.
    Ok (from_dispatch fresh_id (ei_id (ae_intent e)) (ei_adapter (ae_intent e)) result recorded_at)))"

section \<open>Reconciliation\<close>

record observed_effect_state =
  os_evidence_strength :: evidence_strength
  os_effect_applied :: "bool option"
  os_state_ref :: string
  os_evidence_refs :: "string list"

record external_reconciliation =
  xr_id :: uuid
  xr_effect_id :: uuid
  xr_receipt_id :: "uuid option"
  xr_evidence_strength :: evidence_strength
  xr_observed_state_ref :: string
  xr_outcome :: reconciliation_outcome
  xr_evidence_refs :: "string list"
  xr_reconciled_at :: timestamp

text \<open>\<^verbatim>\<open>Iterator::max_by_key\<close>: of several maximal elements the last.\<close>

definition max_by_key :: "('a \<Rightarrow> 'k::linorder) \<Rightarrow> 'a list \<Rightarrow> 'a option"
  where "max_by_key key xs =
    fold (\<lambda>y best. case best of None \<Rightarrow> Some y | Some x \<Rightarrow> if key x > key y then Some x else Some y) xs None"

definition reconcile_effect ::
    "uuid \<Rightarrow> external_effect_intent \<Rightarrow> external_effect_receipt option \<Rightarrow> observed_effect_state list \<Rightarrow> timestamp
     \<Rightarrow> (domain_error, external_reconciliation) result"
  where "reconcile_effect fresh_id i receipt observations reconciled_at =
    (if (case receipt of Some r \<Rightarrow> rx_effect_id r \<noteq> ei_id i | None \<Rightarrow> False)
     then Err (InvalidArgument ''receipt does not belong to external effect intent'')
     else case max_by_key os_evidence_strength observations of
       None \<Rightarrow> Err (InvalidArgument ''reconciliation requires at least one observation'')
     | Some observation \<Rightarrow>
         Ok \<lparr> xr_id = fresh_id, xr_effect_id = ei_id i, xr_receipt_id = map_option rx_id receipt,
              xr_evidence_strength = os_evidence_strength observation,
              xr_observed_state_ref = os_state_ref observation,
              xr_outcome = (case os_effect_applied observation of
                  Some True \<Rightarrow> Outcome_Confirmed
                | Some False \<Rightarrow> Outcome_NotApplied
                | None \<Rightarrow> Outcome_Inconclusive),
              xr_evidence_refs = os_evidence_refs observation, xr_reconciled_at = reconciled_at \<rparr>)"

section \<open>Fault points\<close>

datatype effect_fault_point =
    AfterIntentPersistence
  | AfterAuthorizationBeforeDispatch
  | AfterDispatchBeforeReceipt
  | AfterReceiptBeforeOutcomeConfirmation
  | AfterOutcomeBeforeRunCommit
  | AfterReserved
  | AfterVaultCreateBeforeReceipt
  | AfterReceiptBeforePrepared
  | AfterPreparedBeforeBound
  | AfterBoundBeforePromotion
  | AfterAbortBeforeWitnessedErase
  | AfterEraseReceiptBeforeTerminalAppend

definition required_points :: "effect_fault_point list"
  where "required_points =
    [AfterIntentPersistence, AfterAuthorizationBeforeDispatch, AfterDispatchBeforeReceipt,
     AfterReceiptBeforeOutcomeConfirmation, AfterOutcomeBeforeRunCommit]"

definition intent_points :: "effect_fault_point list"
  where "intent_points =
    [AfterReserved, AfterVaultCreateBeforeReceipt, AfterReceiptBeforePrepared, AfterPreparedBeforeBound,
     AfterBoundBeforePromotion, AfterAbortBeforeWitnessedErase, AfterEraseReceiptBeforeTerminalAppend]"

fun effect_fault_point_as_str :: "effect_fault_point \<Rightarrow> string"
  where
    "effect_fault_point_as_str AfterIntentPersistence = ''after_intent_persistence''"
  | "effect_fault_point_as_str AfterAuthorizationBeforeDispatch = ''after_authorization_before_dispatch''"
  | "effect_fault_point_as_str AfterDispatchBeforeReceipt = ''after_dispatch_before_receipt''"
  | "effect_fault_point_as_str AfterReceiptBeforeOutcomeConfirmation = ''after_receipt_before_outcome_confirmation''"
  | "effect_fault_point_as_str AfterOutcomeBeforeRunCommit = ''after_outcome_before_run_commit''"
  | "effect_fault_point_as_str AfterReserved = ''after_reserved''"
  | "effect_fault_point_as_str AfterVaultCreateBeforeReceipt = ''after_vault_create_before_receipt''"
  | "effect_fault_point_as_str AfterReceiptBeforePrepared = ''after_receipt_before_prepared''"
  | "effect_fault_point_as_str AfterPreparedBeforeBound = ''after_prepared_before_bound''"
  | "effect_fault_point_as_str AfterBoundBeforePromotion = ''after_bound_before_promotion''"
  | "effect_fault_point_as_str AfterAbortBeforeWitnessedErase = ''after_abort_before_witnessed_erase''"
  | "effect_fault_point_as_str AfterEraseReceiptBeforeTerminalAppend = ''after_erase_receipt_before_terminal_append''"

text \<open>\<^verbatim>\<open>{:?}\<close> of a point is the name of the variant; only required points are rendered.\<close>

fun required_point_debug :: "effect_fault_point \<Rightarrow> string"
  where
    "required_point_debug AfterIntentPersistence = ''AfterIntentPersistence''"
  | "required_point_debug AfterAuthorizationBeforeDispatch = ''AfterAuthorizationBeforeDispatch''"
  | "required_point_debug AfterDispatchBeforeReceipt = ''AfterDispatchBeforeReceipt''"
  | "required_point_debug AfterReceiptBeforeOutcomeConfirmation = ''AfterReceiptBeforeOutcomeConfirmation''"
  | "required_point_debug _ = ''AfterOutcomeBeforeRunCommit''"

record fault_observation =
  fo_point :: effect_fault_point
  fo_status :: effect_lifecycle_status
  fo_retry_attempted :: bool
  fo_reconciliation_started :: bool
  fo_receipt_persisted :: bool

text \<open>\<^verbatim>\<open>FaultObservation::expected\<close>; it panics (\<^const>\<open>None\<close>) on the points of key intents.\<close>

definition fault_expected :: "effect_fault_point \<Rightarrow> fault_observation option"
  where "fault_expected point =
    (case point of
       AfterIntentPersistence \<Rightarrow>
         Some \<lparr> fo_point = point, fo_status = Effect_Prepared, fo_retry_attempted = False,
                fo_reconciliation_started = False, fo_receipt_persisted = False \<rparr>
     | AfterAuthorizationBeforeDispatch \<Rightarrow>
         Some \<lparr> fo_point = point, fo_status = Effect_Authorized, fo_retry_attempted = False,
                fo_reconciliation_started = False, fo_receipt_persisted = False \<rparr>
     | AfterDispatchBeforeReceipt \<Rightarrow>
         Some \<lparr> fo_point = point, fo_status = Effect_Reconciling, fo_retry_attempted = False,
                fo_reconciliation_started = True, fo_receipt_persisted = False \<rparr>
     | AfterReceiptBeforeOutcomeConfirmation \<Rightarrow>
         Some \<lparr> fo_point = point, fo_status = Effect_Reconciling, fo_retry_attempted = False,
                fo_reconciliation_started = True, fo_receipt_persisted = True \<rparr>
     | AfterOutcomeBeforeRunCommit \<Rightarrow>
         Some \<lparr> fo_point = point, fo_status = Effect_Reconciling, fo_retry_attempted = False,
                fo_reconciliation_started = True, fo_receipt_persisted = True \<rparr>
     | _ \<Rightarrow> None)"

definition point_failures :: "fault_observation list \<Rightarrow> effect_fault_point \<Rightarrow> string list"
  where "point_failures observations point =
    (case filter (\<lambda>item. fo_point item = point) observations of
       [observed] \<Rightarrow>
         (if fo_retry_attempted observed
          then [''fault point '' @ required_point_debug point @ '' attempted unsafe retry''] else []) @
         (if point = AfterDispatchBeforeReceipt \<and> \<not> fo_reconciliation_started observed
          then [''lost-dispatch fault point must start reconciliation''] else []) @
         (if map_option fo_status (fault_expected point) \<noteq> Some (fo_status observed)
          then [''fault point '' @ required_point_debug point @ '' has incorrect lifecycle status''] else [])
     | _ \<Rightarrow> [''fault point '' @ required_point_debug point @ '' must have exactly one observation''])"

definition evaluate_fault_suite :: "fault_observation list \<Rightarrow> string list"
  where "evaluate_fault_suite observations = concat (map (point_failures observations) required_points)"

section \<open>Facts\<close>

lemma effect_status_inj:
  "effect_lifecycle_status_as_str a = effect_lifecycle_status_as_str b \<longleftrightarrow> a = b"
  by (cases a; cases b) simp_all

lemma effect_status_all_names:
  "set effect_lifecycle_status_all_names = range effect_lifecycle_status_as_str"
proof -
  have "s \<in> set [Effect_Prepared, Effect_Authorized, Effect_Dispatching, Effect_Acknowledged, Effect_Failed,
     Effect_Unknown, Effect_Confirmed, Effect_Reconciling]" for s
    by (cases s) simp_all
  then show ?thesis
    unfolding effect_lifecycle_status_all_names_def set_map by blast
qed

lemma intent_authorize_Ok_iff:
  "intent_authorize i a = Ok e \<longleftrightarrow>
     e = \<lparr> ae_intent = i, ae_authorization = a \<rparr> \<and> ea_allowed a \<and> ea_workspace_id a = ei_workspace_id i \<and>
     ea_actor_id a = ei_actor_id i \<and> ea_capability a = ei_required_capability i \<and>
     ea_operation a = ei_operation i \<and> ea_resource_scope a = ei_target i \<and>
     (\<forall>expected. ei_policy_decision_ref i = Some expected \<longrightarrow> expected = ea_decision_ref a)"
  by (auto simp: intent_authorize_def split: option.splits)

lemma validate_dispatch_Ok_iff:
  "validate_dispatch e d digest = Ok () \<longleftrightarrow>
     validate_adapter_descriptor d = Ok () \<and> ad_name d = ei_adapter (ae_intent e) \<and>
     ad_delivery_semantics d = ei_delivery_semantics (ae_intent e) \<and>
     ad_idempotency_profile d = ei_idempotency_profile (ae_intent e) \<and>
     ad_reversibility d = ei_reversibility (ae_intent e) \<and>
     ad_required_capability d = ei_required_capability (ae_intent e) \<and>
     digest = ei_precondition_digest (ae_intent e)"
  by (auto simp: validate_dispatch_def and_then_Ok_iff map_err_Ok_iff)

lemma receipt_of_dispatch [simp]:
  "rx_id (from_dispatch i e a r t) = i" "rx_effect_id (from_dispatch i e a r t) = e"
  "rx_recorded_at (from_dispatch i e a r t) = t"
  by (simp_all add: from_dispatch_def)

lemma max_by_key_snoc:
  "max_by_key key (xs @ [y]) =
     (case max_by_key key xs of None \<Rightarrow> Some y | Some x \<Rightarrow> if key x > key y then Some x else Some y)"
  by (simp add: max_by_key_def)

lemma max_by_key_None_iff: "max_by_key key xs = None \<longleftrightarrow> xs = []"
  by (cases xs rule: rev_cases) (simp_all add: max_by_key_def split: option.splits)

text \<open>The last element among those with the greatest key.\<close>

lemma max_by_key_SomeD:
  "max_by_key key xs = Some x \<Longrightarrow>
     \<exists>ys zs. xs = ys @ x # zs \<and> (\<forall>y\<in>set ys. key y \<le> key x) \<and> (\<forall>z\<in>set zs. key z < key x)"
proof (induction xs arbitrary: x rule: rev_induct)
  case Nil
  then show ?case by (simp add: max_by_key_def)
next
  case (snoc y xs)
  show ?case
  proof (cases "max_by_key key xs")
    case None
    then have "xs = []" "x = y"
      using snoc.prems by (simp_all add: max_by_key_snoc flip: max_by_key_None_iff [of key])
    then show ?thesis
      by (intro exI [of _ "[]"]) simp
  next
    case (Some b)
    then obtain ys zs where b: "xs = ys @ b # zs" "\<forall>y\<in>set ys. key y \<le> key b" "\<forall>z\<in>set zs. key z < key b"
      using snoc.IH by blast
    show ?thesis
    proof (cases "key b > key y")
      case True
      then have "x = b"
        using snoc.prems Some by (simp add: max_by_key_snoc)
      then show ?thesis
        using b True by (intro exI [of _ ys] exI [of _ "zs @ [y]"]) auto
    next
      case False
      then have "x = y"
        using snoc.prems Some by (simp add: max_by_key_snoc)
      then show ?thesis
        using b False by (intro exI [of _ xs] exI [of _ "[]"]) (auto intro: order_trans less_imp_le)
    qed
  qed
qed

end
