(* ===== verification/Run_Events.thy ===== *)
theory Run_Events
  imports Run_Aggregate Effect_Outcome
begin

text \<open>
  The event-sourced run: state, commands, events and errors
  (\<^verbatim>\<open>run/state.rs\<close>, \<^verbatim>\<open>run/command.rs\<close>, \<^verbatim>\<open>run/legacy_event.rs\<close>,
  \<^verbatim>\<open>run/error.rs\<close>), the decision function (\<^verbatim>\<open>run/decision.rs\<close>) and the
  reducer with replay (\<^verbatim>\<open>run/reducer.rs\<close>).
\<close>

section \<open>State\<close>

datatype run_actor = Actor_Principal uuid | Actor_System string

datatype run_completion =
    Completion_Succeeded "string option"
  | Completion_SucceededWithWarnings string "string list"
  | Completion_Partial string "string list"
  | Completion_Failed string string bool
  | Completion_Cancelled "string option"
  | Completion_Expired

datatype run_wait =
    Wait_Input uuid string
  | Wait_Approval uuid
  | Wait_Job uuid
  | Wait_Event string uuid
  | Wait_Timer timestamp

record run_step_state =
  ss_id :: uuid
  ss_kind :: string
  ss_label :: "string option"
  ss_status :: run_step_status
  ss_started_at :: timestamp
  ss_finished_at :: "timestamp option"

record run_state =
  rs_id :: uuid
  rs_workspace_id :: uuid
  rs_principal_id :: uuid
  rs_title :: string
  rs_status :: run_status
  rs_version :: run_version
  rs_active_step :: "run_step_state option"
  rs_wait :: "run_wait option"
  rs_completion :: "run_completion option"
  rs_created_at :: timestamp
  rs_started_at :: "timestamp option"
  rs_updated_at :: timestamp
  rs_finished_at :: "timestamp option"

section \<open>Commands and events\<close>

datatype run_command =
    Cmd_Create uuid string
  | Cmd_Prepare
  | Cmd_Start
  | Cmd_StartStep uuid string "string option"
  | Cmd_CompleteStep uuid "string list"
  | Cmd_FailStep uuid string string bool
  | Cmd_WaitForInput uuid string
  | Cmd_WaitForApproval uuid
  | Cmd_WaitForDependency uuid
  | Cmd_Approve uuid
  | Cmd_Resume
  | Cmd_Succeed "string option"
  | Cmd_SucceedWithWarnings string "string list"
  | Cmd_PartialComplete string "string list"
  | Cmd_Fail string string bool
  | Cmd_Cancel "string option"
  | Cmd_Pause
  | Cmd_Expire

record run_command_envelope =
  ce_command_id :: uuid
  ce_idempotency_key :: "string option"
  ce_workspace_id :: uuid
  ce_run_id :: uuid
  ce_actor :: run_actor
  ce_expected_version :: run_version
  ce_correlation_id :: uuid
  ce_issued_at :: timestamp
  ce_command :: run_command

datatype legacy_run_event =
    Ev_Created uuid string
  | Ev_Prepared
  | Ev_Started
  | Ev_StepStarted uuid string "string option"
  | Ev_StepSucceeded uuid "string list"
  | Ev_StepFailed uuid string string bool
  | Ev_WaitingForInput uuid string
  | Ev_WaitingForApproval uuid
  | Ev_WaitingForDependency uuid
  | Ev_ApprovalGranted uuid
  | Ev_Resumed
  | Ev_Succeeded "string option"
  | Ev_SucceededWithWarnings string "string list"
  | Ev_PartialCompleted string "string list"
  | Ev_Failed string string bool
  | Ev_Cancelled "string option"
  | Ev_Paused
  | Ev_Expired
  | Ev_ExternalEffectSettled uuid "uuid option" reconciliation_outcome evidence_strength

fun event_type :: "legacy_run_event \<Rightarrow> string"
  where
    "event_type (Ev_Created _ _) = ''run.created''"
  | "event_type Ev_Prepared = ''run.prepared''"
  | "event_type Ev_Started = ''run.started''"
  | "event_type (Ev_StepStarted _ _ _) = ''step.started''"
  | "event_type (Ev_StepSucceeded _ _) = ''step.succeeded''"
  | "event_type (Ev_StepFailed _ _ _ _) = ''step.failed''"
  | "event_type (Ev_WaitingForInput _ _) = ''run.waiting_for_input''"
  | "event_type (Ev_WaitingForApproval _) = ''run.waiting_for_approval''"
  | "event_type (Ev_WaitingForDependency _) = ''run.waiting_for_dependency''"
  | "event_type (Ev_ApprovalGranted _) = ''run.approval_granted''"
  | "event_type Ev_Resumed = ''run.resumed''"
  | "event_type (Ev_Succeeded _) = ''run.succeeded''"
  | "event_type (Ev_SucceededWithWarnings _ _) = ''run.succeeded_with_warnings''"
  | "event_type (Ev_PartialCompleted _ _) = ''run.partial_completed''"
  | "event_type (Ev_Failed _ _ _) = ''run.failed''"
  | "event_type (Ev_Cancelled _) = ''run.cancelled''"
  | "event_type Ev_Paused = ''run.paused''"
  | "event_type Ev_Expired = ''run.expired''"
  | "event_type (Ev_ExternalEffectSettled _ _ _ _) = ''run.external_effect_settled''"

definition event_version :: "legacy_run_event \<Rightarrow> u16"
  where "event_version _ = 1"

record pending_run_event =
  pe_event :: legacy_run_event
  pe_occurred_at :: timestamp

record legacy_run_event_envelope =
  ee_event_id :: uuid
  ee_workspace_id :: uuid
  ee_run_id :: uuid
  ee_sequence :: run_version
  ee_event_type :: string
  ee_event_version :: u16
  ee_actor :: run_actor
  ee_causation_id :: uuid
  ee_correlation_id :: uuid
  ee_payload :: legacy_run_event
  ee_occurred_at :: timestamp
  ee_recorded_at :: timestamp

section \<open>Errors\<close>

datatype run_decision_error =
    Dec_AlreadyExists
  | Dec_MissingState
  | Dec_VersionConflict run_version run_version
  | Dec_InvalidCommand string
  | Dec_InvalidTransition run_status

datatype run_reduce_error =
    Red_MissingCreatedEvent
  | Red_DuplicateCreatedEvent
  | Red_VersionOverflow
  | Red_SequenceMismatch run_version run_version
  | Red_WorkspaceMismatch uuid uuid
  | Red_RunMismatch uuid uuid
  | Red_EventTypeMismatch string string
  | Red_UnsupportedEventVersion string u16
  | Red_EventAfterTerminal run_status
  | Red_InvalidTransition run_status

datatype run_replay_error = Replay_Reduce run_reduce_error

section \<open>Decision (decision.rs)\<close>

definition required_text :: "string \<Rightarrow> string \<Rightarrow> (run_decision_error, string) result"
  where "required_text s field =
    (let v = trim s in
     if v = [] then Err (Dec_InvalidCommand (field @ '' is required'')) else Ok v)"

definition optional_text :: "string option \<Rightarrow> string option"
  where "optional_text v = option_filter (\<lambda>s. s \<noteq> []) (map_option trim v)"

definition require_active_step :: "run_state \<Rightarrow> uuid \<Rightarrow> (run_decision_error, unit) result"
  where "require_active_step s requested =
    and_then (ok_or (Dec_InvalidTransition (rs_status s)) (rs_active_step s)) (\<lambda>active.
    if ss_id active \<noteq> requested
    then Err (Dec_InvalidCommand ''step id does not match the active step'')
    else Ok ())"

definition one :: "legacy_run_event \<Rightarrow> run_command_envelope \<Rightarrow> pending_run_event list"
  where "one event command = [\<lparr>pe_event = event, pe_occurred_at = ce_issued_at command\<rparr>]"

definition invalid_transition :: "run_state \<Rightarrow> (run_decision_error, 'a) result"
  where "invalid_transition s = Err (Dec_InvalidTransition (rs_status s))"

text \<open>The \<^verbatim>\<open>match run_command\<close> of \<^verbatim>\<open>decide_existing\<close>, one equation per arm.\<close>

fun decide_event :: "run_state \<Rightarrow> run_command \<Rightarrow> (run_decision_error, legacy_run_event) result"
  where
    "decide_event s Cmd_Prepare =
       (if rs_status s = Run_Created then Ok Ev_Prepared else invalid_transition s)"
  | "decide_event s Cmd_Start =
       (if rs_status s = Run_Preparing then Ok Ev_Started else invalid_transition s)"
  | "decide_event s (Cmd_StartStep step_id kind label) =
       (if rs_status s = Run_Running \<and> rs_active_step s = None
        then and_then (required_text kind ''step kind'') (\<lambda>kind'.
             Ok (Ev_StepStarted step_id kind' (optional_text label)))
        else invalid_transition s)"
  | "decide_event s (Cmd_CompleteStep step_id output_references) =
       (if rs_status s = Run_Running
        then and_then (require_active_step s step_id) (\<lambda>_.
             Ok (Ev_StepSucceeded step_id output_references))
        else invalid_transition s)"
  | "decide_event s (Cmd_FailStep step_id code message retryable) =
       (if rs_status s = Run_Running
        then and_then (require_active_step s step_id) (\<lambda>_.
             and_then (required_text code ''step failure code'') (\<lambda>code'.
             and_then (required_text message ''step failure message'') (\<lambda>message'.
             Ok (Ev_StepFailed step_id code' message' retryable))))
        else invalid_transition s)"
  | "decide_event s (Cmd_WaitForInput request_id prompt) =
       (if rs_status s = Run_Running \<and> rs_active_step s = None
        then and_then (required_text prompt ''input prompt'') (\<lambda>prompt'.
             Ok (Ev_WaitingForInput request_id prompt'))
        else invalid_transition s)"
  | "decide_event s (Cmd_WaitForApproval approval_id) =
       (if rs_status s = Run_Running \<and> rs_active_step s = None
        then Ok (Ev_WaitingForApproval approval_id) else invalid_transition s)"
  | "decide_event s (Cmd_WaitForDependency dependency_run_id) =
       (if rs_status s = Run_Running \<and> rs_active_step s = None
        then Ok (Ev_WaitingForDependency dependency_run_id) else invalid_transition s)"
  | "decide_event s (Cmd_Approve approver_id) =
       (if rs_status s = Run_WaitingForApproval
        then Ok (Ev_ApprovalGranted approver_id) else invalid_transition s)"
  | "decide_event s Cmd_Resume =
       (if run_status_is_waiting (rs_status s) \<or> run_status_can_resume (rs_status s)
        then Ok Ev_Resumed else invalid_transition s)"
  | "decide_event s (Cmd_Succeed summary) =
       (if rs_status s = Run_Running \<and> rs_active_step s = None
        then Ok (Ev_Succeeded (optional_text summary)) else invalid_transition s)"
  | "decide_event s (Cmd_SucceedWithWarnings summary warnings) =
       (if rs_status s = Run_Running \<and> rs_active_step s = None
        then and_then (required_text summary ''summary'') (\<lambda>summary'.
             Ok (Ev_SucceededWithWarnings summary' warnings))
        else invalid_transition s)"
  | "decide_event s (Cmd_PartialComplete summary remaining_work) =
       (if rs_status s = Run_Running \<and> rs_active_step s = None
        then and_then (required_text summary ''summary'') (\<lambda>summary'.
             Ok (Ev_PartialCompleted summary' remaining_work))
        else invalid_transition s)"
  | "decide_event s (Cmd_Fail code message retryable) =
       and_then (required_text code ''run failure code'') (\<lambda>code'.
       and_then (required_text message ''run failure message'') (\<lambda>message'.
       Ok (Ev_Failed code' message' retryable)))"
  | "decide_event s (Cmd_Cancel reason) = Ok (Ev_Cancelled (optional_text reason))"
  | "decide_event s Cmd_Pause =
       (if run_status_can_pause (rs_status s) then Ok Ev_Paused else invalid_transition s)"
  | "decide_event s Cmd_Expire =
       (if run_status_is_waiting (rs_status s) then Ok Ev_Expired else invalid_transition s)"
  | "decide_event s (Cmd_Create _ _) = Err Dec_AlreadyExists"

definition decide_existing ::
    "run_state \<Rightarrow> run_command \<Rightarrow> run_command_envelope
     \<Rightarrow> (run_decision_error, pending_run_event list) result"
  where "decide_existing s command envelope =
    (if rs_workspace_id s \<noteq> ce_workspace_id envelope
     then Err (Dec_InvalidCommand ''command workspace does not match run'')
     else if rs_id s \<noteq> ce_run_id envelope
     then Err (Dec_InvalidCommand ''command run id does not match aggregate'')
     else if run_status_is_terminal (rs_status s) then invalid_transition s
     else and_then (decide_event s command) (\<lambda>event. Ok (one event envelope)))"

definition decide ::
    "run_state option \<Rightarrow> run_command_envelope \<Rightarrow> (run_decision_error, pending_run_event list) result"
  where "decide state command =
    (case ce_command command of
       Cmd_Create principal_id title \<Rightarrow>
         (if state \<noteq> None then Err Dec_AlreadyExists
          else if ce_expected_version command \<noteq> run_version_zero
          then Err (Dec_VersionConflict (ce_expected_version command) run_version_zero)
          else and_then (required_text title ''run title'') (\<lambda>title'.
               Ok (one (Ev_Created principal_id title') command)))
     | _ \<Rightarrow>
         (let actual_version = (case state of None \<Rightarrow> run_version_zero | Some s \<Rightarrow> rs_version s) in
          if ce_expected_version command \<noteq> actual_version
          then Err (Dec_VersionConflict (ce_expected_version command) actual_version)
          else case state of
                 None \<Rightarrow> Err Dec_MissingState
               | Some s \<Rightarrow> decide_existing s (ce_command command) command))"

section \<open>Reducer (reducer.rs)\<close>

definition active_step_matches :: "run_state \<Rightarrow> uuid \<Rightarrow> bool"
  where "active_step_matches s step_id =
    (case rs_active_step s of None \<Rightarrow> False | Some active \<Rightarrow> ss_id active = step_id)"

definition finish :: "run_state \<Rightarrow> run_status \<Rightarrow> run_completion \<Rightarrow> timestamp \<Rightarrow> run_state"
  where "finish s status completion at =
    s\<lparr>rs_status := status, rs_active_step := None, rs_wait := None,
      rs_completion := Some completion, rs_finished_at := Some at\<rparr>"

definition apply_first :: "legacy_run_event_envelope \<Rightarrow> (run_reduce_error, run_state) result"
  where "apply_first event =
    (case ee_payload event of
       Ev_Created principal_id title \<Rightarrow>
         Ok \<lparr> rs_id = ee_run_id event,
              rs_workspace_id = ee_workspace_id event,
              rs_principal_id = principal_id,
              rs_title = title,
              rs_status = Run_Created,
              rs_version = ee_sequence event,
              rs_active_step = None,
              rs_wait = None,
              rs_completion = None,
              rs_created_at = ee_occurred_at event,
              rs_started_at = None,
              rs_updated_at = ee_occurred_at event,
              rs_finished_at = None \<rparr>
     | _ \<Rightarrow> Err Red_MissingCreatedEvent)"

text \<open>
  The \<^verbatim>\<open>match &event.payload\<close> of \<^verbatim>\<open>apply_existing\<close> at time \<^verbatim>\<open>event.occurred_at\<close>;
  \<^const>\<open>None\<close> is the final arm, \<^verbatim>\<open>InvalidTransition\<close>.
\<close>

fun apply_payload :: "run_state \<Rightarrow> timestamp \<Rightarrow> legacy_run_event \<Rightarrow> run_state option"
  where
    "apply_payload s at Ev_Prepared =
       (if rs_status s = Run_Created then Some (s\<lparr>rs_status := Run_Preparing\<rparr>) else None)"
  | "apply_payload s at Ev_Started =
       (if rs_status s = Run_Preparing
        then Some (s\<lparr>rs_status := Run_Running, rs_started_at := Some at\<rparr>) else None)"
  | "apply_payload s at (Ev_StepStarted step_id kind label) =
       (if rs_status s = Run_Running \<and> rs_active_step s = None
        then Some (s\<lparr>rs_active_step := Some \<lparr> ss_id = step_id, ss_kind = kind, ss_label = label,
                       ss_status = Step_Running, ss_started_at = at, ss_finished_at = None \<rparr>\<rparr>)
        else None)"
  | "apply_payload s at (Ev_StepSucceeded step_id _) =
       (if rs_status s = Run_Running \<and> active_step_matches s step_id
        then Some (s\<lparr>rs_active_step := None\<rparr>) else None)"
  | "apply_payload s at (Ev_StepFailed step_id _ _ _) =
       (if rs_status s = Run_Running \<and> active_step_matches s step_id
        then Some (s\<lparr>rs_active_step := None\<rparr>) else None)"
  | "apply_payload s at (Ev_WaitingForInput request_id prompt) =
       (if rs_status s = Run_Running \<and> rs_active_step s = None
        then Some (s\<lparr>rs_status := Run_WaitingForInput,
                     rs_wait := Some (Wait_Input request_id prompt)\<rparr>)
        else None)"
  | "apply_payload s at (Ev_WaitingForApproval approval_id) =
       (if rs_status s = Run_Running \<and> rs_active_step s = None
        then Some (s\<lparr>rs_status := Run_WaitingForApproval,
                     rs_wait := Some (Wait_Approval approval_id)\<rparr>)
        else None)"
  | "apply_payload s at (Ev_WaitingForDependency dependency_run_id) =
       (if rs_status s = Run_Running \<and> rs_active_step s = None
        then Some (s\<lparr>rs_status := Run_WaitingForDependency,
                     rs_wait := Some (Wait_Event ''run.succeeded'' dependency_run_id)\<rparr>)
        else None)"
  | "apply_payload s at (Ev_ApprovalGranted _) =
       (if rs_status s = Run_WaitingForApproval
        then Some (s\<lparr>rs_status := Run_Running, rs_wait := None\<rparr>) else None)"
  | "apply_payload s at Ev_Resumed =
       (if run_status_is_waiting (rs_status s) \<or> run_status_can_resume (rs_status s)
        then Some (s\<lparr>rs_status := Run_Running, rs_wait := None\<rparr>) else None)"
  | "apply_payload s at (Ev_Succeeded summary) =
       (if rs_status s = Run_Running \<and> rs_active_step s = None
        then Some (finish s Run_Succeeded (Completion_Succeeded summary) at) else None)"
  | "apply_payload s at (Ev_SucceededWithWarnings summary warnings) =
       (if rs_status s = Run_Running \<and> rs_active_step s = None
        then Some (finish s Run_SucceededWithWarnings
                     (Completion_SucceededWithWarnings summary warnings) at)
        else None)"
  | "apply_payload s at (Ev_PartialCompleted summary remaining_work) =
       (if rs_status s = Run_Running \<and> rs_active_step s = None
        then Some (finish s Run_Partial (Completion_Partial summary remaining_work) at) else None)"
  | "apply_payload s at (Ev_Failed code message retryable) =
       Some (finish s Run_Failed (Completion_Failed code message retryable) at)"
  | "apply_payload s at (Ev_Cancelled reason) =
       Some (finish s Run_Cancelled (Completion_Cancelled reason) at)"
  | "apply_payload s at Ev_Paused =
       (if run_status_can_pause (rs_status s) then Some (s\<lparr>rs_status := Run_Paused\<rparr>) else None)"
  | "apply_payload s at Ev_Expired =
       (if run_status_is_waiting (rs_status s)
        then Some (finish s Run_Expired Completion_Expired at) else None)"
  | "apply_payload s at (Ev_ExternalEffectSettled _ _ _ _) = Some s"
  | "apply_payload s at (Ev_Created _ _) = None"

definition apply_existing ::
    "run_state \<Rightarrow> legacy_run_event_envelope \<Rightarrow> (run_reduce_error, run_state) result"
  where "apply_existing s event =
    (case ee_payload event of
       Ev_Created _ _ \<Rightarrow> Err Red_DuplicateCreatedEvent
     | payload \<Rightarrow>
         (case apply_payload s (ee_occurred_at event) payload of
            None \<Rightarrow> Err (Red_InvalidTransition (rs_status s))
          | Some s' \<Rightarrow>
              Ok (s'\<lparr>rs_version := ee_sequence event, rs_updated_at := ee_occurred_at event\<rparr>)))"

definition validate_envelope ::
    "run_state option \<Rightarrow> legacy_run_event_envelope \<Rightarrow> (run_reduce_error, unit) result"
  where "validate_envelope state event =
    (let expected_type = event_type (ee_payload event) in
     if ee_event_type event \<noteq> expected_type
     then Err (Red_EventTypeMismatch expected_type (ee_event_type event))
     else if ee_event_version event \<noteq> event_version (ee_payload event)
     then Err (Red_UnsupportedEventVersion (ee_event_type event) (ee_event_version event))
     else case state of
       None \<Rightarrow>
         (if ee_sequence event \<noteq> run_version_initial
          then Err (Red_SequenceMismatch run_version_initial (ee_sequence event))
          else Ok ())
     | Some s \<Rightarrow>
         (if rs_workspace_id s \<noteq> ee_workspace_id event
          then Err (Red_WorkspaceMismatch (rs_workspace_id s) (ee_workspace_id event))
          else if rs_id s \<noteq> ee_run_id event
          then Err (Red_RunMismatch (rs_id s) (ee_run_id event))
          else if run_status_is_terminal (rs_status s)
          then Err (Red_EventAfterTerminal (rs_status s))
          else and_then (map_err (\<lambda>_. Red_VersionOverflow) (run_version_next (rs_version s)))
            (\<lambda>expected.
               if ee_sequence event \<noteq> expected
               then Err (Red_SequenceMismatch expected (ee_sequence event))
               else Ok ())))"

definition apply_event ::
    "run_state option \<Rightarrow> legacy_run_event_envelope \<Rightarrow> (run_reduce_error, run_state) result"
  where "apply_event state event =
    and_then (validate_envelope state event) (\<lambda>_.
    case state of
      None \<Rightarrow> apply_first event
    | Some s \<Rightarrow> apply_existing s event)"

fun replay_from ::
    "run_state option \<Rightarrow> legacy_run_event_envelope list \<Rightarrow> (run_reduce_error, run_state option) result"
  where
    "replay_from state [] = Ok state"
  | "replay_from state (event # events) =
       and_then (apply_event state event) (\<lambda>s. replay_from (Some s) events)"

definition replay ::
    "legacy_run_event_envelope list \<Rightarrow> (run_replay_error, run_state option) result"
  where "replay events = map_err Replay_Reduce (replay_from None events)"

section \<open>Facts about the reducer\<close>

lemma validate_envelope_Ok_iff:
  "validate_envelope (Some s) e = Ok u \<longleftrightarrow>
     ee_event_type e = event_type (ee_payload e) \<and> ee_event_version e = event_version (ee_payload e) \<and>
     rs_workspace_id s = ee_workspace_id e \<and> rs_id s = ee_run_id e \<and>
     \<not> run_status_is_terminal (rs_status s) \<and> run_version_next (rs_version s) = Ok (ee_sequence e)"
  by (auto simp: validate_envelope_def Let_def and_then_Ok_iff map_err_Ok_iff split: if_splits)

lemma validate_envelope_None_Ok_iff:
  "validate_envelope None e = Ok u \<longleftrightarrow>
     ee_event_type e = event_type (ee_payload e) \<and> ee_event_version e = event_version (ee_payload e) \<and>
     ee_sequence e = run_version_initial"
  by (auto simp: validate_envelope_def Let_def)

lemma apply_existing_Ok_iff:
  "apply_existing s e = Ok s' \<longleftrightarrow>
     (\<exists>s1. apply_payload s (ee_occurred_at e) (ee_payload e) = Some s1 \<and>
       s' = s1\<lparr>rs_version := ee_sequence e, rs_updated_at := ee_occurred_at e\<rparr>)"
  by (cases "ee_payload e") (auto simp: apply_existing_def split: option.splits)

lemma apply_event_Some_Ok_iff:
  "apply_event (Some s) e = Ok s' \<longleftrightarrow>
     validate_envelope (Some s) e = Ok () \<and>
     (\<exists>s1. apply_payload s (ee_occurred_at e) (ee_payload e) = Some s1 \<and>
       s' = s1\<lparr>rs_version := ee_sequence e, rs_updated_at := ee_occurred_at e\<rparr>)"
  by (simp add: apply_event_def and_then_Ok_iff apply_existing_Ok_iff)

lemma apply_event_None_Ok_iff:
  "apply_event None e = Ok s' \<longleftrightarrow>
     validate_envelope None e = Ok () \<and> apply_first e = Ok s'"
  by (simp add: apply_event_def and_then_Ok_iff)

fun completion_status :: "run_completion \<Rightarrow> run_status"
  where
    "completion_status (Completion_Succeeded _) = Run_Succeeded"
  | "completion_status (Completion_SucceededWithWarnings _ _) = Run_SucceededWithWarnings"
  | "completion_status (Completion_Partial _ _) = Run_Partial"
  | "completion_status (Completion_Failed _ _ _) = Run_Failed"
  | "completion_status (Completion_Cancelled _) = Run_Cancelled"
  | "completion_status Completion_Expired = Run_Expired"

text \<open>The wait a status carries.\<close>

definition wait_fits :: "run_status \<Rightarrow> run_wait option \<Rightarrow> bool"
  where "wait_fits s w =
    (case w of
       None \<Rightarrow> \<not> run_status_is_waiting s
     | Some (Wait_Input _ _) \<Rightarrow> s \<in> {Run_WaitingForInput, Run_Paused}
     | Some (Wait_Approval _) \<Rightarrow> s \<in> {Run_WaitingForApproval, Run_Paused}
     | Some (Wait_Event t _) \<Rightarrow> t = ''run.succeeded'' \<and> s \<in> {Run_WaitingForDependency, Run_Paused}
     | Some _ \<Rightarrow> False)"

definition started_fits :: "run_status \<Rightarrow> timestamp option \<Rightarrow> bool"
  where "started_fits s t =
    (if s \<in> {Run_Created, Run_Preparing} then t = None
     else s \<in> {Run_Failed, Run_Cancelled} \<or> t \<noteq> None)"

definition step_fits :: "run_state \<Rightarrow> bool"
  where "step_fits s =
    (case rs_active_step s of
       None \<Rightarrow> True
     | Some a \<Rightarrow> rs_status s \<in> {Run_Running, Run_Paused} \<and> rs_wait s = None \<and>
                ss_status a = Step_Running \<and> ss_finished_at a = None)"

definition completion_fits :: "run_state \<Rightarrow> bool"
  where "completion_fits s =
    (map_option completion_status (rs_completion s) =
       (if run_status_is_terminal (rs_status s) then Some (rs_status s) else None) \<and>
     (rs_finished_at s \<noteq> None) = run_status_is_terminal (rs_status s))"


definition run_state_ok :: "run_state \<Rightarrow> bool"
  where "run_state_ok s =
    (version_value (rs_version s) \<noteq> 0 \<and>
     rs_status s \<noteq> Run_PausedPolicyChanged \<and>
     completion_fits s \<and>
     wait_fits (rs_status s) (rs_wait s) \<and>
     started_fits (rs_status s) (rs_started_at s) \<and>
     step_fits s)"

text \<open>The nine shapes a successful reduction has.\<close>

lemma apply_payload_shape:
  assumes "apply_payload s at e = Some s'"
  obtains
      (observed) "s' = s"
    | (prepared) "rs_status s = Run_Created" "s' = s\<lparr>rs_status := Run_Preparing\<rparr>"
    | (started) "rs_status s = Run_Preparing"
        "s' = s\<lparr>rs_status := Run_Running, rs_started_at := Some at\<rparr>"
    | (step_started) a where "rs_status s = Run_Running" "rs_active_step s = None"
        "ss_status a = Step_Running" "ss_finished_at a = None" "s' = s\<lparr>rs_active_step := Some a\<rparr>"
    | (step_ended) "rs_status s = Run_Running" "rs_active_step s \<noteq> None"
        "s' = s\<lparr>rs_active_step := None\<rparr>"
    | (waiting) st w where "rs_status s = Run_Running" "rs_active_step s = None"
        "run_status_is_waiting st" "wait_fits st (Some w)"
        "s' = s\<lparr>rs_status := st, rs_wait := Some w\<rparr>"
    | (resumed) "run_status_is_waiting (rs_status s) \<or> run_status_can_resume (rs_status s)"
        "s' = s\<lparr>rs_status := Run_Running, rs_wait := None\<rparr>"
    | (paused) "run_status_can_pause (rs_status s)" "s' = s\<lparr>rs_status := Run_Paused\<rparr>"
    | (finished) c where "s' = finish s (completion_status c) c at"
        "rs_status s = Run_Running \<and> rs_active_step s = None \<and> completion_status c \<noteq> Run_Expired
         \<or> completion_status c \<in> {Run_Failed, Run_Cancelled}
         \<or> completion_status c = Run_Expired \<and> run_status_is_waiting (rs_status s)"
proof (cases e)
  case (Ev_StepStarted i k l)
  let ?a = "\<lparr>ss_id = i, ss_kind = k, ss_label = l, ss_status = Step_Running,
    ss_started_at = at, ss_finished_at = None\<rparr>"
  have "rs_status s = Run_Running" "rs_active_step s = None"
    "s' = s\<lparr>rs_active_step := Some ?a\<rparr>"
    using assms Ev_StepStarted by (auto split: if_splits)
  then show ?thesis
    by (intro step_started [of ?a]) simp_all
next
  case (Ev_StepSucceeded i r)
  then have "rs_status s = Run_Running" "rs_active_step s \<noteq> None" "s' = s\<lparr>rs_active_step := None\<rparr>"
    using assms by (auto simp: active_step_matches_def split: if_splits option.splits)
  then show ?thesis by (rule step_ended)
next
  case (Ev_StepFailed i c m r)
  then have "rs_status s = Run_Running" "rs_active_step s \<noteq> None" "s' = s\<lparr>rs_active_step := None\<rparr>"
    using assms by (auto simp: active_step_matches_def split: if_splits option.splits)
  then show ?thesis by (rule step_ended)
next
  case (Ev_WaitingForInput i p)
  then have "rs_status s = Run_Running" "rs_active_step s = None"
    "s' = s\<lparr>rs_status := Run_WaitingForInput, rs_wait := Some (Wait_Input i p)\<rparr>"
    using assms by (auto split: if_splits option.splits)
  then show ?thesis by (intro waiting [of Run_WaitingForInput "Wait_Input i p"]) (simp_all add: wait_fits_def run_status_is_waiting_def)
next
  case (Ev_WaitingForApproval i)
  then have "rs_status s = Run_Running" "rs_active_step s = None"
    "s' = s\<lparr>rs_status := Run_WaitingForApproval, rs_wait := Some (Wait_Approval i)\<rparr>"
    using assms by (auto split: if_splits option.splits)
  then show ?thesis by (intro waiting [of Run_WaitingForApproval "Wait_Approval i"]) (simp_all add: wait_fits_def run_status_is_waiting_def)
next
  case (Ev_WaitingForDependency i)
  then have "rs_status s = Run_Running" "rs_active_step s = None"
    "s' = s\<lparr>rs_status := Run_WaitingForDependency, rs_wait := Some (Wait_Event ''run.succeeded'' i)\<rparr>"
    using assms by (auto split: if_splits option.splits)
  then show ?thesis by (intro waiting [of Run_WaitingForDependency "Wait_Event ''run.succeeded'' i"]) (simp_all add: wait_fits_def run_status_is_waiting_def)
next
  case (Ev_Succeeded x)
  then have "rs_status s = Run_Running" "rs_active_step s = None"
    "s' = finish s (completion_status (Completion_Succeeded x)) (Completion_Succeeded x) at"
    using assms by (auto split: if_splits option.splits)
  then show ?thesis by (intro finished [of "Completion_Succeeded x"]) simp_all
next
  case (Ev_SucceededWithWarnings x y)
  then have "rs_status s = Run_Running" "rs_active_step s = None"
    "s' = finish s (completion_status (Completion_SucceededWithWarnings x y)) (Completion_SucceededWithWarnings x y) at"
    using assms by (auto split: if_splits option.splits)
  then show ?thesis by (intro finished [of "Completion_SucceededWithWarnings x y"]) simp_all
next
  case (Ev_PartialCompleted x y)
  then have "rs_status s = Run_Running" "rs_active_step s = None"
    "s' = finish s (completion_status (Completion_Partial x y)) (Completion_Partial x y) at"
    using assms by (auto split: if_splits option.splits)
  then show ?thesis by (intro finished [of "Completion_Partial x y"]) simp_all
next
  case (Ev_Failed x y z)
  then have "s' = finish s (completion_status (Completion_Failed x y z)) (Completion_Failed x y z) at"
    using assms by (auto split: if_splits option.splits)
  then show ?thesis by (intro finished [of "Completion_Failed x y z"]) simp_all
next
  case (Ev_Cancelled x)
  then have "s' = finish s (completion_status (Completion_Cancelled x)) (Completion_Cancelled x) at"
    using assms by (auto split: if_splits option.splits)
  then show ?thesis by (intro finished [of "Completion_Cancelled x"]) simp_all
next
  case Ev_Expired
  then have "run_status_is_waiting (rs_status s)"
    "s' = finish s (completion_status Completion_Expired) Completion_Expired at"
    using assms by (auto split: if_splits option.splits)
  then show ?thesis by (intro finished [of "Completion_Expired"]) simp_all
next
  case Ev_Prepared
  then have "rs_status s = Run_Created" "s' = s\<lparr>rs_status := Run_Preparing\<rparr>"
    using assms by (auto split: if_splits option.splits)
  then show ?thesis by (rule prepared)
next
  case Ev_Started
  then have "rs_status s = Run_Preparing"
    "s' = s\<lparr>rs_status := Run_Running, rs_started_at := Some at\<rparr>"
    using assms by (auto split: if_splits option.splits)
  then show ?thesis by (rule started)
next
  case (Ev_ApprovalGranted i)
  then have "run_status_is_waiting (rs_status s) \<or> run_status_can_resume (rs_status s)"
    "s' = s\<lparr>rs_status := Run_Running, rs_wait := None\<rparr>"
    using assms by (auto simp: run_status_is_waiting_def split: if_splits option.splits)
  then show ?thesis by (rule resumed)
next
  case Ev_Resumed
  then have "run_status_is_waiting (rs_status s) \<or> run_status_can_resume (rs_status s)"
    "s' = s\<lparr>rs_status := Run_Running, rs_wait := None\<rparr>"
    using assms by (auto split: if_splits option.splits)
  then show ?thesis by (rule resumed)
next
  case Ev_Paused
  then have "run_status_can_pause (rs_status s)" "s' = s\<lparr>rs_status := Run_Paused\<rparr>"
    using assms by (auto split: if_splits option.splits)
  then show ?thesis by (rule paused)
next
  case (Ev_ExternalEffectSettled i r oc v)
  then have "s' = s"
    using assms by (auto split: if_splits option.splits)
  then show ?thesis by (rule observed)
next
  case (Ev_Created i r)
  then have False
    using assms by (auto split: if_splits option.splits)
  then show ?thesis by simp
qed

lemma completion_status_terminal [simp]: "run_status_is_terminal (completion_status c)"
  by (cases c) (simp_all add: run_status_is_terminal_def)

lemma finish_simps [simp]:
  "rs_status (finish s st c at) = st"
  "rs_wait (finish s st c at) = None"
  "rs_active_step (finish s st c at) = None"
  "rs_completion (finish s st c at) = Some c"
  "rs_finished_at (finish s st c at) = Some at"
  "rs_started_at (finish s st c at) = rs_started_at s"
  "rs_id (finish s st c at) = rs_id s"
  "rs_workspace_id (finish s st c at) = rs_workspace_id s"
  by (simp_all add: finish_def)

lemma apply_payload_completion:
  assumes "apply_payload s at e = Some s'" "completion_fits s"
    "\<not> run_status_is_terminal (rs_status s)"
  shows "completion_fits s'"
  using assms(1)
proof (cases rule: apply_payload_shape)
  case (waiting st w)
  then show ?thesis
    using assms(2) by (auto simp: completion_fits_def run_status_flags)
next
  case (finished c)
  then show ?thesis by (simp add: completion_fits_def)
qed (use assms(2,3) in \<open>simp_all add: completion_fits_def run_status_is_terminal_def\<close>)

lemma apply_payload_wait:
  assumes "apply_payload s at e = Some s'" "wait_fits (rs_status s) (rs_wait s)"
  shows "wait_fits (rs_status s') (rs_wait s')"
  using assms(1)
proof (cases rule: apply_payload_shape)
  case (finished c)
  then show ?thesis
    by (cases c) (simp_all add: wait_fits_def run_status_is_waiting_def)
qed (use assms(2) in \<open>auto simp: wait_fits_def run_status_flags
      split: option.splits run_wait.splits\<close>)

lemma apply_payload_started:
  assumes "apply_payload s at e = Some s'" "started_fits (rs_status s) (rs_started_at s)"
  shows "started_fits (rs_status s') (rs_started_at s')"
  using assms(1)
proof (cases rule: apply_payload_shape)
  case (finished c)
  then show ?thesis
    using assms(2) by (cases c) (auto simp: started_fits_def run_status_is_waiting_def)
qed (use assms(2) in \<open>auto simp: started_fits_def run_status_flags\<close>)

lemma apply_payload_step:
  assumes "apply_payload s at e = Some s'" "wait_fits (rs_status s) (rs_wait s)" "step_fits s"
  shows "step_fits s'"
  using assms(1)
proof (cases rule: apply_payload_shape)
  case (finished c)
  then show ?thesis by (simp add: step_fits_def)
next
  case (step_started a)
  then have "rs_wait s = None"
    using assms(2) by (auto simp: wait_fits_def split: option.splits run_wait.splits)
  then show ?thesis
    using step_started by (simp add: step_fits_def)
qed (use assms(3) in \<open>auto simp: step_fits_def run_status_flags split: option.splits\<close>)


lemma apply_payload_policy_pause:
  assumes "apply_payload s at e = Some s'" "rs_status s \<noteq> Run_PausedPolicyChanged"
  shows "rs_status s' \<noteq> Run_PausedPolicyChanged"
  using assms(1)
proof (cases rule: apply_payload_shape)
  case (finished c)
  then show ?thesis by (cases c) simp_all
qed (use assms(2) in \<open>auto simp: run_status_flags\<close>)

lemma apply_payload_identity:
  assumes "apply_payload s at e = Some s'"
  shows "rs_id s' = rs_id s" "rs_workspace_id s' = rs_workspace_id s"
  using assms by (cases rule: apply_payload_shape; simp)+

lemma fits_bookkeeping [simp]:
  "completion_fits (s\<lparr>rs_version := v, rs_updated_at := u\<rparr>) = completion_fits s"
  "step_fits (s\<lparr>rs_version := v, rs_updated_at := u\<rparr>) = step_fits s"
  by (simp_all add: completion_fits_def step_fits_def split: option.split)

lemma apply_event_ok:
  assumes "run_state_ok s" "apply_event (Some s) e = Ok s'"
  shows "run_state_ok s'"
    and "unat (version_value (rs_version s')) = Suc (unat (version_value (rs_version s)))"
    and "rs_id s' = rs_id s \<and> rs_workspace_id s' = rs_workspace_id s"
    and "ee_run_id e = rs_id s \<and> ee_workspace_id e = rs_workspace_id s \<and> ee_sequence e = rs_version s'"
proof -
  obtain s1 where val: "validate_envelope (Some s) e = Ok ()"
    and s1: "apply_payload s (ee_occurred_at e) (ee_payload e) = Some s1"
    and s': "s' = s1\<lparr>rs_version := ee_sequence e, rs_updated_at := ee_occurred_at e\<rparr>"
    using assms(2) by (auto simp: apply_event_Some_Ok_iff)
  have nxt: "run_version_next (rs_version s) = Ok (ee_sequence e)"
    and live: "\<not> run_status_is_terminal (rs_status s)"
    and ids: "rs_workspace_id s = ee_workspace_id e" "rs_id s = ee_run_id e"
    using val by (auto simp: validate_envelope_Ok_iff)
  show "run_state_ok s'"
    using assms(1) s' next_version_nonzero [OF nxt] apply_payload_completion [OF s1 _ live]
      apply_payload_wait [OF s1] apply_payload_started [OF s1] apply_payload_step [OF s1]
      apply_payload_policy_pause [OF s1]
    by (simp add: run_state_ok_def)
  show "unat (version_value (rs_version s')) = Suc (unat (version_value (rs_version s)))"
    using nxt s' by (simp add: run_version_next_Ok_iff)
  show "rs_id s' = rs_id s \<and> rs_workspace_id s' = rs_workspace_id s"
    using apply_payload_identity [OF s1] s' by simp
  show "ee_run_id e = rs_id s \<and> ee_workspace_id e = rs_workspace_id s \<and> ee_sequence e = rs_version s'"
    using ids s' by simp
qed

definition first_state :: "legacy_run_event_envelope \<Rightarrow> uuid \<Rightarrow> string \<Rightarrow> run_state"
  where "first_state e principal_id title =
    \<lparr> rs_id = ee_run_id e, rs_workspace_id = ee_workspace_id e, rs_principal_id = principal_id,
      rs_title = title, rs_status = Run_Created, rs_version = ee_sequence e,
      rs_active_step = None, rs_wait = None, rs_completion = None,
      rs_created_at = ee_occurred_at e, rs_started_at = None,
      rs_updated_at = ee_occurred_at e, rs_finished_at = None \<rparr>"

lemma apply_first_Ok_iff:
  "apply_first e = Ok s \<longleftrightarrow>
     (\<exists>principal title. ee_payload e = Ev_Created principal title \<and> s = first_state e principal title)"
  by (cases "ee_payload e") (auto simp: apply_first_def first_state_def)

lemma apply_first_ok:
  assumes "apply_event None e = Ok s"
  shows "run_state_ok s" "rs_version s = run_version_initial" "rs_status s = Run_Created"
    and "ee_run_id e = rs_id s \<and> ee_workspace_id e = rs_workspace_id s"
    and "\<exists>principal title. ee_payload e = Ev_Created principal title"
proof -
  obtain principal title where e: "ee_payload e = Ev_Created principal title"
    and s: "s = first_state e principal title" and v: "ee_sequence e = run_version_initial"
    using assms
    by (auto simp: apply_event_None_Ok_iff validate_envelope_None_Ok_iff apply_first_Ok_iff)
  show "run_state_ok s"
    by (simp add: s v first_state_def run_state_ok_def completion_fits_def wait_fits_def
        started_fits_def step_fits_def run_status_flags run_version_initial_def)
  show "rs_version s = run_version_initial" "rs_status s = Run_Created"
    "ee_run_id e = rs_id s \<and> ee_workspace_id e = rs_workspace_id s"
    by (simp_all add: s v first_state_def)
  show "\<exists>principal title. ee_payload e = Ev_Created principal title"
    using e by blast
qed

text \<open>The reducer as a log: the states before and after the first event together.\<close>

definition log_step ::
    "run_state option \<Rightarrow> legacy_run_event_envelope \<Rightarrow> (run_reduce_error, run_state option) result"
  where "log_step st e = and_then (apply_event st e) (\<lambda>s. Ok (Some s))"

definition log_ok :: "run_state option \<Rightarrow> bool"
  where "log_ok st = (case st of None \<Rightarrow> True | Some s \<Rightarrow> run_state_ok s)"

definition log_version :: "run_state option \<Rightarrow> nat"
  where "log_version st = (case st of None \<Rightarrow> 0 | Some s \<Rightarrow> unat (version_value (rs_version s)))"

lemma replay_from_try_fold: "replay_from st es = try_fold log_step st es"
  by (induction es arbitrary: st) (simp_all add: log_step_def and_then_assoc)

interpretation run_log: event_log log_step log_ok log_version
proof unfold_locales
  fix st e st'
  assume ok: "log_ok st" and step: "log_step st e = Ok st'"
  then obtain s' where s': "apply_event st e = Ok s'" "st' = Some s'"
    by (auto simp: log_step_def and_then_Ok_iff)
  show "log_ok st'"
    using ok s' apply_event_ok(1) apply_first_ok(1) by (cases st) (auto simp: log_ok_def)
  show "log_version st' = Suc (log_version st)"
    using ok s' apply_event_ok(2) apply_first_ok(2)
    by (cases st) (auto simp: log_ok_def log_version_def run_version_initial_def)
qed

lemma replay_from_append:
  "replay_from st (es @ fs) = and_then (replay_from st es) (\<lambda>st'. replay_from st' fs)"
  by (simp add: replay_from_try_fold try_fold_append)

lemma replay_Ok_iff: "replay es = Ok st \<longleftrightarrow> replay_from None es = Ok st"
  by (simp add: replay_def map_err_Ok_iff)

lemma replay_from_identity:
  "replay_from (Some s) es = Ok (Some s') \<Longrightarrow> run_state_ok s \<Longrightarrow>
     rs_id s' = rs_id s \<and> rs_workspace_id s' = rs_workspace_id s \<and>
     (\<forall>e\<in>set es. ee_run_id e = rs_id s \<and> ee_workspace_id e = rs_workspace_id s)"
proof (induction es arbitrary: s)
  case Nil
  then show ?case by simp
next
  case (Cons e es)
  then obtain s1 where "apply_event (Some s) e = Ok s1" "replay_from (Some s1) es = Ok (Some s')"
    by (auto simp: and_then_Ok_iff)
  then show ?case
    using Cons.IH [of s1] apply_event_ok [OF Cons.prems(2), of e s1] by auto
qed

lemma replay_from_Some: "replay_from (Some s) es = Ok st \<Longrightarrow> st \<noteq> None"
  by (induction es arbitrary: s) (auto simp: and_then_Ok_iff)

lemma apply_event_terminal:
  assumes "run_status_is_terminal (rs_status s)"
  shows "\<not> is_ok (apply_event (Some s) e)"
  using assms by (auto simp: is_ok_iff apply_event_Some_Ok_iff validate_envelope_Ok_iff)

section \<open>Decision against reduction\<close>

lemma require_active_step_Ok_iff:
  "require_active_step s i = Ok u \<longleftrightarrow> active_step_matches s i"
  by (cases "rs_active_step s") (auto simp: require_active_step_def active_step_matches_def)

lemma decide_event_reduces:
  assumes "decide_event s c = Ok e"
  shows "\<exists>s'. apply_payload s at e = Some s'"
  using assms
  by (cases c)
    (auto simp: and_then_Ok_iff invalid_transition_def require_active_step_Ok_iff split: if_splits)

lemma decide_existing_Ok_iff:
  "decide_existing s c env = Ok ps \<longleftrightarrow>
     rs_workspace_id s = ce_workspace_id env \<and> rs_id s = ce_run_id env \<and>
     \<not> run_status_is_terminal (rs_status s) \<and>
     (\<exists>e. decide_event s c = Ok e \<and> ps = one e env)"
  by (auto simp: decide_existing_def invalid_transition_def and_then_Ok_iff)

text \<open>A creation and every other command, as \<^verbatim>\<open>decide\<close> separates them.\<close>

lemma decide_create_Ok_iff:
  assumes "ce_command env = Cmd_Create who title"
  shows "decide st env = Ok ps \<longleftrightarrow>
     st = None \<and> ce_expected_version env = run_version_zero \<and> trim title \<noteq> [] \<and>
     ps = one (Ev_Created who (trim title)) env"
  using assms by (auto simp: decide_def required_text_def Let_def)

lemma decide_other_Ok_iff:
  assumes "\<And>who title. ce_command env \<noteq> Cmd_Create who title"
  shows "decide st env = Ok ps \<longleftrightarrow>
     (\<exists>s. st = Some s \<and> ce_expected_version env = rs_version s \<and>
       decide_existing s (ce_command env) env = Ok ps)"
  using assms by (cases "ce_command env"; cases st) (auto simp: decide_def Let_def)

lemma one_nonempty [simp]: "one e env \<noteq> []"
  by (simp add: one_def)

section \<open>Properties\<close>

text \<open>
  C4: every history that replays gives a well-formed state.  Its version is the number
  of events; completion and finish time are present exactly in a terminal status and the
  completion is the one of that status; the wait fits the status; an active step exists
  only while the run is running or paused; the start time is set once the run started;
  and the identity is that of every event.  \<^verbatim>\<open>PausedPolicyChanged\<close> is never reached.
\<close>

theorem replay_well_formed:
  assumes "replay es = Ok (Some s)"
  shows "run_state_ok s \<and> unat (version_value (rs_version s)) = length es \<and>
    (\<forall>e\<in>set es. ee_run_id e = rs_id s \<and> ee_workspace_id e = rs_workspace_id s)"
proof -
  obtain e rest s1 where es: "es = e # rest" "apply_event None e = Ok s1"
      "replay_from (Some s1) rest = Ok (Some s)"
    using assms by (cases es) (auto simp: replay_Ok_iff and_then_Ok_iff)
  note first = apply_first_ok [OF es(2)]
  have "run_state_ok s \<and> unat (version_value (rs_version s)) = length es"
    using run_log.fold_inv_count [of None es "Some s"] assms
    by (simp add: replay_Ok_iff replay_from_try_fold log_ok_def log_version_def)
  then show ?thesis
    using first(4) replay_from_identity [OF es(3) first(1)] es(1) by auto
qed

definition example_event :: "u64 \<Rightarrow> legacy_run_event \<Rightarrow> legacy_run_event_envelope"
  where "example_event v p =
    \<lparr> ee_event_id = 10, ee_workspace_id = 3, ee_run_id = 6, ee_sequence = RunVersion v,
      ee_event_type = event_type p, ee_event_version = 1, ee_actor = Actor_Principal 4,
      ee_causation_id = 5, ee_correlation_id = 2, ee_payload = p, ee_occurred_at = 7000,
      ee_recorded_at = 7000 \<rparr>"

definition example_history :: "legacy_run_event_envelope list"
  where "example_history =
    [example_event 1 (Ev_Created 4 ''Nightly report''), example_event 2 Ev_Prepared,
     example_event 3 Ev_Started, example_event 4 (Ev_StepStarted 8 ''fetch'' None),
     example_event 5 Ev_Paused, example_event 6 Ev_Resumed,
     example_event 7 (Ev_StepSucceeded 8 []), example_event 8 (Ev_WaitingForApproval 9),
     example_event 9 (Ev_ApprovalGranted 4), example_event 10 (Ev_Succeeded None)]"

lemmas reducer_defs = replay_def apply_event_def validate_envelope_def apply_first_def
  apply_existing_def event_version_def run_version_initial_def run_version_next_def
  checked_add_def run_status_flags active_step_matches_def finish_def

lemma example_replay:
  "\<exists>s. replay example_history = Ok (Some s) \<and> rs_status s = Run_Succeeded"
  by (simp add: example_history_def example_event_def reducer_defs Let_def)

theorem replay_well_formed_witness:
  "\<exists>s. replay example_history = Ok (Some s) \<and> rs_status s = Run_Succeeded \<and> run_state_ok s \<and>
     unat (version_value (rs_version s)) = 10"
proof -
  obtain s where s: "replay example_history = Ok (Some s)" "rs_status s = Run_Succeeded"
    using example_replay by blast
  then show ?thesis
    using replay_well_formed [OF s(1)] by (auto simp: example_history_def)
qed

text \<open>
  C13: the reducer against the published transition table.  Each applied event moves the
  status along \<^verbatim>\<open>RunStatus::transition_to\<close>, with one exception: a failure is also
  recorded for a run that was never prepared, that is paused, or that waits for input or
  approval, from where the table has no edge to \<^verbatim>\<open>Failed\<close>.
\<close>

theorem reducer_follows_table:
  assumes "apply_event (Some s) e = Ok s'"
  shows "run_status_may_step (rs_status s) (rs_status s') \<or>
    rs_status s' = Run_Failed \<and>
      rs_status s \<in> {Run_Created, Run_WaitingForInput, Run_WaitingForApproval, Run_Paused,
                     Run_PausedPolicyChanged}"
proof -
  obtain s1 where s1: "apply_payload s (ee_occurred_at e) (ee_payload e) = Some s1"
    and s': "rs_status s' = rs_status s1" and live: "\<not> run_status_is_terminal (rs_status s)"
    using assms by (auto simp: apply_event_Some_Ok_iff validate_envelope_Ok_iff)
  show ?thesis
    using s1
  proof (cases rule: apply_payload_shape)
    case (waiting st w)
    then show ?thesis
      using s' by (auto simp: run_status_may_step_def run_status_transition_to_def run_status_flags)
  next
    case (finished c)
    then show ?thesis
      using s' live
      by (cases c; cases "rs_status s")
        (auto simp: run_status_may_step_def run_status_transition_to_def run_status_flags)
  qed (use s' live in \<open>auto simp: run_status_may_step_def run_status_transition_to_def run_status_flags\<close>)
qed

theorem reducer_follows_table_witness:
  "\<exists>s s'. replay [example_event 1 (Ev_Created 4 ''Nightly report'')] = Ok (Some s) \<and>
     apply_event (Some s) (example_event 2 (Ev_Failed ''lost'' ''worker lost'' True)) = Ok s' \<and>
     \<not> run_status_may_step (rs_status s) (rs_status s') \<and>
     rs_status s' = Run_Failed \<and> rs_status s = Run_Created"
proof -
  let ?s = "first_state (example_event 1 (Ev_Created 4 ''Nightly report'')) 4 ''Nightly report''"
  have rep: "replay [example_event 1 (Ev_Created 4 ''Nightly report'')] = Ok (Some ?s)"
    by (simp add: example_event_def reducer_defs first_state_def Let_def)
  obtain s' where s': "apply_event (Some ?s) (example_event 2 (Ev_Failed ''lost'' ''worker lost'' True)) = Ok s'"
    by (simp add: example_event_def reducer_defs first_state_def Let_def)
  have "rs_status ?s = Run_Created" by (simp add: first_state_def)
  moreover have "rs_status s' = Run_Failed"
    using s' by (auto simp: apply_event_Some_Ok_iff example_event_def)
  ultimately show ?thesis
    using reducer_follows_table [OF s'] rep s'
    by (auto simp: run_status_may_step_def run_status_transition_to_def run_status_flags)
qed

end
