(* ===== verification/Application_Context.thy ===== *)
theory Application_Context
  imports Prelude
begin

text \<open>
  The error and the request context that all services of the crate \<^verbatim>\<open>vestrace-application\<close>
  share (\<^verbatim>\<open>error.rs\<close>, \<^verbatim>\<open>context.rs\<close>).
\<close>

datatype application_error =
    App_Domain domain_error
  | App_Conflict string
  | App_Policy string
  | App_Unavailable string
  | App_Storage string
  | App_Internal string
  | App_InvalidConfiguration string

record request_context =
  rc_request_id :: uuid
  rc_correlation_id :: uuid
  rc_workspace_id :: uuid
  rc_principal_id :: uuid

text \<open>The \<^verbatim>\<open>Display\<close> instance derived by \<^verbatim>\<open>thiserror\<close>.\<close>

fun application_error_display :: "application_error \<Rightarrow> string"
  where
    "application_error_display (App_Domain e) = domain_error_display e"
  | "application_error_display (App_Conflict m) = ''conflict: '' @ m"
  | "application_error_display (App_Policy m) = ''policy failure: '' @ m"
  | "application_error_display (App_Unavailable m) = ''unavailable: '' @ m"
  | "application_error_display (App_Storage m) = ''storage failure: '' @ m"
  | "application_error_display (App_Internal m) = ''internal failure: '' @ m"
  | "application_error_display (App_InvalidConfiguration m) = ''invalid configuration: '' @ m"

text \<open>
  What PostgreSQL decides: the text of the error for a violated constraint, and what a
  \<^verbatim>\<open>TIMESTAMPTZ\<close> column keeps of a time (microseconds of the nanoseconds that \<^verbatim>\<open>chrono\<close> carries).
\<close>

record postgres =
  pg_message :: "string \<Rightarrow> string"
  pg_stored :: "timestamp \<Rightarrow> timestamp"

text \<open>\<^verbatim>\<open>btrim(value) <> ''\<close> of a check constraint: \<^verbatim>\<open>btrim\<close> removes spaces only.\<close>

definition btrim_blank :: "string \<Rightarrow> bool"
  where "btrim_blank value = list_all (\<lambda>c. c = CHR '' '') value"

section \<open>Database calls that may fail\<close>

text \<open>
  A database call works, or fails before it changes anything, or commits and the reply is lost.
\<close>

datatype db_fault = Db_Works | Db_Fails string | Db_Reply_Lost string

definition faulty :: "db_fault \<Rightarrow> ('w \<Rightarrow> (application_error, 'a \<times> 'w) result) \<Rightarrow> 'w \<Rightarrow> 'w \<times> (application_error, 'a) result"
  where "faulty fault op w =
    (case fault of
       Db_Fails m \<Rightarrow> (w, Err (App_Storage m))
     | _ \<Rightarrow>
         (case op w of
            Inl e \<Rightarrow> (w, Err e)
          | Inr (x, w') \<Rightarrow> (w', case fault of Db_Reply_Lost m \<Rightarrow> Err (App_Storage m) | _ \<Rightarrow> Ok x)))"

lemma faulty_cases:
  assumes "faulty fault op s = (s', r)"
  obtains "s' = s" "\<And>x. r \<noteq> Ok x" | x where "op s = Ok (x, s')" "\<And>y. r = Ok y \<Longrightarrow> y = x"
  using assms by (auto simp: faulty_def split: db_fault.splits sum.splits)

abbreviation written :: "('e, 's) result \<Rightarrow> ('e, unit \<times> 's) result"
  where "written r \<equiv> and_then r (\<lambda>s. Ok ((), s))"

abbreviation read_only :: "('e, 'a) result \<Rightarrow> 's \<Rightarrow> ('e, 'a \<times> 's) result"
  where "read_only r s \<equiv> and_then r (\<lambda>x. Ok (x, s))"

end
