(* ===== verification/Run_Store.thy ===== *)
theory Run_Store
  imports Run_Events Application_Context
begin

text \<open>
  The PostgreSQL stores behind runs (crate \<^verbatim>\<open>vestrace-infrastructure\<close>,
  \<^verbatim>\<open>postgres/run_event_store.rs\<close>, \<^verbatim>\<open>postgres/run_command_committer.rs\<close> and
  \<^verbatim>\<open>postgres/run_recovery_store.rs\<close>) over the tables of migrations 0019, 0020,
  0111 and 0112.  A transaction either returns the tables it leaves or an error,
  in which case it is rolled back.  What the transactions meet of the rest of the
  database is a parameter: the text of a database error, the clock behind
  \<^verbatim>\<open>DEFAULT NOW()\<close>, the size limits of a row, the rows of \<^verbatim>\<open>workspaces\<close> and
  \<^verbatim>\<open>principals\<close> that the foreign keys name, and the runs for which
  \<^verbatim>\<open>provider_result_preparations\<close> holds a prepared result.
\<close>

section \<open>Tables\<close>

text \<open>
  A row of \<^verbatim>\<open>run_events\<close> is an envelope with the column \<^verbatim>\<open>created_at\<close> that the
  database fills in.  A row of \<^verbatim>\<open>agent_runs\<close> has the columns the projections write.
\<close>

record run_event_row =
  ev_envelope :: legacy_run_event_envelope
  ev_created_at :: timestamp

record agent_run_row =
  rw_id :: uuid
  rw_workspace_id :: uuid
  rw_principal_id :: uuid
  rw_title :: string
  rw_objective :: string
  rw_coordinator_snapshot_id :: uuid
  rw_execution_mode :: string
  rw_status :: string
  rw_run_version :: int
  rw_root_run_id :: uuid
  rw_created_at :: timestamp
  rw_updated_at :: timestamp
  rw_finished_at :: "timestamp option"

record run_checkpoint =
  cp_workspace_id :: uuid
  cp_run_id :: uuid
  cp_sequence :: run_version
  cp_format_version :: u16
  cp_state_hash :: string
  cp_state :: run_state
  cp_created_at :: timestamp

record run_store =
  tb_run_streams :: "uuid \<times> uuid \<Rightarrow> int option"
  tb_run_events :: "run_event_row list"
  tb_agent_runs :: "uuid \<Rightarrow> agent_run_row option"
  tb_run_checkpoints :: "run_checkpoint list"

record database =
  db_message :: "string \<Rightarrow> string"
  db_now :: timestamp
  db_fits :: "string list \<Rightarrow> bool"
  db_workspaces :: "uuid set"
  db_principals :: "uuid set"
  db_results_prepared :: "(uuid \<times> uuid) set"

section \<open>Values PostgreSQL stores\<close>

text \<open>
  \<^verbatim>\<open>TEXT\<close> and \<^verbatim>\<open>JSONB\<close> hold no NUL character.  \<^verbatim>\<open>TIMESTAMPTZ\<close> counts microseconds from
  4714-11-24 BC up to the end of its 64-bit range.
\<close>

definition pg_text :: "string \<Rightarrow> bool"
  where "pg_text t = (CHR 0x00 \<notin> set t)"

definition pg_time :: "timestamp \<Rightarrow> bool"
  where "pg_time t =
    (- 210866803200000000 \<le> t div 1000 \<and> t div 1000 < 9223371331200000000 + 946684800000000)"

text \<open>The strings of the JSON documents \<^verbatim>\<open>payload\<close> and \<^verbatim>\<open>actor\<close>.\<close>

fun payload_texts :: "legacy_run_event \<Rightarrow> string list"
  where
    "payload_texts (Ev_Created _ title) = [title]"
  | "payload_texts (Ev_StepStarted _ kind label) = kind # (case label of None \<Rightarrow> [] | Some l \<Rightarrow> [l])"
  | "payload_texts (Ev_StepSucceeded _ output_references) = output_references"
  | "payload_texts (Ev_StepFailed _ code message _) = [code, message]"
  | "payload_texts (Ev_WaitingForInput _ prompt) = [prompt]"
  | "payload_texts (Ev_Succeeded summary) = (case summary of None \<Rightarrow> [] | Some t \<Rightarrow> [t])"
  | "payload_texts (Ev_SucceededWithWarnings summary warnings) = summary # warnings"
  | "payload_texts (Ev_PartialCompleted summary remaining_work) = summary # remaining_work"
  | "payload_texts (Ev_Failed code message _) = [code, message]"
  | "payload_texts (Ev_Cancelled reason) = (case reason of None \<Rightarrow> [] | Some t \<Rightarrow> [t])"
  | "payload_texts _ = []"

definition event_texts :: "run_actor \<Rightarrow> legacy_run_event \<Rightarrow> string list"
  where "event_texts actor payload =
    payload_texts payload @ (case actor of Actor_System component \<Rightarrow> [component] | _ \<Rightarrow> [])"

definition event_texts_stored :: "database \<Rightarrow> run_actor \<Rightarrow> legacy_run_event \<Rightarrow> bool"
  where "event_texts_stored dbe actor payload =
    (list_all pg_text (event_texts actor payload) \<and> db_fits dbe (event_texts actor payload))"

definition event_values_stored :: "database \<Rightarrow> legacy_run_event_envelope \<Rightarrow> bool"
  where "event_values_stored dbe e =
    (event_texts_stored dbe (ee_actor e) (ee_payload e) \<and>
     pg_time (ee_occurred_at e) \<and> pg_time (ee_recorded_at e))"

lemmas stored_values_defs = pg_text_def pg_time_def event_texts_def event_texts_stored_def
  event_values_stored_def

section \<open>Versions as BIGINT\<close>

definition try_from_int_error :: string
  where "try_from_int_error = ''out of range integral type conversion attempted''"

definition version_to_database :: "run_version \<Rightarrow> (application_error, int) result"
  where "version_to_database v =
    (if unat (version_value v) < 2 ^ 63 then Ok (int (unat (version_value v)))
     else Err (App_Storage try_from_int_error))"

definition version_from_database :: "int \<Rightarrow> (application_error, run_version) result"
  where "version_from_database i =
    (if i = 0 then Ok run_version_zero
     else if i < 0 \<or> i \<ge> 2 ^ 64 then Err (App_Storage try_from_int_error)
     else map_err App_Domain (run_version_new (word_of_int i)))"

definition version_conflict :: "run_version \<Rightarrow> run_version \<Rightarrow> application_error"
  where "version_conflict expected actual =
    App_Conflict (''run version conflict: expected '' @ show_u64 (version_value expected)
      @ '', actual '' @ show_u64 (version_value actual))"

section \<open>Reading events\<close>

text \<open>
  \<^verbatim>\<open>TryFrom<StoredEventRow>\<close>; the JSON columns \<^verbatim>\<open>actor\<close> and \<^verbatim>\<open>payload\<close> read back as
  they were written.
\<close>

definition event_from_row ::
    "legacy_run_event_envelope \<Rightarrow> (application_error, legacy_run_event_envelope) result"
  where "event_from_row e =
    (if ee_sequence e = run_version_zero
     then Err (App_Storage ''stored run event sequence must be positive'')
     else if ee_event_type e \<noteq> event_type (ee_payload e)
           \<or> ee_event_version e \<noteq> event_version (ee_payload e)
     then Err (App_Storage ''stored run event metadata does not match its payload'')
     else Ok e)"

fun collect_results :: "('e, 'a) result list \<Rightarrow> ('e, 'a list) result"
  where
    "collect_results [] = Ok []"
  | "collect_results (r # rs) =
       and_then r (\<lambda>x. and_then (collect_results rs) (\<lambda>xs. Ok (x # xs)))"

lemma collect_results_Ok_iff: "collect_results rs = Ok xs \<longleftrightarrow> rs = map Ok xs"
  by (induction rs arbitrary: xs) (auto simp: and_then_Ok_iff split: sum.splits)

lemma collect_results_total:
  "(\<And>x. x \<in> set xs \<Longrightarrow> \<exists>y. f x = Ok y) \<Longrightarrow>
     \<exists>ys. collect_results (map f xs) = Ok ys \<and> (\<forall>x\<in>set xs. \<exists>y\<in>set ys. f x = Ok y)"
proof (induction xs)
  case (Cons x xs)
  then obtain y ys where "f x = Ok y" "collect_results (map f xs) = Ok ys" "\<forall>x\<in>set xs. \<exists>y\<in>set ys. f x = Ok y"
    by (metis list.set_intros(1,2))
  then show ?case
    by (intro exI [of _ "y # ys"]) auto
qed simp

definition row_key :: "run_event_row \<Rightarrow> uuid \<times> uuid"
  where "row_key r = (ee_workspace_id (ev_envelope r), ee_run_id (ev_envelope r))"

definition row_sequence :: "run_event_row \<Rightarrow> nat"
  where "row_sequence r = unat (version_value (ee_sequence (ev_envelope r)))"

definition stream_rows :: "run_store \<Rightarrow> uuid \<times> uuid \<Rightarrow> run_event_row list"
  where "stream_rows db k =
    sort_key row_sequence (filter (\<lambda>r. row_key r = k) (tb_run_events db))"

definition load_events ::
    "run_store \<Rightarrow> request_context \<Rightarrow> uuid
     \<Rightarrow> (application_error, legacy_run_event_envelope list) result"
  where "load_events db ctx run_id =
    collect_results (map (event_from_row \<circ> ev_envelope) (stream_rows db (rc_workspace_id ctx, run_id)))"

section \<open>Writing events\<close>

text \<open>
  One \<^verbatim>\<open>INSERT INTO run_events\<close>: the values, the primary key and the unique
  \<^verbatim>\<open>(workspace_id, run_id, sequence)\<close> of migration 0111, and the foreign keys to
  \<^verbatim>\<open>workspaces\<close> (0020) and \<^verbatim>\<open>run_streams\<close> (0112).
\<close>

definition insert_event ::
    "database \<Rightarrow> application_error \<Rightarrow> run_store \<Rightarrow> legacy_run_event_envelope
     \<Rightarrow> (application_error, run_store) result"
  where "insert_event dbe duplicate db e =
    and_then (version_to_database (ee_sequence e)) (\<lambda>_.
    if unat (ee_event_version e) \<ge> 2 ^ 15 then Err (App_Storage try_from_int_error)
    else if \<not> event_values_stored dbe e then Err (App_Storage (db_message dbe ''run_events''))
    else if \<exists>r\<in>set (tb_run_events db). ee_event_id (ev_envelope r) = ee_event_id e
            \<or> (ee_workspace_id (ev_envelope r) = ee_workspace_id e
               \<and> ee_run_id (ev_envelope r) = ee_run_id e
               \<and> ee_sequence (ev_envelope r) = ee_sequence e)
    then Err duplicate
    else if ee_workspace_id e \<notin> db_workspaces dbe
            \<or> tb_run_streams db (ee_workspace_id e, ee_run_id e) = None
    then Err (App_Storage (db_message dbe ''run_events''))
    else Ok (db\<lparr>tb_run_events := tb_run_events db @ [\<lparr>ev_envelope = e, ev_created_at = db_now dbe\<rparr>]\<rparr>))"

lemmas run_store_counting_code [code] =
  version_to_database_def [unfolded unat_numeral_iff uint_nat [symmetric]]
  insert_event_def [unfolded unat_numeral_iff]

fun insert_events ::
    "database \<Rightarrow> application_error \<Rightarrow> run_store \<Rightarrow> legacy_run_event_envelope list
     \<Rightarrow> (application_error, run_store) result"
  where
    "insert_events dbe duplicate db [] = Ok db"
  | "insert_events dbe duplicate db (e # es) =
       and_then (insert_event dbe duplicate db e) (\<lambda>db'. insert_events dbe duplicate db' es)"

definition advance_stream ::
    "database \<Rightarrow> string \<Rightarrow> run_store \<Rightarrow> uuid \<times> uuid \<Rightarrow> run_version \<Rightarrow> run_version \<Rightarrow> timestamp
     \<Rightarrow> (application_error, run_store) result"
  where "advance_stream dbe message db k expected_version new_version updated_at =
    and_then (version_to_database new_version) (\<lambda>new.
    and_then (version_to_database expected_version) (\<lambda>expected.
    if \<not> pg_time updated_at then Err (App_Storage (db_message dbe ''run_streams''))
    else if tb_run_streams db k = Some expected
    then Ok (db\<lparr>tb_run_streams := (tb_run_streams db)(k \<mapsto> new)\<rparr>)
    else Err (App_Conflict message)))"

text \<open>
  The loop over a batch that both stores share: consecutive sequence numbers
  from the expected version, the context's identity, and metadata that fits the
  payload.
\<close>

fun validate_events ::
    "string \<Rightarrow> request_context \<Rightarrow> uuid \<Rightarrow> run_version \<Rightarrow> legacy_run_event_envelope list
     \<Rightarrow> (application_error, run_version) result"
  where
    "validate_events label ctx run_id sequence [] = Ok sequence"
  | "validate_events label ctx run_id sequence (e # es) =
       and_then (map_err App_Domain (run_version_next sequence)) (\<lambda>sequence'.
       if ee_workspace_id e \<noteq> rc_workspace_id ctx \<or> ee_run_id e \<noteq> run_id
       then Err (App_Conflict (''run event identity does not match '' @ label @ '' context''))
       else if ee_sequence e \<noteq> sequence'
       then Err (App_Conflict (''run event sequence must be '' @ show_u64 (version_value sequence')
              @ '', got '' @ show_u64 (version_value (ee_sequence e))))
       else if ee_event_type e \<noteq> event_type (ee_payload e)
       then Err (App_Conflict ''run event type does not match payload'')
       else if ee_event_version e \<noteq> event_version (ee_payload e)
       then Err (App_Conflict ''run event version does not match payload'')
       else validate_events label ctx run_id sequence' es)"

text \<open>
  \<^verbatim>\<open>INSERT INTO run_streams\<close> of a stream that does not exist; the workspace is a foreign
  key (0112).
\<close>

definition create_stream ::
    "database \<Rightarrow> run_store \<Rightarrow> uuid \<times> uuid \<Rightarrow> timestamp \<Rightarrow> (application_error, run_store) result"
  where "create_stream dbe db k created_at =
    (if \<not> pg_time created_at \<or> fst k \<notin> db_workspaces dbe
     then Err (App_Storage (db_message dbe ''run_streams''))
     else Ok (db\<lparr>tb_run_streams := (tb_run_streams db)(k \<mapsto> 0)\<rparr>))"

section \<open>PgRunEventStore\<close>

definition pg_load_stream ::
    "run_store \<Rightarrow> request_context \<Rightarrow> uuid
     \<Rightarrow> (application_error, legacy_run_event_envelope list) result"
  where "pg_load_stream db ctx run_id = load_events db ctx run_id"

definition validate_event_batch ::
    "request_context \<Rightarrow> uuid \<Rightarrow> run_version \<Rightarrow> legacy_run_event_envelope list
     \<Rightarrow> (application_error, run_version) result"
  where "validate_event_batch ctx run_id expected_version events =
    (if events = [] then Err (App_Conflict ''run event append batch must not be empty'')
     else validate_events ''append'' ctx run_id expected_version events)"

definition append_lock_or_create_stream ::
    "database \<Rightarrow> run_store \<Rightarrow> request_context \<Rightarrow> uuid \<Rightarrow> run_version \<Rightarrow> timestamp
     \<Rightarrow> (application_error, run_version \<times> run_store) result"
  where "append_lock_or_create_stream dbe db ctx run_id expected_version created_at =
    (let k = (rc_workspace_id ctx, run_id) in
     case tb_run_streams db k of
       Some v \<Rightarrow> and_then (version_from_database v) (\<lambda>version. Ok (version, db))
     | None \<Rightarrow>
         if expected_version \<noteq> run_version_zero
         then Err (App_Domain (NotFound ''run stream does not exist''))
         else and_then (create_stream dbe db k created_at) (\<lambda>db'. Ok (run_version_zero, db')))"

definition stored_head :: "run_store \<Rightarrow> uuid \<times> uuid \<Rightarrow> int"
  where "stored_head db k =
    foldr max (map (int \<circ> row_sequence) (filter (\<lambda>r. row_key r = k) (tb_run_events db))) 0"

definition pg_append ::
    "database \<Rightarrow> run_store \<Rightarrow> request_context \<Rightarrow> uuid \<Rightarrow> run_version
     \<Rightarrow> legacy_run_event_envelope list \<Rightarrow> (application_error, run_version \<times> run_store) result"
  where "pg_append dbe db ctx run_id expected_version events =
    and_then (validate_event_batch ctx run_id expected_version events) (\<lambda>final_version.
    and_then (append_lock_or_create_stream dbe db ctx run_id expected_version
                (ee_recorded_at (hd events))) (\<lambda>(actual_version, db1).
    if actual_version \<noteq> expected_version
    then Err (version_conflict expected_version actual_version)
    else
      and_then (version_from_database (stored_head db1 (rc_workspace_id ctx, run_id))) (\<lambda>head.
      if head \<noteq> actual_version
      then Err (App_Storage (''run stream metadata and events diverged at versions ''
             @ show_u64 (version_value actual_version) @ '' and '' @ show_u64 (version_value head)))
      else
        and_then (insert_events dbe (App_Storage (db_message dbe ''run_events'')) db1 events) (\<lambda>db2.
        and_then (advance_stream dbe ''run stream changed before event append'' db2
                    (rc_workspace_id ctx, run_id) expected_version final_version
                    (ee_recorded_at (last events))) (\<lambda>db3.
        Ok (final_version, db3))))))"

section \<open>The projection (runs/projection.rs)\<close>

definition project_run :: "run_state \<Rightarrow> agent_run"
  where "project_run s =
    \<lparr> ar_id = rs_id s,
      ar_workspace_id = rs_workspace_id s,
      ar_objective = rs_title s,
      ar_coordinator_snapshot_id = rs_principal_id s,
      ar_active_plan_revision_id = None,
      ar_execution_mode = Autopilot,
      ar_status = rs_status s,
      ar_current_step_id = map_option ss_id (rs_active_step s),
      ar_checkpoint_id = None,
      ar_parent = None,
      ar_root_run_id = rs_id s,
      ar_budget_snapshot_id = None,
      ar_resource_usage_snapshot_id = None,
      ar_version = rs_version s,
      ar_result = None,
      ar_created_at = rs_created_at s,
      ar_updated_at = rs_updated_at s,
      ar_finished_at = rs_finished_at s \<rparr>"

section \<open>PgRunCommandCommitter\<close>

definition validate_batch ::
    "request_context \<Rightarrow> uuid \<Rightarrow> run_version \<Rightarrow> legacy_run_event_envelope list \<Rightarrow> agent_run
     \<Rightarrow> (application_error, unit) result"
  where "validate_batch ctx run_id expected_version events projection =
    (if events = [] then Err (App_Conflict ''run command event batch must not be empty'')
     else if ar_id projection \<noteq> run_id \<or> ar_workspace_id projection \<noteq> rc_workspace_id ctx
     then Err (App_Conflict ''run projection identity does not match the command context'')
     else and_then (validate_events ''the command'' ctx run_id expected_version events) (\<lambda>sequence.
       if ar_version projection \<noteq> sequence
       then Err (App_Conflict ''run projection version does not match the final event sequence'')
       else Ok ()))"

definition lock_or_create_stream ::
    "database \<Rightarrow> run_store \<Rightarrow> request_context \<Rightarrow> uuid \<Rightarrow> run_version \<Rightarrow> timestamp
     \<Rightarrow> (application_error, run_version \<times> run_store) result"
  where "lock_or_create_stream dbe db ctx run_id expected_version created_at =
    (let k = (rc_workspace_id ctx, run_id) in
     if expected_version = run_version_zero
     then (if pg_time created_at \<and> tb_run_streams db k \<noteq> None
           then Err (App_Conflict ''run already exists'')
           else and_then (create_stream dbe db k created_at) (\<lambda>db'. Ok (run_version_zero, db')))
     else and_then (ok_or (App_Conflict ''run stream is not visible'') (tb_run_streams db k)) (\<lambda>v.
          and_then (version_from_database v) (\<lambda>version. Ok (version, db))))"

definition validate_stream_head ::
    "legacy_run_event_envelope list \<Rightarrow> run_version \<Rightarrow> (application_error, unit) result"
  where "validate_stream_head existing_events stream_version =
    (let head = (if existing_events = [] then run_version_zero
                 else ee_sequence (last existing_events)) in
     if head \<noteq> stream_version
     then Err (App_Storage (''run stream metadata and events diverged at versions ''
            @ show_u64 (version_value stream_version) @ '' and '' @ show_u64 (version_value head)))
     else Ok ())"

definition becomes_executable :: "run_state option \<Rightarrow> run_state \<Rightarrow> bool"
  where "becomes_executable prior resulting =
    ((case prior of None \<Rightarrow> True | Some p \<Rightarrow> rs_status p = Run_Created)
     \<and> rs_status resulting = Run_Preparing)"

fun status_name :: "run_status \<Rightarrow> string"
  where
    "status_name Run_Created = ''created''"
  | "status_name Run_Preparing = ''preparing''"
  | "status_name Run_Running = ''running''"
  | "status_name Run_WaitingForInput = ''waiting_for_input''"
  | "status_name Run_WaitingForApproval = ''waiting_for_approval''"
  | "status_name Run_WaitingForDependency = ''waiting_for_dependency''"
  | "status_name Run_Succeeded = ''succeeded''"
  | "status_name Run_SucceededWithWarnings = ''succeeded_with_warnings''"
  | "status_name Run_Partial = ''partial''"
  | "status_name Run_Failed = ''failed''"
  | "status_name Run_Cancelled = ''cancelled''"
  | "status_name Run_Paused = ''paused''"
  | "status_name Run_PausedPolicyChanged = ''paused_policy_changed''"
  | "status_name Run_Expired = ''expired''"

text \<open>The row a projection writes, for a given \<^verbatim>\<open>principal_id\<close>.\<close>

definition projection_row :: "uuid \<Rightarrow> agent_run \<Rightarrow> int \<Rightarrow> agent_run_row"
  where "projection_row principal_id p version =
    \<lparr> rw_id = ar_id p,
      rw_workspace_id = ar_workspace_id p,
      rw_principal_id = principal_id,
      rw_title = ar_objective p,
      rw_objective = ar_objective p,
      rw_coordinator_snapshot_id = ar_coordinator_snapshot_id p,
      rw_execution_mode = run_execution_mode_as_str (ar_execution_mode p),
      rw_status = status_name (ar_status p),
      rw_run_version = version,
      rw_root_run_id = ar_root_run_id p,
      rw_created_at = ar_created_at p,
      rw_updated_at = ar_updated_at p,
      rw_finished_at = ar_finished_at p \<rparr>"

text \<open>The \<^verbatim>\<open>CHECK\<close> constraints of \<^verbatim>\<open>agent_runs\<close> (migration 0019) that a row can miss.\<close>

definition agent_runs_checks :: "agent_run_row \<Rightarrow> bool"
  where "agent_runs_checks r =
    (1 \<le> length (rw_objective r) \<and> length (rw_objective r) \<le> 32768 \<and>
     1 \<le> rw_run_version r \<and>
     (rw_finished_at r \<noteq> None) =
       (rw_status r \<in> {''succeeded'', ''succeeded_with_warnings'', ''partial'', ''failed'',
                       ''cancelled'', ''expired''}))"

definition agent_run_values_stored :: "agent_run_row \<Rightarrow> bool"
  where "agent_run_values_stored r =
    (pg_text (rw_title r) \<and> pg_text (rw_objective r) \<and>
     pg_time (rw_created_at r) \<and> pg_time (rw_updated_at r) \<and>
     (case rw_finished_at r of None \<Rightarrow> True | Some t \<Rightarrow> pg_time t))"

text \<open>
  The foreign keys of \<^verbatim>\<open>agent_runs\<close> (0019): a key is looked up when the row is new or
  the column changes; \<^verbatim>\<open>root_run_id\<close> may name the row itself.
\<close>

definition agent_run_references ::
    "database \<Rightarrow> run_store \<Rightarrow> agent_run_row option \<Rightarrow> agent_run_row \<Rightarrow> bool"
  where "agent_run_references dbe db old row =
    ((map_option rw_workspace_id old = Some (rw_workspace_id row)
        \<or> rw_workspace_id row \<in> db_workspaces dbe) \<and>
     (map_option rw_principal_id old = Some (rw_principal_id row)
        \<or> rw_principal_id row \<in> db_principals dbe) \<and>
     (map_option rw_root_run_id old = Some (rw_root_run_id row)
        \<or> rw_root_run_id row = rw_id row \<or> tb_agent_runs db (rw_root_run_id row) \<noteq> None))"

text \<open>
  \<^verbatim>\<open>INSERT ... ON CONFLICT (workspace_id, id) DO UPDATE\<close>: an existing row of the
  workspace is updated, and keeps its \<^verbatim>\<open>principal_id\<close> unless that column is in the
  \<^verbatim>\<open>SET\<close> list; a row of another workspace with the same primary key is a
  uniqueness violation.  Both callers write a run whose stream exists, so that the trigger
  that seeds a stream (0112) changes nothing.
\<close>

definition upsert_agent_run ::
    "database \<Rightarrow> bool \<Rightarrow> application_error \<Rightarrow> run_store \<Rightarrow> agent_run_row
     \<Rightarrow> (application_error, run_store) result"
  where "upsert_agent_run dbe set_principal duplicate db row =
    (let old = tb_agent_runs db (rw_id row);
         new = (case old of
                  Some r \<Rightarrow> if set_principal then row else row\<lparr>rw_principal_id := rw_principal_id r\<rparr>
                | None \<Rightarrow> row) in
     if \<not> agent_run_values_stored row \<or> \<not> agent_runs_checks row
     then Err (App_Storage (db_message dbe ''agent_runs''))
     else if \<exists>r\<in>set_option old. rw_workspace_id r \<noteq> rw_workspace_id row then Err duplicate
     else if \<not> agent_run_references dbe db old new
     then Err (App_Storage (db_message dbe ''agent_runs''))
     else Ok (db\<lparr>tb_agent_runs := (tb_agent_runs db)(rw_id row \<mapsto> new)\<rparr>))"

text \<open>
  \<^verbatim>\<open>COMMIT\<close> of a transaction that wrote a projection.  The deferred trigger
  \<^verbatim>\<open>agent_runs_result_prepared_contract\<close> (0184) refuses a run that leaves
  \<^verbatim>\<open>running\<close> while a prepared provider result waits for it.
\<close>

definition commit_projection ::
    "database \<Rightarrow> run_store \<Rightarrow> agent_run \<Rightarrow> (application_error, run_store) result"
  where "commit_projection dbe db p =
    (if status_name (ar_status p) \<noteq> ''running'' \<and> (ar_workspace_id p, ar_id p) \<in> db_results_prepared dbe
     then Err (App_Storage (db_message dbe ''agent_runs_result_prepared_contract''))
     else Ok db)"

definition committer_duplicate :: application_error
  where "committer_duplicate = App_Conflict ''run command commit conflicts with an existing row''"

definition upsert_projection ::
    "database \<Rightarrow> run_store \<Rightarrow> uuid \<Rightarrow> agent_run \<Rightarrow> (application_error, run_store) result"
  where "upsert_projection dbe db principal_id p =
    and_then (version_to_database (ar_version p)) (\<lambda>version.
    upsert_agent_run dbe False committer_duplicate db (projection_row principal_id p version))"

text \<open>
  \<^verbatim>\<open>resolve\<close> is the model binding resolver, which works on other tables of the same
  transaction.  The text \<^verbatim>\<open>{error}\<close> of a replay error is a parameter \<^verbatim>\<open>show_error\<close>.
\<close>

definition pg_commit ::
    "database \<Rightarrow> (run_replay_error \<Rightarrow> string)
     \<Rightarrow> (request_context \<Rightarrow> uuid \<Rightarrow> (application_error, unit) result)
     \<Rightarrow> run_store \<Rightarrow> request_context \<Rightarrow> uuid \<Rightarrow> run_version
     \<Rightarrow> legacy_run_event_envelope list \<Rightarrow> agent_run
     \<Rightarrow> (application_error, run_version \<times> run_store) result"
  where "pg_commit dbe show_error resolve db ctx run_id expected_version events projection =
    and_then (validate_batch ctx run_id expected_version events projection) (\<lambda>_.
    and_then (lock_or_create_stream dbe db ctx run_id expected_version (ar_created_at projection))
      (\<lambda>(actual_version, db1).
    if actual_version \<noteq> expected_version
    then Err (version_conflict expected_version actual_version)
    else
      and_then (load_events db1 ctx run_id) (\<lambda>existing_events.
      and_then (validate_stream_head existing_events actual_version) (\<lambda>_.
      and_then
        (if actual_version \<noteq> run_version_zero
         then and_then (map_err (\<lambda>e. App_Storage (''stored run event replay failed: '' @ show_error e))
                          (replay existing_events)) (\<lambda>st.
              and_then (ok_or (App_Storage ''run stream head has no authoritative events'') st)
                (\<lambda>s. Ok (Some s)))
         else Ok None) (\<lambda>prior_state.
      and_then (map_err (\<lambda>e. App_Storage (''run event replay failed before commit: '' @ show_error e))
                  (replay (existing_events @ events))) (\<lambda>st.
      and_then (ok_or (App_Conflict ''run command batch did not produce a projection'') st)
        (\<lambda>resulting_state.
      if project_run resulting_state \<noteq> projection
      then Err (App_Conflict ''run projection does not match the resulting event state'')
      else
        and_then (insert_events dbe committer_duplicate db1 events) (\<lambda>db2.
        and_then (advance_stream dbe ''run stream changed before command commit'' db2
                    (rc_workspace_id ctx, run_id) expected_version (ar_version projection)
                    (ar_updated_at projection)) (\<lambda>db3.
        and_then (if becomes_executable prior_state resulting_state
                  then resolve ctx run_id else Ok ()) (\<lambda>_.
        and_then (upsert_projection dbe db3 (rc_principal_id ctx) projection) (\<lambda>db4.
        and_then (commit_projection dbe db4 projection) (\<lambda>db5.
        Ok (ar_version projection, db5)))))))))))))"

section \<open>The shape of a stored stream\<close>

declare of_nat_unat [simp del]

definition stream_events :: "run_store \<Rightarrow> uuid \<times> uuid \<Rightarrow> legacy_run_event_envelope list"
  where "stream_events db k = map ev_envelope (filter (\<lambda>r. row_key r = k) (tb_run_events db))"

definition metadata_fits :: "legacy_run_event_envelope \<Rightarrow> bool"
  where "metadata_fits e =
    (ee_event_type e = event_type (ee_payload e) \<and> ee_event_version e = event_version (ee_payload e))"

fun numbered_from :: "nat \<Rightarrow> legacy_run_event_envelope list \<Rightarrow> bool"
  where
    "numbered_from n [] = True"
  | "numbered_from n (e # es) =
       (unat (version_value (ee_sequence e)) = Suc n \<and> metadata_fits e \<and> numbered_from (Suc n) es)"

definition stream_ok :: "run_store \<Rightarrow> uuid \<times> uuid \<Rightarrow> bool"
  where "stream_ok db k =
    (numbered_from 0 (stream_events db k) \<and>
     (case tb_run_streams db k of
        None \<Rightarrow> stream_events db k = []
      | Some v \<Rightarrow> v = int (length (stream_events db k)) \<and> length (stream_events db k) < 2 ^ 63))"

definition store_ok :: "run_store \<Rightarrow> bool"
  where "store_ok db = (\<forall>k. stream_ok db k)"

lemma store_okD: "store_ok db \<Longrightarrow> stream_ok db k"
  unfolding store_ok_def by blast

text \<open>The canonical history of a run replays to its head.\<close>

definition replays_to :: "run_store \<Rightarrow> uuid \<times> uuid \<Rightarrow> run_state option \<Rightarrow> bool"
  where "replays_to db k st = (replay (stream_events db k) = Ok st)"

lemma collect_results_map_Ok:
  "(\<And>x. x \<in> set xs \<Longrightarrow> f x = Ok (g x)) \<Longrightarrow> collect_results (map f xs) = Ok (map g xs)"
  by (induction xs) auto

lemma numbered_sequences:
  "numbered_from n es \<Longrightarrow>
     map (\<lambda>e. unat (version_value (ee_sequence e))) es = [Suc n..<Suc n + length es]"
proof (induction es arbitrary: n)
  case (Cons e es)
  then show ?case
    using Cons.IH [of "Suc n"] by (simp add: upt_conv_Cons del: upt_Suc)
qed simp

lemma numbered_append:
  "numbered_from n (es @ fs) \<longleftrightarrow> numbered_from n es \<and> numbered_from (n + length es) fs"
  by (induction es arbitrary: n) auto

lemma stream_rows_eq:
  assumes "numbered_from 0 (stream_events db k)"
  shows "stream_rows db k = filter (\<lambda>r. row_key r = k) (tb_run_events db)"
proof -
  let ?rows = "filter (\<lambda>r. row_key r = k) (tb_run_events db)"
  have "map row_sequence ?rows = map (\<lambda>e. unat (version_value (ee_sequence e))) (stream_events db k)"
    by (simp add: stream_events_def row_sequence_def)
  also have "\<dots> = [1..<Suc (length (stream_events db k))]"
    using numbered_sequences [OF assms] by simp
  finally have "sorted (map row_sequence ?rows)" by (simp del: upt_Suc)
  then show ?thesis
    unfolding stream_rows_def by (rule sort_key_id_if_sorted [where f = row_sequence, simplified])
qed

lemma numbered_member:
  "numbered_from n es \<Longrightarrow> e \<in> set es \<Longrightarrow>
     metadata_fits e \<and> unat (version_value (ee_sequence e)) \<noteq> 0"
  by (induction es arbitrary: n) auto

lemma event_from_row_numbered:
  assumes "numbered_from n es" "e \<in> set es"
  shows "event_from_row e = Ok e"
  using numbered_member [OF assms]
  by (auto simp: event_from_row_def metadata_fits_def run_version_zero_def)

lemma load_events_ok:
  assumes "stream_ok db (rc_workspace_id ctx, run_id)"
  shows "load_events db ctx run_id = Ok (stream_events db (rc_workspace_id ctx, run_id))"
proof -
  let ?k = "(rc_workspace_id ctx, run_id)"
  have num: "numbered_from 0 (stream_events db ?k)"
    using assms by (simp add: stream_ok_def)
  have "collect_results (map (event_from_row \<circ> ev_envelope) (stream_rows db ?k))
      = Ok (map ev_envelope (stream_rows db ?k))"
    by (rule collect_results_map_Ok)
      (use event_from_row_numbered [OF num] in \<open>auto simp: stream_rows_eq [OF num] stream_events_def\<close>)
  then show ?thesis
    by (simp add: load_events_def stream_rows_eq [OF num] stream_events_def)
qed

lemma insert_event_Ok:
  "insert_event dbe d db e = Ok db' \<Longrightarrow>
     db' = db\<lparr>tb_run_events := tb_run_events db @ [\<lparr>ev_envelope = e, ev_created_at = db_now dbe\<rparr>]\<rparr> \<and>
     unat (version_value (ee_sequence e)) < 2 ^ 63"
  by (auto simp: insert_event_def and_then_Ok_iff version_to_database_def split: if_splits)

lemma insert_events_Ok:
  "insert_events dbe d db es = Ok db' \<Longrightarrow>
     db' = db\<lparr>tb_run_events := tb_run_events db @
               map (\<lambda>e. \<lparr>ev_envelope = e, ev_created_at = db_now dbe\<rparr>) es\<rparr> \<and>
     (\<forall>e\<in>set es. unat (version_value (ee_sequence e)) < 2 ^ 63)"
proof (induction es arbitrary: db)
  case (Cons e es)
  then obtain db1 where "insert_event dbe d db e = Ok db1" "insert_events dbe d db1 es = Ok db'"
    by (auto simp: and_then_Ok_iff)
  then show ?case
    using Cons.IH [of db1] insert_event_Ok [of dbe d db e db1] by auto
qed simp

lemma advance_stream_Ok:
  "advance_stream dbe m db k expected new at = Ok db' \<Longrightarrow>
     db' = db\<lparr>tb_run_streams := (tb_run_streams db)(k \<mapsto> int (unat (version_value new)))\<rparr> \<and>
     unat (version_value new) < 2 ^ 63 \<and>
     tb_run_streams db k = Some (int (unat (version_value expected)))"
  by (auto simp: advance_stream_def and_then_Ok_iff version_to_database_def split: if_splits)

lemma validate_events_Ok:
  "validate_events l ctx run_id v es = Ok w \<Longrightarrow>
     numbered_from (unat (version_value v)) es \<and>
     unat (version_value w) = unat (version_value v) + length es \<and>
     (\<forall>e\<in>set es. ee_workspace_id e = rc_workspace_id ctx \<and> ee_run_id e = run_id)"
proof (induction es arbitrary: v)
  case Nil
  then show ?case by simp
next
  case (Cons e es)
  then obtain v' where v': "run_version_next v = Ok v'" "ee_sequence e = v'"
      "ee_workspace_id e = rc_workspace_id ctx" "ee_run_id e = run_id" "metadata_fits e"
      "validate_events l ctx run_id v' es = Ok w"
    by (auto simp: and_then_Ok_iff map_err_Ok_iff metadata_fits_def split: if_splits)
  have n: "unat (version_value v') = Suc (unat (version_value v))"
    using v'(1) by (simp add: run_version_next_Ok_iff)
  then show ?case
    using Cons.IH [OF v'(6)] v' by simp
qed

lemma version_from_database_Ok:
  assumes "version_from_database i = Ok v"
  shows "i = int (unat (version_value v))"
proof (cases "i = 0")
  case True
  then show ?thesis
    using assms by (auto simp: version_from_database_def run_version_zero_def)
next
  case False
  then have "v = RunVersion (word_of_int i)" "0 \<le> i" "i < 2 ^ 64"
    using assms
    by (auto simp: version_from_database_def run_version_new_def map_err_Ok_iff split: if_splits)
  then show ?thesis
    by (simp add: of_nat_unat unsigned_of_int take_bit_int_eq_self)
qed

lemma version_to_from_database:
  assumes "i = int (unat (version_value v))"
  shows "version_from_database i = Ok v"
proof (cases "version_value v = 0")
  case True
  then show ?thesis
    using assms by (cases v) (simp add: version_from_database_def run_version_zero_def)
next
  case False
  have "i < 2 ^ 64"
    using assms unsigned_less [of "version_value v", where ?'a = int] by (simp add: of_nat_unat)
  moreover have "(word_of_int i :: u64) = version_value v"
    by (simp add: assms of_nat_unat)
  moreover have "i \<noteq> 0"
    using assms False by (simp add: of_nat_unat uint_0_iff)
  ultimately show ?thesis
    using assms False by (cases v) (simp add: version_from_database_def run_version_new_def)
qed


text \<open>Appending a numbered batch to one stream.\<close>

lemma stream_events_extend:
  assumes "tb_run_events db' = tb_run_events db @ map (\<lambda>e. \<lparr>ev_envelope = e, ev_created_at = t\<rparr>) events"
    and "\<And>e. e \<in> set events \<Longrightarrow> (ee_workspace_id e, ee_run_id e) = k"
  shows "stream_events db' k' = stream_events db k' @ (if k' = k then events else [])"
proof -
  have "filter (\<lambda>r. row_key r = k') (map (\<lambda>e. \<lparr>ev_envelope = e, ev_created_at = t\<rparr>) events)
      = (if k' = k then map (\<lambda>e. \<lparr>ev_envelope = e, ev_created_at = t\<rparr>) events else [])"
    using assms(2) by (induction events) (auto simp: row_key_def)
  then show ?thesis
    by (simp add: stream_events_def assms(1) comp_def)
qed

lemma store_ok_extend:
  assumes "store_ok db"
    and "tb_run_events db' = tb_run_events db @ map (\<lambda>e. \<lparr>ev_envelope = e, ev_created_at = t\<rparr>) events"
    and "\<And>e. e \<in> set events \<Longrightarrow> (ee_workspace_id e, ee_run_id e) = k"
    and "tb_run_streams db' =
      (tb_run_streams db)(k \<mapsto> int (length (stream_events db k) + length events))"
    and "numbered_from (length (stream_events db k)) events"
    and "length (stream_events db k) + length events < 2 ^ 63"
  shows "store_ok db'"
  unfolding store_ok_def
proof
  fix k'
  have old: "stream_ok db k'"
    using assms(1) by (rule store_okD)
  show "stream_ok db' k'"
    using old assms(4-6) by (auto simp: stream_ok_def stream_events_extend [OF assms(2,3)] numbered_append split: option.splits)
qed

lemma create_stream_Ok_iff:
  "create_stream dbe db k at = Ok db' \<longleftrightarrow>
     pg_time at \<and> fst k \<in> db_workspaces dbe \<and>
     db' = db\<lparr>tb_run_streams := (tb_run_streams db)(k \<mapsto> 0)\<rparr>"
  by (auto simp: create_stream_def)

lemma commit_projection_Ok_iff:
  "commit_projection dbe db p = Ok db' \<longleftrightarrow> db' = db \<and>
     (status_name (ar_status p) = ''running'' \<or> (ar_workspace_id p, ar_id p) \<notin> db_results_prepared dbe)"
  by (auto simp: commit_projection_def)

lemma lock_or_create_stream_Ok:
  assumes "store_ok db" "lock_or_create_stream dbe db ctx run_id expected at = Ok (actual, db1)"
  defines "k \<equiv> (rc_workspace_id ctx, run_id)"
  shows "db1 = db\<lparr>tb_run_streams := (tb_run_streams db)(k \<mapsto> int (length (stream_events db k)))\<rparr>"
    and "unat (version_value actual) = length (stream_events db k)"
proof -
  have sok: "stream_ok db k"
    using assms(1) by (rule store_okD)
  have "db1 = db\<lparr>tb_run_streams := (tb_run_streams db)(k \<mapsto> int (length (stream_events db k)))\<rparr> \<and>
    unat (version_value actual) = length (stream_events db k)"
  proof (cases "expected = run_version_zero")
    case True
    then show ?thesis
      using assms(2) sok
      by (auto simp: lock_or_create_stream_def k_def stream_ok_def run_version_zero_def Let_def
          and_then_Ok_iff create_stream_Ok_iff split: if_splits)
  next
    case False
    then obtain v where v: "tb_run_streams db k = Some v" "version_from_database v = Ok actual" "db1 = db"
      using assms(2)
      by (auto simp: lock_or_create_stream_def k_def Let_def and_then_Ok_iff ok_or_Ok_iff)
    have "v = int (length (stream_events db k))"
      using sok v(1) by (simp add: stream_ok_def)
    moreover have "v = int (unat (version_value actual))"
      using version_from_database_Ok [OF v(2)] .
    ultimately show ?thesis
      using v(1,3) by (simp add: fun_upd_idem)
  qed
  then show "db1 = db\<lparr>tb_run_streams := (tb_run_streams db)(k \<mapsto> int (length (stream_events db k)))\<rparr>"
    "unat (version_value actual) = length (stream_events db k)" by blast+
qed

lemma stream_events_streams [simp]:
  "stream_events (db\<lparr>tb_run_streams := f\<rparr>) k = stream_events db k"
  "stream_events (db\<lparr>tb_agent_runs := g\<rparr>) k = stream_events db k"
  by (simp_all add: stream_events_def)

lemma upsert_projection_Ok:
  "upsert_projection dbe db who p = Ok db' \<Longrightarrow>
     tb_run_events db' = tb_run_events db \<and> tb_run_streams db' = tb_run_streams db \<and>
     tb_run_checkpoints db' = tb_run_checkpoints db"
  by (auto simp: upsert_projection_def upsert_agent_run_def and_then_Ok_iff Let_def
      split: if_splits)

lemma store_ok_created_stream:
  assumes "store_ok db"
  shows "stream_ok (db\<lparr>tb_run_streams := (tb_run_streams db)(k \<mapsto> int (length (stream_events db k)))\<rparr>) k"
  using store_okD [OF assms, of k] by (auto simp: stream_ok_def split: option.splits)


lemma pg_commit_Ok:
  assumes ok: "store_ok db"
    and commit: "pg_commit dbe shw res db ctx run_id expected events projection = Ok (v, db')"
  defines "k \<equiv> (rc_workspace_id ctx, run_id)"
  obtains s where "replay (stream_events db k @ events) = Ok (Some s)"
    and "projection = project_run s" and "v = rs_version s" and "events \<noteq> []"
    and "unat (version_value expected) = length (stream_events db k)"
    and "\<And>k'. stream_events db' k' = stream_events db k' @ (if k' = k then events else [])"
    and "store_ok db'"
proof -
  obtain db1 db2 db3 actual existing prior s where
      val: "validate_batch ctx run_id expected events projection = Ok ()"
    and lock: "lock_or_create_stream dbe db ctx run_id expected (ar_created_at projection)
                = Ok (actual, db1)"
    and actual: "actual = expected"
    and load: "load_events db1 ctx run_id = Ok existing"
    and rep: "replay (existing @ events) = Ok (Some s)"
    and proj: "project_run s = projection" and v: "v = ar_version projection"
    and ins: "insert_events dbe committer_duplicate db1 events = Ok db2"
    and adv: "advance_stream dbe ''run stream changed before command commit'' db2
                (rc_workspace_id ctx, run_id) expected (ar_version projection)
                (ar_updated_at projection) = Ok db3"
    and ups: "upsert_projection dbe db3 (rc_principal_id ctx) projection = Ok db'"
    using commit unfolding pg_commit_def
    by (auto simp: and_then_Ok_iff map_err_Ok_iff ok_or_Ok_iff commit_projection_Ok_iff split: prod.splits if_splits)
  note lk = lock_or_create_stream_Ok [OF ok lock, folded k_def]
  note ds = insert_events_Ok [OF ins] advance_stream_Ok [OF adv] upsert_projection_Ok [OF ups]
  have existing: "existing = stream_events db k"
    using load_events_ok [of db1 ctx run_id] load store_ok_created_stream [OF ok] lk(1)
    by (simp add: k_def)
  obtain w where w: "validate_events ''the command'' ctx run_id expected events = Ok w"
      "ar_version projection = w" "events \<noteq> []"
    using val by (auto simp: validate_batch_def and_then_Ok_iff split: if_splits)
  note ve = validate_events_Ok [OF w(1)]
  have rows: "tb_run_events db' = tb_run_events db @
      map (\<lambda>e. \<lparr>ev_envelope = e, ev_created_at = db_now dbe\<rparr>) events"
    using ds lk(1) by simp
  have keys: "e \<in> set events \<Longrightarrow> (ee_workspace_id e, ee_run_id e) = k" for e
    using ve by (simp add: k_def)
  have len: "unat (version_value w) = length (stream_events db k) + length events"
    using ve lk(2) actual by simp
  have streams: "tb_run_streams db' =
      (tb_run_streams db)(k \<mapsto> int (length (stream_events db k) + length events))"
    using ds lk(1) len w(2) by (simp add: k_def)
  show thesis
  proof (rule that [of s])
    show "replay (stream_events db k @ events) = Ok (Some s)" using rep existing by simp
    show "projection = project_run s" using proj by simp
    show "v = rs_version s" using v proj by (auto simp: project_run_def)
    show "events \<noteq> []" by (rule w(3))
    show "unat (version_value expected) = length (stream_events db k)" using lk(2) actual by simp
    show "stream_events db' k' = stream_events db k' @ (if k' = k then events else [])" for k'
      by (rule stream_events_extend [OF rows keys])
    show "store_ok db'"
      using store_ok_extend [OF ok rows keys streams] ve lk(2) actual ds len w(2) by simp
  qed
qed

end
