(* ===== verification/Effect_Store.thy ===== *)
theory Effect_Store
  imports External_Effects Run_Store "HOL-Library.Product_Lexorder" "HOL-Library.Option_ord"
begin

text \<open>
  The durable evidence of external effects
  (\<^verbatim>\<open>vestrace-infrastructure/src/postgres/external_effect_repository.rs\<close>) over the tables of
  migrations 0127, 0128 and 0144 to 0159.  A statement is a function on the tables; an operation
  returns the tables its transaction leaves, or the error that rolled it back.  A text column under a
  check that lists its values is the enumeration of them, an identifier kept as text is the identifier, and
  \<^verbatim>\<open>payload\<close> reads back as it was written.  Row level security adds nothing to the workspace conditions
  that every statement has.  A transaction is one step: numbers that a rolled-back transaction took
  from the sequence of ordinals leave gaps, which nothing observes.  The constraint trigger of migration 0184 concerns effects of the provider
  dispatch only, which have rows in tables that are not modelled.
\<close>

section \<open>Tables\<close>

record intent_row =
  ir_id :: uuid
  ir_workspace_id :: uuid
  ir_adapter :: string
  ir_payload :: external_effect_intent

record provider_result_receipt_evidence =
  pe_advance_work_item_id :: uuid
  pe_finish_reason :: string
  pe_usage_known :: bool
  pe_prompt_tokens :: "int option"
  pe_completion_tokens :: "int option"

text \<open>The key \<^verbatim>\<open>provider_result_recovery\<close> of the stored object is a field of its own.\<close>

record receipt_row =
  pr_id :: uuid
  pr_effect_id :: uuid
  pr_workspace_id :: uuid
  pr_outcome_status :: effect_lifecycle_status
  pr_payload :: external_effect_receipt
  pr_provider_result_recovery :: "provider_result_receipt_evidence option"
  pr_created_at :: timestamp

record authorization_row =
  az_id :: uuid
  az_effect_id :: uuid
  az_workspace_id :: uuid
  az_policy_id :: "uuid option"
  az_policy_version :: string
  az_subject_id :: uuid
  az_capability :: string
  az_operation :: string
  az_resource_scope :: string
  az_result :: policy_decision_result
  az_reason :: policy_decision_reason
  az_input_state :: policy_input_state
  az_matched_grant_id :: "uuid option"
  az_decided_at :: timestamp
  az_payload :: policy_decision

datatype transition_cause =
    IntentRecorded | AuthorizationRecorded | DispatchStarted | ReceiptRecorded
  | DispatchLost | OutcomeSettled | OutcomeDelivered

record transition_row =
  tr_id :: uuid
  tr_effect_id :: uuid
  tr_workspace_id :: uuid
  tr_status :: effect_lifecycle_status
  tr_cause :: transition_cause
  tr_cause_ref :: uuid
  tr_recorded_at :: timestamp
  tr_dispatch_owner :: "uuid option"
  tr_dispatch_expires_at :: "timestamp option"
  tr_ordinal :: nat

record reconciliation_row =
  xw_id :: uuid
  xw_effect_id :: uuid
  xw_receipt_id :: "uuid option"
  xw_workspace_id :: uuid
  xw_outcome :: reconciliation_outcome
  xw_evidence_strength :: evidence_strength
  xw_reconciled_at :: timestamp
  xw_notified_at :: "timestamp option"
  xw_payload :: external_reconciliation

record attempt_row =
  at_id :: uuid
  at_effect_id :: uuid
  at_workspace_id :: uuid
  at_attempted_at :: timestamp
  at_failure_reason :: string

record presence_row =
  wp_workspace_id :: uuid
  wp_worker_id :: uuid
  wp_started_at :: timestamp
  wp_last_reported_at :: timestamp
  wp_stopped_at :: "timestamp option"

record effect_store =
  es_intents :: "intent_row list"
  es_receipts :: "receipt_row list"
  es_authorizations :: "authorization_row list"
  es_transitions :: "transition_row list"
  es_reconciliations :: "reconciliation_row list"
  es_attempts :: "attempt_row list"
  es_presence :: "presence_row list"
  es_ordinal_seq :: nat

text \<open>What a transaction takes from the database: the identifiers it generates and \<^verbatim>\<open>NOW()\<close>.\<close>

record transaction =
  tx_postgres :: postgres
  tx_random_uuid :: uuid
  tx_now :: timestamp

abbreviation stored :: "transaction \<Rightarrow> timestamp \<Rightarrow> timestamp"
  where "stored tx \<equiv> pg_stored (tx_postgres tx)"

abbreviation violated :: "transaction \<Rightarrow> string \<Rightarrow> application_error"
  where "violated tx constraint \<equiv> App_Storage (pg_message (tx_postgres tx) constraint)"

definition has_intent :: "effect_store \<Rightarrow> uuid \<Rightarrow> uuid \<Rightarrow> bool"
  where "has_intent es effect_id workspace_id =
    list_ex (\<lambda>i. ir_id i = effect_id \<and> ir_workspace_id i = workspace_id) (es_intents es)"

section \<open>Lifecycle transitions\<close>

text \<open>The checks \<^verbatim>\<open>cause_qualified\<close> (0158) and \<^verbatim>\<open>dispatch_ownership_qualified\<close> (0155).\<close>

fun cause_qualified :: "effect_lifecycle_status \<Rightarrow> transition_cause \<Rightarrow> bool"
  where
    "cause_qualified status IntentRecorded = (status = Effect_Prepared)"
  | "cause_qualified status AuthorizationRecorded = (status = Effect_Authorized)"
  | "cause_qualified status DispatchStarted = (status = Effect_Dispatching)"
  | "cause_qualified status ReceiptRecorded = (status \<in> {Effect_Acknowledged, Effect_Failed, Effect_Unknown})"
  | "cause_qualified status DispatchLost = (status = Effect_Unknown)"
  | "cause_qualified status OutcomeSettled = (status = Effect_Reconciling)"
  | "cause_qualified status OutcomeDelivered = (status \<in> {Effect_Confirmed, Effect_Failed})"

definition ownership_qualified :: "transition_row \<Rightarrow> bool"
  where "ownership_qualified t \<longleftrightarrow>
    (if tr_status t = Effect_Dispatching
     then tr_dispatch_owner t \<noteq> None \<and> tr_dispatch_expires_at t \<noteq> None
     else tr_dispatch_owner t = None \<and> tr_dispatch_expires_at t = None)"

definition same_loss :: "transition_row \<Rightarrow> transition_row \<Rightarrow> bool"
  where "same_loss t u \<longleftrightarrow> tr_cause t = DispatchLost \<and> tr_cause u = DispatchLost \<and>
    tr_workspace_id t = tr_workspace_id u \<and> tr_effect_id t = tr_effect_id u \<and> tr_cause_ref t = tr_cause_ref u"

text \<open>
  One \<^verbatim>\<open>INSERT\<close> into the transitions: generated key and ordinal, foreign key, checks, and the partial
  unique index on lost dispatches.
\<close>

definition insert_transition ::
    "transaction \<Rightarrow> effect_store \<Rightarrow> uuid \<Rightarrow> uuid \<Rightarrow> effect_lifecycle_status \<Rightarrow> transition_cause \<Rightarrow> uuid
     \<Rightarrow> timestamp \<Rightarrow> uuid option \<Rightarrow> timestamp option \<Rightarrow> (application_error, effect_store) result"
  where "insert_transition tx es effect_id workspace_id status cause cause_ref recorded_at owner expires_at =
    (let row = \<lparr> tr_id = tx_random_uuid tx, tr_effect_id = effect_id, tr_workspace_id = workspace_id,
                 tr_status = status, tr_cause = cause, tr_cause_ref = cause_ref,
                 tr_recorded_at = stored tx recorded_at, tr_dispatch_owner = owner,
                 tr_dispatch_expires_at = map_option (stored tx) expires_at, tr_ordinal = es_ordinal_seq es \<rparr>
     in if \<not> cause_qualified status cause
        then Err (violated tx ''external_effect_lifecycle_cause_qualified'')
        else if \<not> ownership_qualified row
        then Err (violated tx ''external_effect_lifecycle_dispatch_ownership_qualified'')
        else if list_ex (\<lambda>t. tr_id t = tr_id row) (es_transitions es)
        then Err (violated tx ''external_effect_lifecycle_transitions_pkey'')
        else if list_ex (same_loss row) (es_transitions es)
        then Err (violated tx ''uq_external_effect_lifecycle_dispatch_lost'')
        else if \<not> has_intent es effect_id workspace_id
        then Err (violated tx ''external_effect_lifecycle_effect_workspace_fk'')
        else Ok (es\<lparr>es_transitions := es_transitions es @ [row], es_ordinal_seq := Suc (es_ordinal_seq es)\<rparr>))"

text \<open>\<^verbatim>\<open>lifecycle_status\<close>, the parser of the status column.\<close>

definition lifecycle_status :: "string \<Rightarrow> (application_error, effect_lifecycle_status) result"
  where "lifecycle_status value =
    (if value = ''prepared'' then Ok Effect_Prepared
     else if value = ''authorized'' then Ok Effect_Authorized
     else if value = ''dispatching'' then Ok Effect_Dispatching
     else if value = ''acknowledged'' then Ok Effect_Acknowledged
     else if value = ''failed'' then Ok Effect_Failed
     else if value = ''unknown'' then Ok Effect_Unknown
     else if value = ''confirmed'' then Ok Effect_Confirmed
     else if value = ''reconciling'' then Ok Effect_Reconciling
     else Err (App_Storage (''external effect lifecycle contains unknown status '' @ str_debug value)))"

section \<open>Intents\<close>

definition verify_insert :: "(application_error, 'a option) result \<Rightarrow> 'a \<Rightarrow> string \<Rightarrow> (application_error, unit) result"
  where "verify_insert found expected message =
    and_then found (\<lambda>existing.
    case existing of
      Some value \<Rightarrow> if value = expected then Ok () else Err (App_Conflict message)
    | None \<Rightarrow> Err (App_Storage ''external-effect conflict row disappeared before verification''))"

definition decode_intent :: "intent_row \<Rightarrow> (application_error, external_effect_intent) result"
  where "decode_intent row =
    (let intent = ir_payload row in
     if ei_id intent \<noteq> ir_id row \<or> ei_workspace_id intent \<noteq> ir_workspace_id row \<or> ei_adapter intent \<noteq> ir_adapter row
     then Err (App_Storage ''external effect intent indexed metadata does not match payload'')
     else Ok intent)"

text \<open>\<^verbatim>\<open>.map(...).transpose()?\<close> on an optional row.\<close>

definition decode_found :: "('r \<Rightarrow> (application_error, 'a) result) \<Rightarrow> 'r option \<Rightarrow> (application_error, 'a option) result"
  where "decode_found decode found =
    (case found of None \<Rightarrow> Ok None | Some row \<Rightarrow> and_then (decode row) (\<lambda>x. Ok (Some x)))"

definition find_intent ::
    "effect_store \<Rightarrow> request_context \<Rightarrow> uuid \<Rightarrow> (application_error, external_effect_intent option) result"
  where "find_intent es ctx effect_id =
    decode_found decode_intent
      (find (\<lambda>i. ir_id i = effect_id \<and> ir_workspace_id i = rc_workspace_id ctx) (es_intents es))"

definition insert_intent_on ::
    "transaction \<Rightarrow> (uuid \<Rightarrow> string) \<Rightarrow> effect_store \<Rightarrow> request_context \<Rightarrow> external_effect_intent
     \<Rightarrow> (application_error, effect_store) result"
  where "insert_intent_on tx show_uuid es ctx intent =
    (if ei_workspace_id intent \<noteq> rc_workspace_id ctx
     then Err (App_Policy ''an external effect intent cannot be recorded into another workspace'')
     else if btrim_blank (ei_adapter intent)
     then Err (violated tx ''external_effect_intents_adapter_not_blank'')
     else if list_ex (\<lambda>i. ir_id i = ei_id intent) (es_intents es)
     then and_then (verify_insert (find_intent es ctx (ei_id intent)) intent
            (''external effect intent id '' @ show_uuid (ei_id intent) @ '' already contains different evidence''))
            (\<lambda>_. Ok es)
     else insert_transition tx
            (es\<lparr>es_intents := es_intents es @
                [\<lparr> ir_id = ei_id intent, ir_workspace_id = ei_workspace_id intent, ir_adapter = ei_adapter intent,
                   ir_payload = intent \<rparr>]\<rparr>)
            (ei_id intent) (rc_workspace_id ctx) Effect_Prepared IntentRecorded (ei_id intent)
            (ei_created_at intent) None None)"

section \<open>Authorizations\<close>

definition authorization_row_of :: "transaction \<Rightarrow> request_context \<Rightarrow> uuid \<Rightarrow> policy_decision \<Rightarrow> authorization_row"
  where "authorization_row_of tx ctx effect_id d =
    \<lparr> az_id = pd_id d, az_effect_id = effect_id, az_workspace_id = rc_workspace_id ctx,
      az_policy_id = pd_policy_id d, az_policy_version = pd_policy_version d, az_subject_id = pd_subject_id d,
      az_capability = capability_display (pd_capability d), az_operation = pd_operation d,
      az_resource_scope = pd_resource_scope d, az_result = pd_result d, az_reason = pd_reason d,
      az_input_state = pd_input_state d, az_matched_grant_id = pd_matched_grant_id d,
      az_decided_at = stored tx (pd_decided_at d), az_payload = d \<rparr>"

definition record_authorization_on ::
    "transaction \<Rightarrow> effect_store \<Rightarrow> request_context \<Rightarrow> uuid \<Rightarrow> policy_decision \<Rightarrow> (application_error, effect_store) result"
  where "record_authorization_on tx es ctx effect_id d =
    (if pd_workspace_id d \<noteq> rc_workspace_id ctx
     then Err (App_Policy ''an external effect authorization cannot be recorded into another workspace'')
     else if \<not> has_intent es effect_id (rc_workspace_id ctx)
     then Err (App_Storage ''external effect authorization could not be recorded'')
     else if btrim_blank (capability_display (pd_capability d))
     then Err (violated tx ''external_effect_authorizations_capability_not_blank'')
     else if btrim_blank (pd_operation d)
     then Err (violated tx ''external_effect_authorizations_operation_not_blank'')
     else if btrim_blank (pd_policy_version d)
     then Err (violated tx ''external_effect_authorizations_policy_version_not_blank'')
     else if btrim_blank (pd_resource_scope d)
     then Err (violated tx ''external_effect_authorizations_scope_not_blank'')
     else if list_ex (\<lambda>a. az_id a = pd_id d) (es_authorizations es)
     then Err (violated tx ''external_effect_authorizations_pkey'')
     else let es' = es\<lparr>es_authorizations := es_authorizations es @ [authorization_row_of tx ctx effect_id d]\<rparr> in
       if is_allowed d
       then insert_transition tx es' effect_id (rc_workspace_id ctx) Effect_Authorized AuthorizationRecorded
              (pd_id d) (pd_decided_at d) None None
       else Ok es')"

text \<open>The first column that differs from the payload, in the order of the array.\<close>

definition authorization_disagreement :: "authorization_row \<Rightarrow> string option"
  where "authorization_disagreement row =
    (let d = az_payload row in
     map_option fst (find snd
       [(''id'', pd_id d \<noteq> az_id row),
        (''workspace_id'', pd_workspace_id d \<noteq> az_workspace_id row),
        (''policy_id'', pd_policy_id d \<noteq> az_policy_id row),
        (''policy_version'', pd_policy_version d \<noteq> az_policy_version row),
        (''subject_id'', pd_subject_id d \<noteq> az_subject_id row),
        (''capability'', capability_display (pd_capability d) \<noteq> az_capability row),
        (''operation'', pd_operation d \<noteq> az_operation row),
        (''resource_scope'', pd_resource_scope d \<noteq> az_resource_scope row),
        (''result'', pd_result d \<noteq> az_result row),
        (''reason'', pd_reason d \<noteq> az_reason row),
        (''input_state'', pd_input_state d \<noteq> az_input_state row),
        (''matched_grant_id'', pd_matched_grant_id d \<noteq> az_matched_grant_id row),
        (''decided_at'', \<bar>pd_decided_at d div 1000 - az_decided_at row div 1000\<bar> > 1)]))"

definition decode_authorization :: "authorization_row \<Rightarrow> (application_error, policy_decision) result"
  where "decode_authorization row =
    (case authorization_disagreement row of
       Some field \<Rightarrow> Err (App_Storage (''external effect authorization column `'' @ field
                       @ ''` does not match its payload''))
     | None \<Rightarrow> Ok (az_payload row))"

definition find_authorization ::
    "effect_store \<Rightarrow> request_context \<Rightarrow> uuid \<Rightarrow> uuid \<Rightarrow> (application_error, policy_decision option) result"
  where "find_authorization es ctx effect_id decision_id =
    decode_found decode_authorization
      (find (\<lambda>a. az_id a = decision_id \<and> az_effect_id a = effect_id \<and> az_workspace_id a = rc_workspace_id ctx)
        (es_authorizations es))"

section \<open>Receipts\<close>

definition decode_receipt :: "receipt_row \<Rightarrow> (application_error, external_effect_receipt) result"
  where "decode_receipt row =
    (let receipt = pr_payload row in
     if rx_id receipt \<noteq> pr_id row \<or> rx_effect_id receipt \<noteq> pr_effect_id row
        \<or> rx_outcome_status receipt \<noteq> pr_outcome_status row
     then Err (App_Storage ''external effect receipt indexed metadata does not match payload'')
     else Ok receipt)"

definition find_receipt_row :: "effect_store \<Rightarrow> request_context \<Rightarrow> uuid \<Rightarrow> receipt_row option"
  where "find_receipt_row es ctx receipt_id =
    find (\<lambda>r. pr_id r = receipt_id \<and> pr_workspace_id r = rc_workspace_id ctx) (es_receipts es)"

definition find_receipt ::
    "effect_store \<Rightarrow> request_context \<Rightarrow> uuid \<Rightarrow> (application_error, external_effect_receipt option) result"
  where "find_receipt es ctx receipt_id = decode_found decode_receipt (find_receipt_row es ctx receipt_id)"

definition insert_receipt_on ::
    "transaction \<Rightarrow> (uuid \<Rightarrow> string) \<Rightarrow> effect_store \<Rightarrow> request_context \<Rightarrow> external_effect_receipt
     \<Rightarrow> provider_result_receipt_evidence option \<Rightarrow> (application_error, effect_store) result"
  where "insert_receipt_on tx show_uuid es ctx receipt evidence =
    (if list_ex (\<lambda>r. pr_id r = rx_id receipt) (es_receipts es)
     then
       and_then (verify_insert
         (decode_found (\<lambda>row.
            if evidence \<noteq> None \<and> pr_provider_result_recovery row \<noteq> evidence
            then Err (App_Conflict ''external effect receipt already contains different provider-result evidence'')
            else decode_receipt row) (find_receipt_row es ctx (rx_id receipt)))
         receipt
         (''external effect receipt id '' @ show_uuid (rx_id receipt) @ '' already contains different evidence''))
         (\<lambda>_. Ok es)
     else if \<not> has_intent es (rx_effect_id receipt) (rc_workspace_id ctx)
     then Err (violated tx ''external_effect_receipts_effect_workspace_fk'')
     else insert_transition tx
            (es\<lparr>es_receipts := es_receipts es @
                [\<lparr> pr_id = rx_id receipt, pr_effect_id = rx_effect_id receipt,
                   pr_workspace_id = rc_workspace_id ctx, pr_outcome_status = rx_outcome_status receipt,
                   pr_payload = receipt, pr_provider_result_recovery = evidence, pr_created_at = tx_now tx \<rparr>]\<rparr>)
            (rx_effect_id receipt) (rc_workspace_id ctx) (rx_outcome_status receipt) ReceiptRecorded
            (rx_id receipt) (rx_recorded_at receipt) None None)"

text \<open>
  \<^verbatim>\<open>ORDER BY (t.id IS NOT NULL) DESC, t.ordinal DESC, r.created_at DESC, r.id DESC LIMIT 1\<close> over the
  receipts joined with the transitions that recorded them.
\<close>

definition receipt_ordinals :: "effect_store \<Rightarrow> receipt_row \<Rightarrow> nat option list"
  where "receipt_ordinals es r =
    (case filter (\<lambda>t. tr_effect_id t = pr_effect_id r \<and> tr_workspace_id t = pr_workspace_id r \<and>
                      tr_cause t = ReceiptRecorded \<and> tr_cause_ref t = pr_id r) (es_transitions es) of
       [] \<Rightarrow> [None]
     | ts \<Rightarrow> map (\<lambda>t. Some (tr_ordinal t)) ts)"

definition find_receipt_by_effect ::
    "effect_store \<Rightarrow> request_context \<Rightarrow> uuid \<Rightarrow> (application_error, external_effect_receipt option) result"
  where "find_receipt_by_effect es ctx effect_id =
    decode_found (decode_receipt \<circ> fst)
      (max_by_key (\<lambda>(r, ordinal). (ordinal, pr_created_at r, pr_id r))
        (concat (map (\<lambda>r. map (Pair r) (receipt_ordinals es r))
          (filter (\<lambda>r. pr_effect_id r = effect_id \<and> pr_workspace_id r = rc_workspace_id ctx) (es_receipts es)))))"

section \<open>Workers and dispatches\<close>

definition record_worker_presence ::
    "transaction \<Rightarrow> effect_store \<Rightarrow> request_context \<Rightarrow> uuid \<Rightarrow> timestamp \<Rightarrow> timestamp
     \<Rightarrow> (application_error, effect_store) result"
  where "record_worker_presence tx es ctx worker_id started_at last_reported_at =
    (let row = \<lparr> wp_workspace_id = rc_workspace_id ctx, wp_worker_id = worker_id,
                 wp_started_at = stored tx started_at, wp_last_reported_at = stored tx last_reported_at,
                 wp_stopped_at = None \<rparr>;
         same = (\<lambda>p. wp_workspace_id p = rc_workspace_id ctx \<and> wp_worker_id p = worker_id)
     in if wp_last_reported_at row < wp_started_at row
        then Err (violated tx ''external_effect_worker_presence_report_not_before_start'')
        else if list_ex same (es_presence es)
        then Ok (es\<lparr>es_presence := map (\<lambda>p. if same p then row else p) (es_presence es)\<rparr>)
        else Ok (es\<lparr>es_presence := es_presence es @ [row]\<rparr>))"

definition clear_worker_presence ::
    "transaction \<Rightarrow> effect_store \<Rightarrow> request_context \<Rightarrow> uuid \<Rightarrow> timestamp \<Rightarrow> (application_error, effect_store) result"
  where "clear_worker_presence tx es ctx worker_id stopped_at =
    (let same = (\<lambda>p. wp_workspace_id p = rc_workspace_id ctx \<and> wp_worker_id p = worker_id)
     in if \<not> list_ex same (es_presence es)
        then Err (App_Storage ''external effect worker presence could not be cleared'')
        else if list_ex (\<lambda>p. same p \<and> stored tx stopped_at < wp_started_at p) (es_presence es)
        then Err (violated tx ''external_effect_worker_presence_stop_not_before_start'')
        else Ok (es\<lparr>es_presence := map (\<lambda>p. if same p then p\<lparr>wp_stopped_at := Some (stored tx stopped_at)\<rparr> else p)
                      (es_presence es)\<rparr>))"

definition record_dispatch_started_on ::
    "transaction \<Rightarrow> effect_store \<Rightarrow> request_context \<Rightarrow> uuid \<Rightarrow> uuid \<Rightarrow> timestamp \<Rightarrow> timestamp
     \<Rightarrow> (application_error, uuid \<times> effect_store) result"
  where "record_dispatch_started_on tx es ctx effect_id dispatch_owner dispatch_expires_at recorded_at =
    (if \<not> has_intent es effect_id (rc_workspace_id ctx)
     then Err (App_Storage ''external effect dispatch could not be recorded'')
     else and_then (insert_transition tx es effect_id (rc_workspace_id ctx) Effect_Dispatching DispatchStarted
            effect_id recorded_at (Some dispatch_owner) (Some dispatch_expires_at)) (\<lambda>es'.
          Ok (tx_random_uuid tx, es')))"

datatype lost_dispatch_adoption = Adoption_Adopted | Adoption_AlreadyAdopted

definition is_adopted :: "effect_store \<Rightarrow> uuid \<Rightarrow> uuid \<Rightarrow> uuid \<Rightarrow> bool"
  where "is_adopted es workspace_id effect_id dispatch_transition_id =
    list_ex (\<lambda>t. tr_workspace_id t = workspace_id \<and> tr_effect_id t = effect_id \<and>
                 tr_cause t = DispatchLost \<and> tr_cause_ref t = dispatch_transition_id) (es_transitions es)"

definition adopt_lost_dispatch_on ::
    "transaction \<Rightarrow> effect_store \<Rightarrow> request_context \<Rightarrow> uuid \<Rightarrow> uuid \<Rightarrow> timestamp
     \<Rightarrow> (application_error, lost_dispatch_adoption \<times> effect_store) result"
  where "adopt_lost_dispatch_on tx es ctx effect_id dispatch_transition_id recorded_at =
    (if list_ex (\<lambda>t. tr_id t = dispatch_transition_id \<and> tr_effect_id t = effect_id \<and>
                     tr_workspace_id t = rc_workspace_id ctx \<and> tr_status t = Effect_Dispatching) (es_transitions es)
        \<and> \<not> is_adopted es (rc_workspace_id ctx) effect_id dispatch_transition_id
     then and_then (insert_transition tx es effect_id (rc_workspace_id ctx) Effect_Unknown DispatchLost
            dispatch_transition_id recorded_at None None) (\<lambda>es'. Ok (Adoption_Adopted, es'))
     else if is_adopted es (rc_workspace_id ctx) effect_id dispatch_transition_id
     then Ok (Adoption_AlreadyAdopted, es)
     else Err (App_Storage ''external effect dispatch could not be adopted''))"

definition count_deadline_less_dispatching_transitions :: "effect_store \<Rightarrow> request_context \<Rightarrow> nat"
  where "count_deadline_less_dispatching_transitions es ctx =
    length (filter (\<lambda>t. tr_workspace_id t = rc_workspace_id ctx \<and> tr_status t = Effect_Dispatching \<and>
      tr_dispatch_expires_at t = None) (es_transitions es))"

definition find_lifecycle_status ::
    "effect_store \<Rightarrow> request_context \<Rightarrow> uuid \<Rightarrow> (application_error, effect_lifecycle_status option) result"
  where "find_lifecycle_status es ctx effect_id =
    (let own = filter (\<lambda>t. tr_effect_id t = effect_id \<and> tr_workspace_id t = rc_workspace_id ctx) (es_transitions es);
         counted = filter (\<lambda>t. tr_cause t \<noteq> DispatchLost \<or> \<not> list_ex (\<lambda>r. tr_cause r = ReceiptRecorded) own) own
     in decode_found (lifecycle_status \<circ> effect_lifecycle_status_as_str \<circ> tr_status) (max_by_key tr_ordinal counted))"

section \<open>Reconciliations\<close>

definition record_failed_recovery_attempt ::
    "transaction \<Rightarrow> effect_store \<Rightarrow> request_context \<Rightarrow> uuid \<Rightarrow> timestamp \<Rightarrow> string \<Rightarrow> (application_error, effect_store) result"
  where "record_failed_recovery_attempt tx es ctx effect_id attempted_at reason =
    (if \<not> has_intent es effect_id (rc_workspace_id ctx) then Err (App_Storage ''effect evidence not found'')
     else if btrim_blank reason
     then Err (violated tx ''external_effect_recovery_attempt_reason_not_blank'')
     else if list_ex (\<lambda>a. at_id a = tx_random_uuid tx) (es_attempts es)
     then Err (violated tx ''external_effect_recovery_attempts_pkey'')
     else Ok (es\<lparr>es_attempts := es_attempts es @
            [\<lparr> at_id = tx_random_uuid tx, at_effect_id = effect_id, at_workspace_id = rc_workspace_id ctx,
               at_attempted_at = stored tx attempted_at, at_failure_reason = reason \<rparr>]\<rparr>))"

definition decode_reconciliation :: "reconciliation_row \<Rightarrow> (application_error, external_reconciliation) result"
  where "decode_reconciliation row =
    (let x = xw_payload row in
     if xr_id x \<noteq> xw_id row \<or> xr_effect_id x \<noteq> xw_effect_id row \<or> xr_receipt_id x \<noteq> xw_receipt_id row
        \<or> xr_outcome x \<noteq> xw_outcome row \<or> xr_evidence_strength x \<noteq> xw_evidence_strength row
     then Err (App_Storage ''external reconciliation indexed metadata does not match payload'')
     else Ok x)"

definition find_reconciliation ::
    "effect_store \<Rightarrow> request_context \<Rightarrow> uuid \<Rightarrow> (application_error, external_reconciliation option) result"
  where "find_reconciliation es ctx reconciliation_id =
    decode_found decode_reconciliation
      (find (\<lambda>x. xw_id x = reconciliation_id \<and> xw_workspace_id x = rc_workspace_id ctx) (es_reconciliations es))"

definition insert_reconciliation ::
    "transaction \<Rightarrow> (uuid \<Rightarrow> string) \<Rightarrow> effect_store \<Rightarrow> request_context \<Rightarrow> external_reconciliation
     \<Rightarrow> (application_error, effect_store) result"
  where "insert_reconciliation tx show_uuid es ctx x =
    (if list_ex (\<lambda>r. xw_id r = xr_id x) (es_reconciliations es)
     then and_then (verify_insert (find_reconciliation es ctx (xr_id x)) x
            (''external reconciliation id '' @ show_uuid (xr_id x) @ '' already contains different evidence''))
            (\<lambda>_. Ok es)
     else if \<not> has_intent es (xr_effect_id x) (rc_workspace_id ctx)
     then Err (violated tx ''external_reconciliations_effect_workspace_fk'')
     else if (case xr_receipt_id x of None \<Rightarrow> False | Some receipt_id \<Rightarrow>
                \<not> list_ex (\<lambda>r. pr_id r = receipt_id \<and> pr_workspace_id r = rc_workspace_id ctx) (es_receipts es))
     then Err (violated tx ''external_reconciliations_receipt_workspace_fk'')
     else let es' = es\<lparr>es_reconciliations := es_reconciliations es @
            [\<lparr> xw_id = xr_id x, xw_effect_id = xr_effect_id x, xw_receipt_id = xr_receipt_id x,
               xw_workspace_id = rc_workspace_id ctx, xw_outcome = xr_outcome x,
               xw_evidence_strength = xr_evidence_strength x, xw_reconciled_at = stored tx (xr_reconciled_at x),
               xw_notified_at = None, xw_payload = x \<rparr>]\<rparr> in
       if reconciliation_outcome_is_settled (xr_outcome x)
       then insert_transition tx es' (xr_effect_id x) (rc_workspace_id ctx) Effect_Reconciling OutcomeSettled
              (xr_id x) (xr_reconciled_at x) None None
       else Ok es')"

section \<open>Recovery candidates\<close>

datatype lost_dispatch_recovery = NeedsAdoption uuid | Adopted uuid

fun dispatch_transition_id :: "lost_dispatch_recovery \<Rightarrow> uuid"
  where
    "dispatch_transition_id (NeedsAdoption i) = i"
  | "dispatch_transition_id (Adopted i) = i"

fun needs_adoption :: "lost_dispatch_recovery \<Rightarrow> bool"
  where
    "needs_adoption (NeedsAdoption _) = True"
  | "needs_adoption (Adopted _) = False"

record external_effect_recovery_candidate =
  rv_intent :: external_effect_intent
  rv_receipt :: "external_effect_receipt option"
  rv_lost_dispatch :: "lost_dispatch_recovery option"

definition recovery_candidate_new ::
    "external_effect_intent \<Rightarrow> external_effect_receipt option
     \<Rightarrow> (application_error, external_effect_recovery_candidate) result"
  where "recovery_candidate_new intent receipt =
    (if (case receipt of Some r \<Rightarrow> rx_effect_id r \<noteq> ei_id intent | None \<Rightarrow> False)
     then Err (App_Domain (InvalidArgument ''external effect recovery receipt does not belong to intent''))
     else if (case receipt of Some r \<Rightarrow> \<not> requires_reconciliation r | None \<Rightarrow> False)
     then Err (App_Domain (PolicyViolation ''external effect recovery requires an acknowledged or unknown receipt''))
     else if receipt = None
     then Err (App_Domain (InvalidArgument ''receipt-less recovery requires a dispatch transition identity''))
     else Ok \<lparr> rv_intent = intent, rv_receipt = receipt, rv_lost_dispatch = None \<rparr>)"

definition for_lost_dispatch :: "external_effect_intent \<Rightarrow> uuid \<Rightarrow> bool \<Rightarrow> external_effect_recovery_candidate"
  where "for_lost_dispatch intent transition_id already_adopted =
    \<lparr> rv_intent = intent, rv_receipt = None,
      rv_lost_dispatch = Some (if already_adopted then Adopted transition_id else NeedsAdoption transition_id) \<rparr>"

definition last_reconciliation :: "effect_store \<Rightarrow> uuid \<Rightarrow> uuid \<Rightarrow> uuid option \<Rightarrow> reconciliation_row option"
  where "last_reconciliation es workspace_id effect_id receipt_id =
    max_by_key (\<lambda>x. (xw_reconciled_at x, xw_id x))
      (filter (\<lambda>x. xw_effect_id x = effect_id \<and> xw_receipt_id x = receipt_id \<and> xw_workspace_id x = workspace_id)
        (es_reconciliations es))"

definition last_failed_attempt :: "effect_store \<Rightarrow> uuid \<Rightarrow> uuid \<Rightarrow> attempt_row option"
  where "last_failed_attempt es workspace_id effect_id =
    max_by_key (\<lambda>a. (at_attempted_at a, at_id a))
      (filter (\<lambda>a. at_effect_id a = effect_id \<and> at_workspace_id a = workspace_id) (es_attempts es))"

text \<open>The cutoffs that the query binds, as the database sees them.\<close>

record cutoffs =
  cu_retry_unsettled_before :: timestamp
  cu_retry_failed_before :: timestamp
  cu_dispatch_expired_before :: timestamp
  cu_worker_lapsed_before :: timestamp

text \<open>The two conditions on earlier answers and on failed attempts, with the nulls of the outer joins.\<close>

definition worth_asking :: "effect_store \<Rightarrow> cutoffs \<Rightarrow> uuid \<Rightarrow> uuid \<Rightarrow> uuid option \<Rightarrow> bool"
  where "worth_asking es cu workspace_id effect_id receipt_id \<longleftrightarrow>
    (let last = last_reconciliation es workspace_id effect_id receipt_id;
         failed = last_failed_attempt es workspace_id effect_id in
     (case last of None \<Rightarrow> True
      | Some x \<Rightarrow> reconciliation_outcome_name (xw_outcome x) \<notin> set reconciliation_outcome_settled_names \<and>
                  xw_reconciled_at x < cu_retry_unsettled_before cu) \<and>
     (case failed of None \<Rightarrow> True
      | Some a \<Rightarrow> (case last of None \<Rightarrow> False | Some x \<Rightarrow> xw_reconciled_at x > at_attempted_at a)
                  \<or> at_attempted_at a < cu_retry_failed_before cu))"

definition dispatch_expired :: "effect_store \<Rightarrow> cutoffs \<Rightarrow> transition_row \<Rightarrow> bool"
  where "dispatch_expired es cu t \<longleftrightarrow>
    (case tr_dispatch_expires_at t of None \<Rightarrow> False
     | Some expires_at \<Rightarrow> expires_at < cu_dispatch_expired_before cu
         \<or> (case find (\<lambda>p. wp_workspace_id p = tr_workspace_id t \<and> Some (wp_worker_id p) = tr_dispatch_owner t)
                  (es_presence es) of
              None \<Rightarrow> False
            | Some p \<Rightarrow> wp_stopped_at p \<noteq> None \<or> wp_last_reported_at p < cu_worker_lapsed_before cu))"

definition lost_dispatch :: "effect_store \<Rightarrow> cutoffs \<Rightarrow> transition_row \<Rightarrow> bool"
  where "lost_dispatch es cu t \<longleftrightarrow>
    ((tr_status t = Effect_Dispatching \<and> dispatch_expired es cu t)
     \<or> (tr_status t = Effect_Unknown \<and> tr_cause t = DispatchLost \<and> tr_recorded_at t < cu_retry_unsettled_before cu)) \<and>
    \<not> list_ex (\<lambda>r. pr_effect_id r = tr_effect_id t \<and> pr_workspace_id r = tr_workspace_id t) (es_receipts es) \<and>
    \<not> list_ex (\<lambda>n. tr_effect_id n = tr_effect_id t \<and> tr_workspace_id n = tr_workspace_id t \<and>
                   tr_ordinal n > tr_ordinal t) (es_transitions es)"

record candidate_row =
  cr_at :: timestamp
  cr_intent :: intent_row
  cr_receipt :: "receipt_row option"
  cr_dispatch :: "(uuid \<times> bool) option"

definition receipt_candidates :: "effect_store \<Rightarrow> cutoffs \<Rightarrow> uuid \<Rightarrow> candidate_row list"
  where "receipt_candidates es cu workspace_id =
    [\<lparr> cr_at = pr_created_at r, cr_intent = i, cr_receipt = Some r, cr_dispatch = None \<rparr>.
       r \<leftarrow> es_receipts es, i \<leftarrow> es_intents es,
       ir_id i = pr_effect_id r \<and> ir_workspace_id i = workspace_id \<and> pr_workspace_id r = workspace_id \<and>
       pr_outcome_status r \<in> {Effect_Unknown, Effect_Acknowledged} \<and>
       worth_asking es cu workspace_id (ir_id i) (Some (pr_id r))]"

definition dispatch_candidates :: "effect_store \<Rightarrow> cutoffs \<Rightarrow> uuid \<Rightarrow> candidate_row list"
  where "dispatch_candidates es cu workspace_id =
    [\<lparr> cr_at = tr_recorded_at t, cr_intent = i, cr_receipt = None,
       cr_dispatch = Some (if tr_cause t = DispatchLost then tr_cause_ref t else tr_id t, tr_cause t = DispatchLost) \<rparr>.
       t \<leftarrow> es_transitions es, i \<leftarrow> es_intents es,
       ir_id i = tr_effect_id t \<and> ir_workspace_id i = workspace_id \<and> tr_workspace_id t = workspace_id \<and>
       lost_dispatch es cu t \<and> worth_asking es cu workspace_id (ir_id i) None]"

text \<open>\<^verbatim>\<open>ORDER BY candidate_at ASC, intent_id ASC, receipt_id ASC NULLS FIRST LIMIT $7\<close>.\<close>

definition candidate_rows :: "effect_store \<Rightarrow> cutoffs \<Rightarrow> uuid \<Rightarrow> nat \<Rightarrow> candidate_row list"
  where "candidate_rows es cu workspace_id limit =
    take limit (sort_key (\<lambda>c. (cr_at c, ir_id (cr_intent c), map_option pr_id (cr_receipt c)))
      (receipt_candidates es cu workspace_id @ dispatch_candidates es cu workspace_id))"

definition decode_candidate :: "candidate_row \<Rightarrow> (application_error, external_effect_recovery_candidate) result"
  where "decode_candidate row =
    (let intent = ir_payload (cr_intent row) in
     if ei_id intent \<noteq> ir_id (cr_intent row) \<or> ei_workspace_id intent \<noteq> ir_workspace_id (cr_intent row)
        \<or> ei_adapter intent \<noteq> ir_adapter (cr_intent row)
     then Err (App_Storage ''external effect recovery intent indexed metadata does not match payload'')
     else case cr_receipt row of
       Some r \<Rightarrow>
         (if rx_id (pr_payload r) \<noteq> pr_id r \<or> rx_effect_id (pr_payload r) \<noteq> pr_effect_id r
             \<or> rx_outcome_status (pr_payload r) \<noteq> pr_outcome_status r
          then Err (App_Storage ''external effect recovery receipt indexed metadata does not match payload'')
          else recovery_candidate_new intent (Some (pr_payload r)))
     | None \<Rightarrow>
         and_then (ok_or (App_Storage ''receipt-less recovery candidate is missing dispatch transition id'')
                    (cr_dispatch row)) (\<lambda>(transition_id, adopted).
         Ok (for_lost_dispatch intent transition_id adopted)))"

definition worker_presence_lapse_after :: int
  where "worker_presence_lapse_after = 60 * 1000000000"

definition query_cutoffs :: "transaction \<Rightarrow> timestamp \<Rightarrow> timestamp \<Rightarrow> timestamp \<Rightarrow> cutoffs"
  where "query_cutoffs tx retry_unsettled_before retry_failed_before dispatch_expired_before =
    \<lparr> cu_retry_unsettled_before = stored tx retry_unsettled_before,
      cu_retry_failed_before = stored tx retry_failed_before,
      cu_dispatch_expired_before = stored tx dispatch_expired_before,
      cu_worker_lapsed_before = stored tx (dispatch_expired_before - worker_presence_lapse_after) \<rparr>"

definition find_reconciliation_candidates ::
    "transaction \<Rightarrow> effect_store \<Rightarrow> request_context \<Rightarrow> timestamp \<Rightarrow> timestamp \<Rightarrow> timestamp \<Rightarrow> nat
     \<Rightarrow> (application_error, external_effect_recovery_candidate list) result"
  where "find_reconciliation_candidates tx es ctx retry_unsettled_before retry_failed_before
      dispatch_expired_before limit =
    collect_results (map decode_candidate (candidate_rows es
      (query_cutoffs tx retry_unsettled_before retry_failed_before dispatch_expired_before)
      (rc_workspace_id ctx) limit))"

section \<open>Outcomes owed to runs\<close>

record undelivered_row =
  uw_reconciliation :: external_reconciliation
  uw_intent :: external_effect_intent

definition find_undelivered_outcomes :: "effect_store \<Rightarrow> request_context \<Rightarrow> nat \<Rightarrow> undelivered_row list"
  where "find_undelivered_outcomes es ctx limit =
    map (\<lambda>(x, i). \<lparr> uw_reconciliation = xw_payload x, uw_intent = ir_payload i \<rparr>)
      (take limit (sort_key (\<lambda>(x, i). (xw_reconciled_at x, xw_id x))
        [(x, i). x \<leftarrow> es_reconciliations es, i \<leftarrow> es_intents es,
           ir_id i = xw_effect_id x \<and> ir_workspace_id i = xw_workspace_id x \<and>
           xw_workspace_id x = rc_workspace_id ctx \<and> xw_notified_at x = None \<and>
           reconciliation_outcome_name (xw_outcome x) \<in> set reconciliation_outcome_settled_names]))"

definition mark_outcome_delivered ::
    "transaction \<Rightarrow> effect_store \<Rightarrow> request_context \<Rightarrow> uuid \<Rightarrow> timestamp \<Rightarrow> (application_error, effect_store) result"
  where "mark_outcome_delivered tx es ctx reconciliation_id at =
    (let hit = (\<lambda>x. xw_id x = reconciliation_id \<and> xw_workspace_id x = rc_workspace_id ctx \<and> xw_notified_at x = None)
     in case find hit (es_reconciliations es) of
       None \<Rightarrow> Ok es
     | Some x \<Rightarrow>
         (let es' = es\<lparr>es_reconciliations :=
                map (\<lambda>y. if hit y then y\<lparr>xw_notified_at := Some (stored tx at)\<rparr> else y) (es_reconciliations es)\<rparr>
          in case xw_outcome x of
               Outcome_Confirmed \<Rightarrow> insert_transition tx es' (xw_effect_id x) (rc_workspace_id ctx)
                 Effect_Confirmed OutcomeDelivered reconciliation_id at None None
             | Outcome_NotApplied \<Rightarrow> insert_transition tx es' (xw_effect_id x) (rc_workspace_id ctx)
                 Effect_Failed OutcomeDelivered reconciliation_id at None None
             | _ \<Rightarrow> Err (App_Storage ''only a settled external effect outcome can be delivered'')))"

section \<open>The evidence is consistent\<close>

text \<open>
  Keys are unique, every row refers to an intent of its workspace and agrees with its payload, and
  the transitions are in the order of their ordinals.  A transition that a receipt or a settled
  reconciliation caused has that row behind it.
\<close>

definition intents_ok :: "effect_store \<Rightarrow> bool"
  where "intents_ok es \<longleftrightarrow> distinct (map ir_id (es_intents es)) \<and>
    (\<forall>i\<in>set (es_intents es). ei_id (ir_payload i) = ir_id i \<and>
       ei_workspace_id (ir_payload i) = ir_workspace_id i \<and> ei_adapter (ir_payload i) = ir_adapter i)"

definition receipts_ok :: "effect_store \<Rightarrow> bool"
  where "receipts_ok es \<longleftrightarrow> distinct (map pr_id (es_receipts es)) \<and>
    (\<forall>r\<in>set (es_receipts es). has_intent es (pr_effect_id r) (pr_workspace_id r) \<and>
       rx_id (pr_payload r) = pr_id r \<and> rx_effect_id (pr_payload r) = pr_effect_id r \<and>
       rx_outcome_status (pr_payload r) = pr_outcome_status r \<and> cause_qualified (pr_outcome_status r) ReceiptRecorded)"

definition reconciliations_ok :: "effect_store \<Rightarrow> bool"
  where "reconciliations_ok es \<longleftrightarrow> distinct (map xw_id (es_reconciliations es)) \<and>
    (\<forall>x\<in>set (es_reconciliations es). has_intent es (xw_effect_id x) (xw_workspace_id x) \<and>
       xr_id (xw_payload x) = xw_id x \<and> xr_effect_id (xw_payload x) = xw_effect_id x \<and>
       xr_receipt_id (xw_payload x) = xw_receipt_id x \<and> xr_outcome (xw_payload x) = xw_outcome x \<and>
       xr_evidence_strength (xw_payload x) = xw_evidence_strength x)"

definition backed :: "effect_store \<Rightarrow> transition_row \<Rightarrow> bool"
  where "backed es t \<longleftrightarrow> has_intent es (tr_effect_id t) (tr_workspace_id t) \<and>
    cause_qualified (tr_status t) (tr_cause t) \<and> ownership_qualified t \<and>
    (tr_cause t = ReceiptRecorded \<longrightarrow> (\<exists>r\<in>set (es_receipts es).
       pr_id r = tr_cause_ref t \<and> pr_effect_id r = tr_effect_id t \<and> pr_workspace_id r = tr_workspace_id t \<and>
       pr_outcome_status r = tr_status t)) \<and>
    (tr_cause t \<in> {OutcomeSettled, OutcomeDelivered} \<longrightarrow> (\<exists>x\<in>set (es_reconciliations es).
       xw_id x = tr_cause_ref t \<and> xw_effect_id x = tr_effect_id t \<and> xw_workspace_id x = tr_workspace_id t \<and>
       reconciliation_outcome_is_settled (xw_outcome x)))"

definition transitions_ok :: "effect_store \<Rightarrow> bool"
  where "transitions_ok es \<longleftrightarrow> sorted_wrt (<) (map tr_ordinal (es_transitions es)) \<and>
    (\<forall>t\<in>set (es_transitions es). tr_ordinal t < es_ordinal_seq es \<and> backed es t)"

definition effects_ok :: "effect_store \<Rightarrow> bool"
  where "effects_ok es \<longleftrightarrow> intents_ok es \<and> receipts_ok es \<and> reconciliations_ok es \<and> transitions_ok es"

definition empty_effect_store :: effect_store
  where "empty_effect_store =
    \<lparr> es_intents = [], es_receipts = [], es_authorizations = [], es_transitions = [], es_reconciliations = [],
      es_attempts = [], es_presence = [], es_ordinal_seq = 0 \<rparr>"

lemmas effects_ok_defs = effects_ok_def intents_ok_def receipts_ok_def reconciliations_ok_def transitions_ok_def

lemma empty_effects_ok [simp]: "effects_ok empty_effect_store"
  by (simp add: effects_ok_defs empty_effect_store_def)

lemma has_intent_iff:
  "has_intent es e ws \<longleftrightarrow> (\<exists>i\<in>set (es_intents es). ir_id i = e \<and> ir_workspace_id i = ws)"
  by (auto simp: has_intent_def list_ex_iff)

lemma has_intent_cong [simp]:
  "has_intent (es\<lparr>es_receipts := a\<rparr>) = has_intent es"
  "has_intent (es\<lparr>es_authorizations := b\<rparr>) = has_intent es"
  "has_intent (es\<lparr>es_transitions := c\<rparr>) = has_intent es"
  "has_intent (es\<lparr>es_reconciliations := d\<rparr>) = has_intent es"
  "has_intent (es\<lparr>es_attempts := f\<rparr>) = has_intent es"
  "has_intent (es\<lparr>es_presence := g\<rparr>) = has_intent es"
  "has_intent (es\<lparr>es_ordinal_seq := n\<rparr>) = has_intent es"
  by (simp_all add: fun_eq_iff has_intent_def)

lemma backed_mono:
  assumes "backed es t" "set (es_intents es) \<subseteq> set (es_intents es')" "set (es_receipts es) \<subseteq> set (es_receipts es')"
    and "\<And>x. x \<in> set (es_reconciliations es) \<Longrightarrow> \<exists>y\<in>set (es_reconciliations es'). xw_id y = xw_id x \<and>
      xw_effect_id y = xw_effect_id x \<and> xw_workspace_id y = xw_workspace_id x \<and> xw_outcome y = xw_outcome x"
  shows "backed es' t"
proof -
  have "\<exists>y\<in>set (es_reconciliations es'). xw_id y = tr_cause_ref t \<and> xw_effect_id y = tr_effect_id t \<and>
      xw_workspace_id y = tr_workspace_id t \<and> reconciliation_outcome_is_settled (xw_outcome y)"
    if cause: "tr_cause t \<in> {OutcomeSettled, OutcomeDelivered}"
  proof -
    obtain x where x: "x \<in> set (es_reconciliations es)" "xw_id x = tr_cause_ref t" "xw_effect_id x = tr_effect_id t"
        "xw_workspace_id x = tr_workspace_id t" "reconciliation_outcome_is_settled (xw_outcome x)"
      using assms(1) cause by (auto simp: backed_def)
    show ?thesis
      using assms(4) [OF x(1)] x(2-5) by auto
  qed
  moreover have "has_intent es' (tr_effect_id t) (tr_workspace_id t)"
    using assms(1,2) by (auto simp: backed_def has_intent_iff)
  ultimately show ?thesis
    using assms(1,3) unfolding backed_def by blast
qed

lemma insert_transition_Ok:
  assumes "insert_transition tx es e ws st c ref at owner expires = Ok es'"
  obtains row where "es' = es\<lparr>es_transitions := es_transitions es @ [row], es_ordinal_seq := Suc (es_ordinal_seq es)\<rparr>"
    and "row = \<lparr> tr_id = tx_random_uuid tx, tr_effect_id = e, tr_workspace_id = ws, tr_status = st, tr_cause = c,
      tr_cause_ref = ref, tr_recorded_at = stored tx at, tr_dispatch_owner = owner,
      tr_dispatch_expires_at = map_option (stored tx) expires, tr_ordinal = es_ordinal_seq es \<rparr>"
    and "has_intent es e ws" "cause_qualified st c" "ownership_qualified row"
    and "\<forall>t\<in>set (es_transitions es). tr_id t \<noteq> tr_id row \<and> \<not> same_loss row t"
proof (rule that)
  let ?row = "\<lparr> tr_id = tx_random_uuid tx, tr_effect_id = e, tr_workspace_id = ws, tr_status = st, tr_cause = c,
      tr_cause_ref = ref, tr_recorded_at = stored tx at, tr_dispatch_owner = owner,
      tr_dispatch_expires_at = map_option (stored tx) expires, tr_ordinal = es_ordinal_seq es \<rparr>"
  show "es' = es\<lparr>es_transitions := es_transitions es @ [?row], es_ordinal_seq := Suc (es_ordinal_seq es)\<rparr>"
      "has_intent es e ws" "cause_qualified st c" "ownership_qualified ?row"
    using assms unfolding insert_transition_def Let_def by (simp_all split: if_splits)
  show "\<forall>t\<in>set (es_transitions es). tr_id t \<noteq> tr_id ?row \<and> \<not> same_loss ?row t"
    using assms unfolding insert_transition_def Let_def list_ex_iff by (auto split: if_splits)
qed simp

text \<open>What a transition needs behind it besides the intent that the foreign key asks for.\<close>

lemma transition_added:
  assumes ok: "effects_ok es"
    and ins: "insert_transition tx es e ws st c ref at owner expires = Ok es'"
    and receipt: "c = ReceiptRecorded \<Longrightarrow> \<exists>r\<in>set (es_receipts es).
       pr_id r = ref \<and> pr_effect_id r = e \<and> pr_workspace_id r = ws \<and> pr_outcome_status r = st"
    and settled: "c \<in> {OutcomeSettled, OutcomeDelivered} \<Longrightarrow> \<exists>x\<in>set (es_reconciliations es).
       xw_id x = ref \<and> xw_effect_id x = e \<and> xw_workspace_id x = ws \<and> reconciliation_outcome_is_settled (xw_outcome x)"
  shows "effects_ok es'"
proof -
  obtain row where row: "es' = es\<lparr>es_transitions := es_transitions es @ [row], es_ordinal_seq := Suc (es_ordinal_seq es)\<rparr>"
      "tr_effect_id row = e" "tr_workspace_id row = ws" "tr_status row = st" "tr_cause row = c" "tr_cause_ref row = ref"
      "tr_ordinal row = es_ordinal_seq es" "has_intent es e ws" "cause_qualified st c" "ownership_qualified row"
    by (rule insert_transition_Ok [OF ins]) simp
  have "backed es row"
    unfolding backed_def using row(2-10) receipt settled by simp
  moreover have "backed es' t = backed es t" for t
    unfolding row(1) backed_def by simp
  moreover have "transitions_ok es" and rest: "intents_ok es" "receipts_ok es" "reconciliations_ok es"
    using ok by (simp_all add: effects_ok_def)
  ultimately have "transitions_ok es'"
    unfolding transitions_ok_def row(1) using row(7)
    by (auto simp: sorted_wrt_append intro: less_SucI)
  then show ?thesis
    unfolding effects_ok_def using rest
    by (simp add: row(1) intents_ok_def receipts_ok_def reconciliations_ok_def)
qed

lemma intent_row_added:
  assumes "effects_ok es" "\<forall>i\<in>set (es_intents es). ir_id i \<noteq> ir_id row"
    and "ei_id (ir_payload row) = ir_id row" "ei_workspace_id (ir_payload row) = ir_workspace_id row"
    and "ei_adapter (ir_payload row) = ir_adapter row"
  shows "effects_ok (es\<lparr>es_intents := es_intents es @ [row]\<rparr>)"
proof -
  let ?es = "es\<lparr>es_intents := es_intents es @ [row]\<rparr>"
  have hi: "has_intent ?es e ws" if "has_intent es e ws" for e ws
    using that by (auto simp: has_intent_iff)
  have "backed ?es t" if "backed es t" for t
    using that by (rule backed_mono) auto
  then show ?thesis
    using assms hi unfolding effects_ok_defs by auto
qed

lemma receipt_row_added:
  assumes "effects_ok es" "\<forall>r\<in>set (es_receipts es). pr_id r \<noteq> pr_id row"
    and "has_intent es (pr_effect_id row) (pr_workspace_id row)" "rx_id (pr_payload row) = pr_id row"
    and "rx_effect_id (pr_payload row) = pr_effect_id row" "rx_outcome_status (pr_payload row) = pr_outcome_status row"
    and "cause_qualified (pr_outcome_status row) ReceiptRecorded"
  shows "effects_ok (es\<lparr>es_receipts := es_receipts es @ [row]\<rparr>)"
proof -
  have "backed (es\<lparr>es_receipts := es_receipts es @ [row]\<rparr>) t" if "backed es t" for t
    using that by (rule backed_mono) auto
  then show ?thesis
    using assms unfolding effects_ok_defs by auto
qed

lemma reconciliation_row_added:
  assumes "effects_ok es" "\<forall>x\<in>set (es_reconciliations es). xw_id x \<noteq> xw_id row"
    and "has_intent es (xw_effect_id row) (xw_workspace_id row)" "xr_id (xw_payload row) = xw_id row"
    and "xr_effect_id (xw_payload row) = xw_effect_id row" "xr_receipt_id (xw_payload row) = xw_receipt_id row"
    and "xr_outcome (xw_payload row) = xw_outcome row"
    and "xr_evidence_strength (xw_payload row) = xw_evidence_strength row"
  shows "effects_ok (es\<lparr>es_reconciliations := es_reconciliations es @ [row]\<rparr>)"
proof -
  have "backed (es\<lparr>es_reconciliations := es_reconciliations es @ [row]\<rparr>) t" if "backed es t" for t
    using that by (rule backed_mono) auto
  then show ?thesis
    using assms unfolding effects_ok_defs by auto
qed

lemma notified_ok:
  assumes "effects_ok es"
  shows "effects_ok (es\<lparr>es_reconciliations :=
    map (\<lambda>y. if hit y then y\<lparr>xw_notified_at := n\<rparr> else y) (es_reconciliations es)\<rparr>)"
proof -
  let ?f = "\<lambda>y. if hit y then y\<lparr>xw_notified_at := n\<rparr> else y"
  let ?es = "es\<lparr>es_reconciliations := map ?f (es_reconciliations es)\<rparr>"
  have kept: "\<exists>y\<in>set (es_reconciliations ?es). xw_id y = xw_id x \<and> xw_effect_id y = xw_effect_id x \<and>
      xw_workspace_id y = xw_workspace_id x \<and> xw_outcome y = xw_outcome x" if "x \<in> set (es_reconciliations es)" for x
    using that by (intro bexI [of _ "?f x"]) auto
  have "backed ?es t" if "backed es t" for t
    by (rule backed_mono [OF that]) (use kept in auto)
  moreover have "xw_id \<circ> ?f = xw_id"
    by (simp add: fun_eq_iff)
  ultimately show ?thesis
    using assms unfolding effects_ok_defs by auto
qed

lemma other_tables_ok [simp]:
  "effects_ok (es\<lparr>es_authorizations := a\<rparr>) = effects_ok es"
  "effects_ok (es\<lparr>es_attempts := b\<rparr>) = effects_ok es"
  "effects_ok (es\<lparr>es_presence := c\<rparr>) = effects_ok es"
  by (simp_all add: effects_ok_defs backed_def)

section \<open>What each operation adds\<close>

text \<open>
  Rows are only added, except that an outcome is marked as delivered once; \<open>P\<close> holds of the
  transitions that are new.
\<close>

definition grows :: "effect_store \<Rightarrow> effect_store \<Rightarrow> bool"
  where "grows es es' \<longleftrightarrow>
    set (es_intents es) \<subseteq> set (es_intents es') \<and> set (es_receipts es) \<subseteq> set (es_receipts es') \<and>
    set (es_authorizations es) \<subseteq> set (es_authorizations es') \<and>
    set (es_transitions es) \<subseteq> set (es_transitions es') \<and>
    (\<forall>x\<in>set (es_reconciliations es). \<exists>n. x\<lparr>xw_notified_at := n\<rparr> \<in> set (es_reconciliations es') \<and>
       (xw_notified_at x \<noteq> None \<longrightarrow> n = xw_notified_at x))"

definition evolves :: "(transition_row \<Rightarrow> bool) \<Rightarrow> effect_store \<Rightarrow> effect_store \<Rightarrow> bool"
  where "evolves P es es' \<longleftrightarrow> effects_ok es' \<and> grows es es' \<and>
    (\<exists>ts. es_transitions es' = es_transitions es @ ts \<and> list_all P ts)"

lemma reconciliations_kept:
  assumes "set xs \<subseteq> set ys" "x \<in> set xs"
  shows "\<exists>n. x\<lparr>xw_notified_at := n\<rparr> \<in> set ys \<and> (xw_notified_at x \<noteq> None \<longrightarrow> n = xw_notified_at x)"
  using assms by (intro exI [of _ "xw_notified_at x"]) auto

lemma growsI:
  assumes "set (es_intents es) \<subseteq> set (es_intents es')" "set (es_receipts es) \<subseteq> set (es_receipts es')"
    and "set (es_authorizations es) \<subseteq> set (es_authorizations es')"
    and "set (es_transitions es) \<subseteq> set (es_transitions es')"
    and "set (es_reconciliations es) \<subseteq> set (es_reconciliations es')"
  shows "grows es es'"
  using assms reconciliations_kept [OF assms(5)] unfolding grows_def by blast

lemma grows_refl [simp]: "grows es es"
  by (rule growsI) simp_all

lemma grows_trans:
  assumes "grows es es1" "grows es1 es2"
  shows "grows es es2"
proof -
  have "\<exists>n. x\<lparr>xw_notified_at := n\<rparr> \<in> set (es_reconciliations es2) \<and> (xw_notified_at x \<noteq> None \<longrightarrow> n = xw_notified_at x)"
    if x: "x \<in> set (es_reconciliations es)" for x
  proof -
    obtain n where n: "x\<lparr>xw_notified_at := n\<rparr> \<in> set (es_reconciliations es1)" "xw_notified_at x \<noteq> None \<longrightarrow> n = xw_notified_at x"
      using assms(1) x unfolding grows_def by blast
    then obtain m where "x\<lparr>xw_notified_at := n\<rparr>\<lparr>xw_notified_at := m\<rparr> \<in> set (es_reconciliations es2)"
        "xw_notified_at (x\<lparr>xw_notified_at := n\<rparr>) \<noteq> None \<longrightarrow> m = xw_notified_at (x\<lparr>xw_notified_at := n\<rparr>)"
      using assms(2) unfolding grows_def by blast
    then show ?thesis
      using n(2) by (intro exI [of _ m]) auto
  qed
  then show ?thesis
    using assms unfolding grows_def by (meson order_trans)
qed

lemma evolves_refl [simp]: "evolves P es es \<longleftrightarrow> effects_ok es"
  by (auto simp: evolves_def)

lemma evolves_transition:
  assumes ok: "effects_ok es1" and same: "es_transitions es1 = es_transitions es" and grow: "grows es es1"
    and ins: "insert_transition tx es1 e ws st c ref at owner expires = Ok es'"
    and receipt: "c = ReceiptRecorded \<Longrightarrow> \<exists>r\<in>set (es_receipts es1).
       pr_id r = ref \<and> pr_effect_id r = e \<and> pr_workspace_id r = ws \<and> pr_outcome_status r = st"
    and settled: "c \<in> {OutcomeSettled, OutcomeDelivered} \<Longrightarrow> \<exists>x\<in>set (es_reconciliations es1).
       xw_id x = ref \<and> xw_effect_id x = e \<and> xw_workspace_id x = ws \<and> reconciliation_outcome_is_settled (xw_outcome x)"
    and P: "\<And>t. tr_effect_id t = e \<Longrightarrow> tr_workspace_id t = ws \<Longrightarrow> tr_cause t = c \<Longrightarrow> P t"
  shows "evolves P es es'"
proof -
  obtain row where row: "es' = es1\<lparr>es_transitions := es_transitions es1 @ [row], es_ordinal_seq := Suc (es_ordinal_seq es1)\<rparr>"
      "tr_effect_id row = e" "tr_workspace_id row = ws" "tr_cause row = c"
    by (rule insert_transition_Ok [OF ins]) simp
  have "grows es1 es'"
    unfolding row(1) by (rule growsI) auto
  then show ?thesis
    unfolding evolves_def using transition_added [OF ok ins receipt settled] grows_trans [OF grow] P row same by auto
qed

lemma find_SomeD: "find P xs = Some x \<Longrightarrow> x \<in> set xs \<and> P x"
  by (auto simp: find_Some_iff)

lemma insert_intent_Ok:
  assumes ok: "effects_ok es" and ins: "insert_intent_on tx shw es ctx intent = Ok es'"
  shows "evolves (\<lambda>t. tr_effect_id t = ei_id intent \<and> tr_cause t = IntentRecorded \<and>
      (\<forall>u\<in>set (es_transitions es). tr_effect_id u \<noteq> ei_id intent)) es es'"
    and "\<exists>i\<in>set (es_intents es'). ir_payload i = intent \<and> ir_id i = ei_id intent \<and>
      ir_workspace_id i = ei_workspace_id intent"
    and "ei_workspace_id intent = rc_workspace_id ctx"
proof -
  let ?row = "\<lparr> ir_id = ei_id intent, ir_workspace_id = ei_workspace_id intent, ir_adapter = ei_adapter intent,
                 ir_payload = intent \<rparr>"
  let ?es1 = "es\<lparr>es_intents := es_intents es @ [?row]\<rparr>"
  show ws: "ei_workspace_id intent = rc_workspace_id ctx"
    using ins by (auto simp: insert_intent_on_def split: if_splits)
  consider (old) "es' = es" "find_intent es ctx (ei_id intent) = Ok (Some intent)"
    | (new) "\<forall>i\<in>set (es_intents es). ir_id i \<noteq> ei_id intent"
        "insert_transition tx ?es1 (ei_id intent) (rc_workspace_id ctx) Effect_Prepared IntentRecorded
           (ei_id intent) (ei_created_at intent) None None = Ok es'"
    using ins ws
    by (auto simp: insert_intent_on_def verify_insert_def and_then_Ok_iff list_ex_iff split: if_splits option.splits)
  then have "evolves (\<lambda>t. tr_effect_id t = ei_id intent \<and> tr_cause t = IntentRecorded \<and>
      (\<forall>u\<in>set (es_transitions es). tr_effect_id u \<noteq> ei_id intent)) es es' \<and>
    (\<exists>i\<in>set (es_intents es'). ir_payload i = intent \<and> ir_id i = ei_id intent \<and>
      ir_workspace_id i = ei_workspace_id intent)"
  proof cases
    case old
    then obtain i where i: "find (\<lambda>i. ir_id i = ei_id intent \<and> ir_workspace_id i = rc_workspace_id ctx) (es_intents es) = Some i"
        "ir_payload i = intent"
      by (auto simp: find_intent_def decode_found_def decode_intent_def and_then_Ok_iff Let_def
            split: option.splits if_splits)
    note i = i(2) find_SomeD [OF i(1)]
    then show ?thesis
      using old ok ws by auto
  next
    case new
    have "\<forall>u\<in>set (es_transitions es). tr_effect_id u \<noteq> ei_id intent"
      using ok new(1) by (force simp: effects_ok_def transitions_ok_def backed_def has_intent_iff)
    moreover have "effects_ok ?es1"
      by (rule intent_row_added) (use ok new(1) in simp_all)
    moreover have "grows es ?es1"
      by (rule growsI) auto
    ultimately have "evolves (\<lambda>t. tr_effect_id t = ei_id intent \<and> tr_cause t = IntentRecorded \<and>
        (\<forall>u\<in>set (es_transitions es). tr_effect_id u \<noteq> ei_id intent)) es es'"
      using new(2) by (intro evolves_transition [of ?es1 es]) simp_all
    moreover have "?row \<in> set (es_intents es')"
      by (rule insert_transition_Ok [OF new(2)]) simp
    ultimately show ?thesis
      by force
  qed
  then show "evolves (\<lambda>t. tr_effect_id t = ei_id intent \<and> tr_cause t = IntentRecorded \<and>
      (\<forall>u\<in>set (es_transitions es). tr_effect_id u \<noteq> ei_id intent)) es es'"
    and "\<exists>i\<in>set (es_intents es'). ir_payload i = intent \<and> ir_id i = ei_id intent \<and>
      ir_workspace_id i = ei_workspace_id intent"
    by blast+
qed

lemma record_authorization_Ok:
  assumes ok: "effects_ok es" and ins: "record_authorization_on tx es ctx e d = Ok es'"
  shows "evolves (\<lambda>t. tr_effect_id t = e \<and> tr_cause t = AuthorizationRecorded) es es'"
    and "authorization_row_of tx ctx e d \<in> set (es_authorizations es')"
    and "\<forall>a\<in>set (es_authorizations es). az_id a \<noteq> pd_id d"
proof -
  let ?es1 = "es\<lparr>es_authorizations := es_authorizations es @ [authorization_row_of tx ctx e d]\<rparr>"
  have cases: "(if is_allowed d then insert_transition tx ?es1 e (rc_workspace_id ctx) Effect_Authorized
      AuthorizationRecorded (pd_id d) (pd_decided_at d) None None else Ok ?es1) = Ok es'"
    and "\<forall>a\<in>set (es_authorizations es). az_id a \<noteq> pd_id d"
    using ins by (auto simp: record_authorization_on_def Let_def list_ex_iff split: if_splits)
  then show "\<forall>a\<in>set (es_authorizations es). az_id a \<noteq> pd_id d"
    by simp
  have grow: "grows es ?es1"
    by (rule growsI) auto
  show "evolves (\<lambda>t. tr_effect_id t = e \<and> tr_cause t = AuthorizationRecorded) es es'"
  proof (cases "is_allowed d")
    case True
    then show ?thesis
      using cases ok grow by (intro evolves_transition [of ?es1 es]) simp_all
  next
    case False
    then show ?thesis
      using cases ok grow by (auto simp: evolves_def)
  qed
  show "authorization_row_of tx ctx e d \<in> set (es_authorizations es')"
    using cases by (auto split: if_splits elim!: insert_transition_Ok)
qed

lemma record_dispatch_started_Ok:
  assumes ok: "effects_ok es"
    and ins: "record_dispatch_started_on tx es ctx e owner expires at = Ok (i, es')"
  shows "evolves (\<lambda>t. tr_effect_id t = e \<and> tr_cause t = DispatchStarted) es es'"
    and "\<exists>t\<in>set (es_transitions es'). tr_id t = i \<and> tr_effect_id t = e \<and> tr_workspace_id t = rc_workspace_id ctx \<and>
      tr_status t = Effect_Dispatching \<and> tr_dispatch_owner t = Some owner \<and>
      tr_dispatch_expires_at t = Some (stored tx expires)"
proof -
  have tr: "insert_transition tx es e (rc_workspace_id ctx) Effect_Dispatching DispatchStarted e at
      (Some owner) (Some expires) = Ok es'" and i: "i = tx_random_uuid tx"
    using ins by (auto simp: record_dispatch_started_on_def and_then_Ok_iff split: if_splits)
  show "evolves (\<lambda>t. tr_effect_id t = e \<and> tr_cause t = DispatchStarted) es es'"
    using tr ok by (intro evolves_transition [of es es]) simp_all
  show "\<exists>t\<in>set (es_transitions es'). tr_id t = i \<and> tr_effect_id t = e \<and> tr_workspace_id t = rc_workspace_id ctx \<and>
      tr_status t = Effect_Dispatching \<and> tr_dispatch_owner t = Some owner \<and>
      tr_dispatch_expires_at t = Some (stored tx expires)"
    by (rule insert_transition_Ok [OF tr]) (simp add: i)
qed

lemma insert_receipt_Ok:
  assumes ok: "effects_ok es" and ins: "insert_receipt_on tx shw es ctx r evidence = Ok es'"
  shows "evolves (\<lambda>t. tr_effect_id t = rx_effect_id r \<and> tr_cause t = ReceiptRecorded) es es'"
    and "\<exists>row\<in>set (es_receipts es'). pr_payload row = r \<and> pr_id row = rx_id r \<and>
      pr_effect_id row = rx_effect_id r \<and> pr_workspace_id row = rc_workspace_id ctx"
proof -
  let ?row = "\<lparr> pr_id = rx_id r, pr_effect_id = rx_effect_id r, pr_workspace_id = rc_workspace_id ctx,
     pr_outcome_status = rx_outcome_status r, pr_payload = r, pr_provider_result_recovery = evidence,
     pr_created_at = tx_now tx \<rparr>"
  let ?es1 = "es\<lparr>es_receipts := es_receipts es @ [?row]\<rparr>"
  consider (old) "es' = es" "\<exists>row. find_receipt_row es ctx (rx_id r) = Some row \<and> decode_receipt row = Ok r"
    | (new) "\<forall>x\<in>set (es_receipts es). pr_id x \<noteq> rx_id r" "has_intent es (rx_effect_id r) (rc_workspace_id ctx)"
        "insert_transition tx ?es1 (rx_effect_id r) (rc_workspace_id ctx) (rx_outcome_status r) ReceiptRecorded
           (rx_id r) (rx_recorded_at r) None None = Ok es'"
    using ins
    by (auto simp: insert_receipt_on_def verify_insert_def decode_found_def and_then_Ok_iff list_ex_iff
          split: if_splits option.splits)
  then have "evolves (\<lambda>t. tr_effect_id t = rx_effect_id r \<and> tr_cause t = ReceiptRecorded) es es' \<and>
      (\<exists>row\<in>set (es_receipts es'). pr_payload row = r \<and> pr_id row = rx_id r \<and>
        pr_effect_id row = rx_effect_id r \<and> pr_workspace_id row = rc_workspace_id ctx)"
  proof cases
    case old
    then obtain row where row: "find_receipt_row es ctx (rx_id r) = Some row" "pr_payload row = r"
        "pr_effect_id row = rx_effect_id r"
      by (auto simp: decode_receipt_def Let_def split: if_splits)
    note row = row(2,3) find_SomeD [OF row(1) [unfolded find_receipt_row_def]]
    then show ?thesis
      using old ok by auto
  next
    case new
    have "cause_qualified (rx_outcome_status r) ReceiptRecorded"
      by (rule insert_transition_Ok [OF new(3)])
    then have "effects_ok ?es1"
      by (intro receipt_row_added) (use ok new(1,2) in simp_all)
    moreover have "grows es ?es1"
      by (rule growsI) auto
    ultimately have "evolves (\<lambda>t. tr_effect_id t = rx_effect_id r \<and> tr_cause t = ReceiptRecorded) es es'"
      using new(3) by (intro evolves_transition [of ?es1 es]) auto
    moreover have "?row \<in> set (es_receipts es')"
      by (rule insert_transition_Ok [OF new(3)]) simp
    ultimately show ?thesis
      by force
  qed
  then show "evolves (\<lambda>t. tr_effect_id t = rx_effect_id r \<and> tr_cause t = ReceiptRecorded) es es'"
    and "\<exists>row\<in>set (es_receipts es'). pr_payload row = r \<and> pr_id row = rx_id r \<and>
      pr_effect_id row = rx_effect_id r \<and> pr_workspace_id row = rc_workspace_id ctx"
    by blast+
qed

lemma adopt_lost_dispatch_Ok:
  assumes ok: "effects_ok es" and ins: "adopt_lost_dispatch_on tx es ctx e i at = Ok (a, es')"
  shows "evolves (\<lambda>t. tr_effect_id t = e \<and> tr_cause t = DispatchLost) es es'"
    and "is_adopted es' (rc_workspace_id ctx) e i"
proof -
  consider (new) "insert_transition tx es e (rc_workspace_id ctx) Effect_Unknown DispatchLost i at None None = Ok es'"
    | (old) "es' = es" "is_adopted es (rc_workspace_id ctx) e i"
    using ins by (auto simp: adopt_lost_dispatch_on_def and_then_Ok_iff split: if_splits)
  then have "evolves (\<lambda>t. tr_effect_id t = e \<and> tr_cause t = DispatchLost) es es' \<and> is_adopted es' (rc_workspace_id ctx) e i"
  proof cases
    case new
    have "evolves (\<lambda>t. tr_effect_id t = e \<and> tr_cause t = DispatchLost) es es'"
      using new ok by (intro evolves_transition [of es es]) simp_all
    moreover have "is_adopted es' (rc_workspace_id ctx) e i"
      unfolding is_adopted_def by (rule insert_transition_Ok [OF new]) (simp add: list_ex_iff)
    ultimately show ?thesis ..
  qed (use ok in simp)
  then show "evolves (\<lambda>t. tr_effect_id t = e \<and> tr_cause t = DispatchLost) es es'"
      "is_adopted es' (rc_workspace_id ctx) e i"
    by blast+
qed

lemma record_failed_recovery_attempt_Ok:
  assumes "effects_ok es" "record_failed_recovery_attempt tx es ctx e at reason = Ok es'"
  shows "evolves (\<lambda>_. False) es es'"
  using assms by (auto simp: record_failed_recovery_attempt_def evolves_def intro: growsI split: if_splits)

lemma presence_Ok:
  assumes "effects_ok es"
  shows "record_worker_presence tx es ctx worker started reported = Ok es' \<Longrightarrow> evolves (\<lambda>_. False) es es'"
    and "clear_worker_presence tx es ctx worker stopped = Ok es' \<Longrightarrow> evolves (\<lambda>_. False) es es'"
  using assms
  by (auto simp: record_worker_presence_def clear_worker_presence_def evolves_def Let_def intro: growsI split: if_splits)

lemma insert_reconciliation_Ok:
  assumes ok: "effects_ok es" and ins: "insert_reconciliation tx shw es ctx x = Ok es'"
  shows "evolves (\<lambda>t. tr_effect_id t = xr_effect_id x \<and> tr_cause t = OutcomeSettled) es es'"
    and "\<exists>row\<in>set (es_reconciliations es'). xw_payload row = x \<and> xw_id row = xr_id x \<and> xw_outcome row = xr_outcome x"
    and "\<And>row. row \<in> set (es_reconciliations es') \<Longrightarrow> row \<notin> set (es_reconciliations es) \<Longrightarrow> xw_notified_at row = None"
proof -
  let ?row = "\<lparr> xw_id = xr_id x, xw_effect_id = xr_effect_id x, xw_receipt_id = xr_receipt_id x,
     xw_workspace_id = rc_workspace_id ctx, xw_outcome = xr_outcome x, xw_evidence_strength = xr_evidence_strength x,
     xw_reconciled_at = stored tx (xr_reconciled_at x), xw_notified_at = None, xw_payload = x \<rparr>"
  let ?es1 = "es\<lparr>es_reconciliations := es_reconciliations es @ [?row]\<rparr>"
  let ?evolved = "evolves (\<lambda>t. tr_effect_id t = xr_effect_id x \<and> tr_cause t = OutcomeSettled) es es'"
  let ?there = "\<exists>row\<in>set (es_reconciliations es'). xw_payload row = x \<and> xw_id row = xr_id x \<and> xw_outcome row = xr_outcome x"
  let ?owed = "\<forall>row\<in>set (es_reconciliations es'). row \<notin> set (es_reconciliations es) \<longrightarrow> xw_notified_at row = None"
  consider (old) "es' = es" "find_reconciliation es ctx (xr_id x) = Ok (Some x)"
    | (new) "\<forall>r\<in>set (es_reconciliations es). xw_id r \<noteq> xr_id x" "has_intent es (xr_effect_id x) (rc_workspace_id ctx)"
        "(if reconciliation_outcome_is_settled (xr_outcome x)
          then insert_transition tx ?es1 (xr_effect_id x) (rc_workspace_id ctx) Effect_Reconciling OutcomeSettled
                 (xr_id x) (xr_reconciled_at x) None None
          else Ok ?es1) = Ok es'"
    using ins
    by (auto simp: insert_reconciliation_def verify_insert_def and_then_Ok_iff list_ex_iff Let_def
          split: if_splits option.splits)
  then have "?evolved \<and> ?there \<and> ?owed"
  proof cases
    case old
    then obtain row where row: "find (\<lambda>r. xw_id r = xr_id x \<and> xw_workspace_id r = rc_workspace_id ctx)
        (es_reconciliations es) = Some row" "xw_payload row = x" "xr_outcome x = xw_outcome row"
      by (auto simp: find_reconciliation_def decode_found_def decode_reconciliation_def and_then_Ok_iff Let_def
            split: option.splits if_splits)
    then show ?thesis
      using old ok find_SomeD [OF row(1)] by auto
  next
    case new
    have ok1: "effects_ok ?es1"
      by (rule reconciliation_row_added) (use ok new(1,2) in simp_all)
    have grow: "grows es ?es1"
      by (rule growsI) auto
    show ?thesis
    proof (cases "reconciliation_outcome_is_settled (xr_outcome x)")
      case True
      then have tr: "insert_transition tx ?es1 (xr_effect_id x) (rc_workspace_id ctx) Effect_Reconciling OutcomeSettled
          (xr_id x) (xr_reconciled_at x) None None = Ok es'"
        using new(3) by simp
      have "?evolved"
        using tr ok1 grow True by (intro evolves_transition [of ?es1 es]) auto
      moreover have "es_reconciliations es' = es_reconciliations es @ [?row]"
        by (rule insert_transition_Ok [OF tr]) simp
      ultimately show ?thesis
        by auto
    next
      case False
      then show ?thesis
        using new(3) ok1 grow by (auto simp: evolves_def)
    qed
  qed
  then show ?evolved ?there
    "\<And>row. row \<in> set (es_reconciliations es') \<Longrightarrow> row \<notin> set (es_reconciliations es) \<Longrightarrow> xw_notified_at row = None"
    by blast+
qed

lemma mark_outcome_delivered_Ok:
  assumes ok: "effects_ok es" and ins: "mark_outcome_delivered tx es ctx i at = Ok es'"
  shows "evolves (\<lambda>t. tr_cause t = OutcomeDelivered) es es'"
    and "es_reconciliations es' = map (\<lambda>y. if xw_id y = i \<and> xw_workspace_id y = rc_workspace_id ctx \<and> xw_notified_at y = None
      then y\<lparr>xw_notified_at := Some (stored tx at)\<rparr> else y) (es_reconciliations es)"
proof -
  let ?hit = "\<lambda>y. xw_id y = i \<and> xw_workspace_id y = rc_workspace_id ctx \<and> xw_notified_at y = None"
  let ?f = "\<lambda>y. if ?hit y then y\<lparr>xw_notified_at := Some (stored tx at)\<rparr> else y"
  let ?es1 = "es\<lparr>es_reconciliations := map ?f (es_reconciliations es)\<rparr>"
  consider (none) "es' = es" "find ?hit (es_reconciliations es) = None"
    | (some) x st where "find ?hit (es_reconciliations es) = Some x" "reconciliation_outcome_is_settled (xw_outcome x)"
        "insert_transition tx ?es1 (xw_effect_id x) (rc_workspace_id ctx) st OutcomeDelivered i at None None = Ok es'"
    using ins
    by (auto simp: mark_outcome_delivered_def Let_def reconciliation_outcome_is_settled_def
          split: option.splits reconciliation_outcome.splits)
  then have "evolves (\<lambda>t. tr_cause t = OutcomeDelivered) es es' \<and> es_reconciliations es' = map ?f (es_reconciliations es)"
  proof cases
    case none
    then have "map ?f (es_reconciliations es) = es_reconciliations es"
      by (intro map_idI) (auto simp: find_None_iff)
    then show ?thesis
      using none ok by simp
  next
    case some
    note x = find_SomeD [OF some(1)]
    have "\<exists>y\<in>set (es_reconciliations ?es1). xw_id y = i \<and> xw_effect_id y = xw_effect_id x \<and>
        xw_workspace_id y = rc_workspace_id ctx \<and> reconciliation_outcome_is_settled (xw_outcome y)"
      using x some(2) by (intro bexI [of _ "?f x"]) auto
    moreover have "grows es ?es1"
      unfolding grows_def
    proof (intro conjI ballI)
      fix y
      assume y: "y \<in> set (es_reconciliations es)"
      then have "?f y \<in> set (es_reconciliations ?es1)"
        by simp
      moreover have "?f y = y\<lparr>xw_notified_at := xw_notified_at (?f y)\<rparr>"
        by simp
      ultimately show "\<exists>n. y\<lparr>xw_notified_at := n\<rparr> \<in> set (es_reconciliations ?es1) \<and>
          (xw_notified_at y \<noteq> None \<longrightarrow> n = xw_notified_at y)"
        by (intro exI [of _ "xw_notified_at (?f y)"]) auto
    qed simp_all
    moreover have "effects_ok ?es1"
      using ok by (rule notified_ok)
    ultimately have "evolves (\<lambda>t. tr_cause t = OutcomeDelivered) es es'"
      using some(3) by (intro evolves_transition [of ?es1 es]) simp_all
    moreover have "es_reconciliations es' = map ?f (es_reconciliations es)"
      by (rule insert_transition_Ok [OF some(3)]) simp
    ultimately show ?thesis ..
  qed
  then show "evolves (\<lambda>t. tr_cause t = OutcomeDelivered) es es'" "es_reconciliations es' = map ?f (es_reconciliations es)"
    by blast+
qed

section \<open>Lost dispatches are found\<close>

text \<open>No intent is recorded and no authorization granted after the dispatch of the same effect.\<close>

definition dispatch_order :: "effect_store \<Rightarrow> bool"
  where "dispatch_order es \<longleftrightarrow>
    (\<forall>t\<in>set (es_transitions es). \<forall>u\<in>set (es_transitions es). tr_effect_id u = tr_effect_id t \<longrightarrow>
       tr_status t = Effect_Dispatching \<longrightarrow> tr_ordinal t < tr_ordinal u \<longrightarrow>
       tr_cause u \<notin> {IntentRecorded, AuthorizationRecorded})"

text \<open>The cutoffs are later than all that is on record.\<close>

definition after_record :: "effect_store \<Rightarrow> cutoffs \<Rightarrow> bool"
  where "after_record es cu \<longleftrightarrow>
    list_all (\<lambda>t. tr_recorded_at t < cu_retry_unsettled_before cu \<and>
      (case tr_dispatch_expires_at t of None \<Rightarrow> True | Some e \<Rightarrow> e < cu_dispatch_expired_before cu)) (es_transitions es) \<and>
    list_all (\<lambda>x. xw_reconciled_at x < cu_retry_unsettled_before cu) (es_reconciliations es) \<and>
    list_all (\<lambda>a. at_attempted_at a < cu_retry_failed_before cu) (es_attempts es)"

lemma max_by_key_mem: "max_by_key key xs = Some x \<Longrightarrow> x \<in> set xs"
  by (drule max_by_key_SomeD) auto

lemma worth_asking_after:
  assumes "after_record es cu"
    and open_question: "\<forall>x\<in>set (es_reconciliations es). xw_effect_id x = e \<longrightarrow> \<not> reconciliation_outcome_is_settled (xw_outcome x)"
  shows "worth_asking es cu ws e receipt"
proof -
  have "\<not> reconciliation_outcome_is_settled (xw_outcome x) \<and> xw_reconciled_at x < cu_retry_unsettled_before cu"
    if "last_reconciliation es ws e receipt = Some x" for x
    using max_by_key_mem [OF that [unfolded last_reconciliation_def]] assms
    by (simp add: after_record_def list_all_iff)
  moreover have "at_attempted_at a < cu_retry_failed_before cu" if "last_failed_attempt es ws e = Some a" for a
    using max_by_key_mem [OF that [unfolded last_failed_attempt_def]] assms(1)
    by (simp add: after_record_def list_all_iff)
  ultimately show ?thesis
    by (auto simp: worth_asking_def Let_def settled_names_complete split: option.split)
qed

lemma receipt_candidate_after:
  assumes ok: "effects_ok es" and r: "r \<in> set (es_receipts es)"
    and status: "pr_outcome_status r \<noteq> Effect_Failed"
    and after: "after_record es cu"
    and open_question: "\<forall>x\<in>set (es_reconciliations es). xw_effect_id x = pr_effect_id r \<longrightarrow>
      \<not> reconciliation_outcome_is_settled (xw_outcome x)"
  shows "\<exists>c\<in>set (receipt_candidates es cu (pr_workspace_id r)). ir_id (cr_intent c) = pr_effect_id r"
proof -
  obtain i where i: "i \<in> set (es_intents es)" "ir_id i = pr_effect_id r" "ir_workspace_id i = pr_workspace_id r"
    using ok r by (auto simp: effects_ok_def receipts_ok_def has_intent_iff)
  have "pr_outcome_status r \<in> {Effect_Unknown, Effect_Acknowledged}"
    using ok r status by (auto simp: effects_ok_def receipts_ok_def)
  moreover have "worth_asking es cu (pr_workspace_id r) (pr_effect_id r) (Some (pr_id r))"
    by (rule worth_asking_after [OF after open_question])
  ultimately show ?thesis
    using r i
    by (intro bexI [of _ "\<lparr> cr_at = pr_created_at r, cr_intent = i, cr_receipt = Some r, cr_dispatch = None \<rparr>"])
       (auto simp: receipt_candidates_def intro!: bexI [of _ r])
qed

lemma sorted_wrt_greatest:
  "sorted_wrt (\<lambda>v w. f v < (f w :: nat)) xs \<Longrightarrow> xs \<noteq> [] \<Longrightarrow> \<exists>u\<in>set xs. \<forall>v\<in>set xs. v = u \<or> f v < f u"
proof (induction xs)
  case (Cons a xs)
  show ?case
  proof (cases "xs = []")
    case False
    then obtain u where "u \<in> set xs" "\<forall>v\<in>set xs. v = u \<or> f v < f u"
      using Cons by auto
    then show ?thesis
      using Cons.prems(1) by (intro bexI [of _ u]) auto
  qed simp
qed simp

lemma latest_transition:
  assumes ok: "effects_ok es" and t: "t \<in> set (es_transitions es)"
  obtains u where "u \<in> set (es_transitions es)" "tr_effect_id u = tr_effect_id t" "tr_workspace_id u = tr_workspace_id t"
    "u = t \<or> tr_ordinal t < tr_ordinal u"
    "\<forall>v\<in>set (es_transitions es). tr_effect_id v = tr_effect_id t \<longrightarrow> tr_workspace_id v = tr_workspace_id t \<longrightarrow>
       tr_ordinal v \<le> tr_ordinal u"
proof -
  let ?own = "filter (\<lambda>v. tr_effect_id v = tr_effect_id t \<and> tr_workspace_id v = tr_workspace_id t) (es_transitions es)"
  have "sorted_wrt (\<lambda>v w. tr_ordinal v < tr_ordinal w) ?own"
    using ok by (auto simp: effects_ok_def transitions_ok_def sorted_wrt_map intro: sorted_wrt_filter)
  moreover have own: "t \<in> set ?own"
    using t by simp
  then have "?own \<noteq> []"
    by (metis list.set(1) empty_iff)
  ultimately obtain u where u: "u \<in> set ?own" "\<forall>v\<in>set ?own. v = u \<or> tr_ordinal v < tr_ordinal u"
    using sorted_wrt_greatest by blast
  then show thesis
    using own by (intro that [of u]) auto
qed

text \<open>
  A dispatch without a receipt is the latest word on its effect, or was adopted as lost, or its outcome
  is settled.
\<close>

lemma dispatch_candidate_after:
  assumes ok: "effects_ok es" and order: "dispatch_order es"
    and t: "t \<in> set (es_transitions es)" "tr_status t = Effect_Dispatching"
    and none: "\<forall>r\<in>set (es_receipts es). pr_effect_id r \<noteq> tr_effect_id t"
    and after: "after_record es cu"
    and open_question: "\<forall>x\<in>set (es_reconciliations es). xw_effect_id x = tr_effect_id t \<longrightarrow>
      \<not> reconciliation_outcome_is_settled (xw_outcome x)"
  shows "\<exists>c\<in>set (dispatch_candidates es cu (tr_workspace_id t)). ir_id (cr_intent c) = tr_effect_id t"
proof -
  obtain u where u: "u \<in> set (es_transitions es)" "tr_effect_id u = tr_effect_id t" "tr_workspace_id u = tr_workspace_id t"
      "u = t \<or> tr_ordinal t < tr_ordinal u"
    and latest: "\<forall>v\<in>set (es_transitions es). tr_effect_id v = tr_effect_id t \<longrightarrow>
      tr_workspace_id v = tr_workspace_id t \<longrightarrow> tr_ordinal v \<le> tr_ordinal u"
    by (rule latest_transition [OF ok t(1)])
  have backing: "backed es u" "backed es t"
    using ok u(1) t(1) by (auto simp: effects_ok_def transitions_ok_def)
  have "tr_cause u \<notin> {IntentRecorded, AuthorizationRecorded}"
    using order t u backing by (cases "u = t") (auto simp: dispatch_order_def backed_def)
  moreover have "tr_cause u \<noteq> ReceiptRecorded"
    using none backing(1) u(2) by (auto simp: backed_def)
  moreover have "tr_cause u \<notin> {OutcomeSettled, OutcomeDelivered}"
    using open_question backing(1) u(2) by (auto simp: backed_def)
  ultimately have "tr_cause u = DispatchStarted \<or> tr_cause u = DispatchLost"
    by (cases "tr_cause u") simp_all
  then have "(tr_status u = Effect_Dispatching \<and> dispatch_expired es cu u) \<or>
      (tr_status u = Effect_Unknown \<and> tr_cause u = DispatchLost \<and> tr_recorded_at u < cu_retry_unsettled_before cu)"
  proof
    assume "tr_cause u = DispatchStarted"
    then obtain e where "tr_status u = Effect_Dispatching" "tr_dispatch_expires_at u = Some e"
      using backing(1) by (auto simp: backed_def ownership_qualified_def split: if_splits)
    moreover from this have "e < cu_dispatch_expired_before cu"
      using after u(1) by (auto simp: after_record_def list_all_iff split: option.splits)
    ultimately show ?thesis
      by (simp add: dispatch_expired_def)
  next
    assume "tr_cause u = DispatchLost"
    then show ?thesis
      using backing(1) after u(1) by (simp add: backed_def after_record_def list_all_iff)
  qed
  moreover have "\<not> list_ex (\<lambda>n. tr_effect_id n = tr_effect_id u \<and> tr_workspace_id n = tr_workspace_id u \<and>
      tr_ordinal n > tr_ordinal u) (es_transitions es)"
    using latest u(2,3) unfolding list_ex_iff by (metis leD)
  ultimately have lost: "lost_dispatch es cu u"
    using none u(2) by (simp add: lost_dispatch_def list_ex_iff)
  obtain i where i: "i \<in> set (es_intents es)" "ir_id i = tr_effect_id t" "ir_workspace_id i = tr_workspace_id t"
    using backing(2) by (auto simp: backed_def has_intent_iff)
  have "worth_asking es cu (tr_workspace_id t) (tr_effect_id t) None"
    by (rule worth_asking_after [OF after open_question])
  then show ?thesis
    using u(1-3) i lost
    by (intro bexI [of _ "\<lparr> cr_at = tr_recorded_at u, cr_intent = i, cr_receipt = None,
          cr_dispatch = Some (if tr_cause u = DispatchLost then tr_cause_ref u else tr_id u, tr_cause u = DispatchLost) \<rparr>"])
       (auto simp: dispatch_candidates_def intro!: bexI [of _ u])
qed

lemma candidate_decodes:
  assumes ok: "effects_ok es" and c: "c \<in> set (receipt_candidates es cu ws @ dispatch_candidates es cu ws)"
  shows "\<exists>v. decode_candidate c = Ok v"
    and "\<And>v. decode_candidate c = Ok v \<Longrightarrow> rv_intent v = ir_payload (cr_intent c)"
    and "cr_intent c \<in> set (es_intents es)"
proof -
  have i: "cr_intent c \<in> set (es_intents es)"
    using c by (auto simp: receipt_candidates_def dispatch_candidates_def)
  have match: "ei_id (ir_payload (cr_intent c)) = ir_id (cr_intent c)"
      "ei_workspace_id (ir_payload (cr_intent c)) = ir_workspace_id (cr_intent c)"
      "ei_adapter (ir_payload (cr_intent c)) = ir_adapter (cr_intent c)"
    using ok i by (auto simp: effects_ok_def intents_ok_def)
  have "\<exists>v. decode_candidate c = Ok v \<and> rv_intent v = ir_payload (cr_intent c)"
  proof (cases "cr_receipt c")
    case (Some r)
    then have "r \<in> set (es_receipts es)" "pr_outcome_status r \<in> {Effect_Unknown, Effect_Acknowledged}"
        "ir_id (cr_intent c) = pr_effect_id r"
      using c by (auto simp: receipt_candidates_def dispatch_candidates_def)
    then show ?thesis
      using ok Some match
      by (auto simp: decode_candidate_def recovery_candidate_new_def requires_reconciliation_def effects_ok_def
            receipts_ok_def Let_def)
  next
    case None
    then obtain d where "cr_dispatch c = Some d"
      using c by (auto simp: receipt_candidates_def dispatch_candidates_def)
    then show ?thesis
      using None match by (auto simp: decode_candidate_def for_lost_dispatch_def Let_def split: prod.split)
  qed
  then show "\<exists>v. decode_candidate c = Ok v" "\<And>v. decode_candidate c = Ok v \<Longrightarrow> rv_intent v = ir_payload (cr_intent c)"
    by auto
  show "cr_intent c \<in> set (es_intents es)"
    by (rule i)
qed

lemma candidate_is_found:
  assumes ok: "effects_ok es"
    and c: "c \<in> set (receipt_candidates es cu (rc_workspace_id ctx) @ dispatch_candidates es cu (rc_workspace_id ctx))"
    and cu: "cu = query_cutoffs tx u f d"
    and limit: "length (receipt_candidates es cu (rc_workspace_id ctx) @ dispatch_candidates es cu (rc_workspace_id ctx)) \<le> limit"
  shows "\<exists>cs. find_reconciliation_candidates tx es ctx u f d limit = Ok cs \<and>
    (\<exists>v\<in>set cs. rv_intent v = ir_payload (cr_intent c))"
proof -
  let ?all = "receipt_candidates es cu (rc_workspace_id ctx) @ dispatch_candidates es cu (rc_workspace_id ctx)"
  have rows: "set (candidate_rows es cu (rc_workspace_id ctx) limit) = set ?all"
    using limit by (simp add: candidate_rows_def)
  have decodes: "\<exists>v. decode_candidate r = Ok v" if "r \<in> set (candidate_rows es cu (rc_workspace_id ctx) limit)" for r
    using that candidate_decodes(1) [OF ok] unfolding rows by blast
  obtain cs where cs: "collect_results (map decode_candidate (candidate_rows es cu (rc_workspace_id ctx) limit)) = Ok cs"
      "\<forall>r\<in>set (candidate_rows es cu (rc_workspace_id ctx) limit). \<exists>v\<in>set cs. decode_candidate r = Ok v"
    using collect_results_total [of "candidate_rows es cu (rc_workspace_id ctx) limit" decode_candidate, OF decodes]
    by blast
  then obtain v where "v \<in> set cs" "decode_candidate c = Ok v"
    using c rows by blast
  then show ?thesis
    using cs(1) candidate_decodes(2) [OF ok c] unfolding find_reconciliation_candidates_def cu by blast
qed

text \<open>
  The three ways on from a dispatch: a receipt says that it failed, the outcome is settled, or the
  query finds the effect once the cutoffs have passed what is on record.
\<close>

lemma dispatched_is_found:
  assumes ok: "effects_ok es" and order: "dispatch_order es"
    and t: "t \<in> set (es_transitions es)" "tr_status t = Effect_Dispatching" "tr_workspace_id t = rc_workspace_id ctx"
    and after: "after_record es (query_cutoffs tx u f d)"
    and limit: "length (receipt_candidates es (query_cutoffs tx u f d) (rc_workspace_id ctx)) +
      length (dispatch_candidates es (query_cutoffs tx u f d) (rc_workspace_id ctx)) \<le> limit"
  shows "(\<exists>r\<in>set (es_receipts es). pr_effect_id r = tr_effect_id t \<and> pr_outcome_status r = Effect_Failed) \<or>
    (\<exists>x\<in>set (es_reconciliations es). xw_effect_id x = tr_effect_id t \<and> reconciliation_outcome_is_settled (xw_outcome x)) \<or>
    (\<exists>cs. find_reconciliation_candidates tx es ctx u f d limit = Ok cs \<and>
       (\<exists>v\<in>set cs. ei_id (rv_intent v) = tr_effect_id t))"
proof (rule ccontr)
  let ?cu = "query_cutoffs tx u f d"
  assume neg: "\<not> ?thesis"
  then have open_question: "\<forall>x\<in>set (es_reconciliations es). xw_effect_id x = tr_effect_id t \<longrightarrow>
      \<not> reconciliation_outcome_is_settled (xw_outcome x)"
    by blast
  have "\<exists>c\<in>set (receipt_candidates es ?cu (rc_workspace_id ctx) @ dispatch_candidates es ?cu (rc_workspace_id ctx)).
      ir_id (cr_intent c) = tr_effect_id t"
  proof (cases "\<exists>r\<in>set (es_receipts es). pr_effect_id r = tr_effect_id t")
    case True
    then obtain r where r: "r \<in> set (es_receipts es)" "pr_effect_id r = tr_effect_id t"
      by blast
    then have "pr_outcome_status r \<noteq> Effect_Failed"
      using neg by blast
    moreover have "pr_workspace_id r = tr_workspace_id t"
    proof -
      have "has_intent es (tr_effect_id t) (tr_workspace_id t)" "has_intent es (pr_effect_id r) (pr_workspace_id r)"
        "distinct (map ir_id (es_intents es))"
        using ok t(1) r(1) by (auto simp: effects_ok_defs backed_def)
      then show ?thesis
        using r(2) by (auto simp: has_intent_iff distinct_map inj_on_def)
    qed
    ultimately show ?thesis
      using receipt_candidate_after [OF ok r(1) _ after] open_question r(2) t(3) by auto
  next
    case False
    then show ?thesis
      using dispatch_candidate_after [OF ok order t(1,2) _ after open_question] t(3) by auto
  qed
  then obtain c where c: "c \<in> set (receipt_candidates es ?cu (rc_workspace_id ctx) @ dispatch_candidates es ?cu (rc_workspace_id ctx))"
      "ir_id (cr_intent c) = tr_effect_id t"
    by blast
  have "ei_id (ir_payload (cr_intent c)) = tr_effect_id t"
    using candidate_decodes(3) [OF ok c(1)] c(2) ok by (simp add: effects_ok_def intents_ok_def)
  then show False
    using candidate_is_found [OF ok c(1) refl] limit neg by (metis length_append)
qed

section \<open>Reading the evidence\<close>

interpretation effect_status_name:
  named_enum effect_lifecycle_status_as_str "\<lambda>s. case lifecycle_status s of Inr x \<Rightarrow> Some x | Inl _ \<Rightarrow> None"
proof unfold_locales
  show "(case lifecycle_status (effect_lifecycle_status_as_str x) of Inr y \<Rightarrow> Some y | Inl _ \<Rightarrow> None) = Some x" for x
    by (cases x) (simp_all add: lifecycle_status_def)
  show "(case lifecycle_status s of Inr y \<Rightarrow> Some y | Inl _ \<Rightarrow> None) = Some x \<Longrightarrow> effect_lifecycle_status_as_str x = s" for s x
    by (auto simp: lifecycle_status_def split: sum.splits if_splits)
qed

lemma lifecycle_status_reads [simp]: "lifecycle_status (effect_lifecycle_status_as_str s) = Ok s"
  using effect_status_name.parse_as_str [of s] by (simp split: sum.splits)

lemma decode_found_Ok: "(\<And>r. found = Some r \<Longrightarrow> is_ok (decode r)) \<Longrightarrow> is_ok (decode_found decode found)"
  by (cases found) (auto simp: decode_found_def is_ok_iff)

lemma evidence_decodes:
  assumes "effects_ok es"
  shows "is_ok (find_intent es ctx e)" "is_ok (find_receipt es ctx r)" "is_ok (find_receipt_by_effect es ctx e)"
    and "is_ok (find_reconciliation es ctx x)" "is_ok (find_lifecycle_status es ctx e)"
    and "is_ok (find_reconciliation_candidates tx es ctx u f d limit)"
proof -
  show "is_ok (find_intent es ctx e)"
    unfolding find_intent_def using assms
    by (auto intro!: decode_found_Ok dest!: find_SomeD simp: effects_ok_def intents_ok_def decode_intent_def)
  show "is_ok (find_receipt es ctx r)"
    unfolding find_receipt_def find_receipt_row_def using assms
    by (auto intro!: decode_found_Ok dest!: find_SomeD simp: effects_ok_def receipts_ok_def decode_receipt_def)
  show "is_ok (find_receipt_by_effect es ctx e)"
    unfolding find_receipt_by_effect_def using assms
    by (auto intro!: decode_found_Ok dest!: max_by_key_mem simp: effects_ok_def receipts_ok_def decode_receipt_def)
  show "is_ok (find_reconciliation es ctx x)"
    unfolding find_reconciliation_def using assms
    by (auto intro!: decode_found_Ok dest!: find_SomeD simp: effects_ok_def reconciliations_ok_def decode_reconciliation_def)
  show "is_ok (find_lifecycle_status es ctx e)"
    unfolding find_lifecycle_status_def Let_def by (rule decode_found_Ok) simp
  let ?cu = "query_cutoffs tx u f d"
  have "set (candidate_rows es ?cu (rc_workspace_id ctx) limit)
      \<subseteq> set (receipt_candidates es ?cu (rc_workspace_id ctx) @ dispatch_candidates es ?cu (rc_workspace_id ctx))"
    unfolding candidate_rows_def using set_take_subset by fastforce
  then have "\<exists>v. decode_candidate c = Ok v" if "c \<in> set (candidate_rows es ?cu (rc_workspace_id ctx) limit)" for c
    using that candidate_decodes(1) [OF assms] by blast
  then show "is_ok (find_reconciliation_candidates tx es ctx u f d limit)"
    using collect_results_total [of "candidate_rows es ?cu (rc_workspace_id ctx) limit" decode_candidate]
    unfolding find_reconciliation_candidates_def is_ok_iff by blast
qed

text \<open>Histories of the tables: any sequence of the operations that write them.\<close>

datatype effect_call =
    Insert_Intent transaction request_context external_effect_intent
  | Record_Authorization transaction request_context uuid policy_decision
  | Record_Dispatch transaction request_context uuid uuid timestamp timestamp
  | Insert_Receipt transaction request_context external_effect_receipt "provider_result_receipt_evidence option"
  | Adopt_Lost transaction request_context uuid uuid timestamp
  | Record_Attempt transaction request_context uuid timestamp string
  | Insert_Reconciliation transaction request_context external_reconciliation
  | Mark_Delivered transaction request_context uuid timestamp
  | Record_Presence transaction request_context uuid timestamp timestamp
  | Clear_Presence transaction request_context uuid timestamp

fun effect_perform :: "(uuid \<Rightarrow> string) \<Rightarrow> effect_store \<Rightarrow> effect_call \<Rightarrow> (application_error, effect_store) result"
  where
    "effect_perform shw es (Insert_Intent tx ctx intent) = insert_intent_on tx shw es ctx intent"
  | "effect_perform shw es (Record_Authorization tx ctx e d) = record_authorization_on tx es ctx e d"
  | "effect_perform shw es (Record_Dispatch tx ctx e owner expires at) =
       and_then (record_dispatch_started_on tx es ctx e owner expires at) (\<lambda>(_, es'). Ok es')"
  | "effect_perform shw es (Insert_Receipt tx ctx r evidence) = insert_receipt_on tx shw es ctx r evidence"
  | "effect_perform shw es (Adopt_Lost tx ctx e i at) =
       and_then (adopt_lost_dispatch_on tx es ctx e i at) (\<lambda>(_, es'). Ok es')"
  | "effect_perform shw es (Record_Attempt tx ctx e at reason) = record_failed_recovery_attempt tx es ctx e at reason"
  | "effect_perform shw es (Insert_Reconciliation tx ctx x) = insert_reconciliation tx shw es ctx x"
  | "effect_perform shw es (Mark_Delivered tx ctx i at) = mark_outcome_delivered tx es ctx i at"
  | "effect_perform shw es (Record_Presence tx ctx worker started reported) =
       record_worker_presence tx es ctx worker started reported"
  | "effect_perform shw es (Clear_Presence tx ctx worker stopped) = clear_worker_presence tx es ctx worker stopped"

lemmas effect_operation_Ok =
  insert_intent_Ok(1) record_authorization_Ok(1) record_dispatch_started_Ok(1) insert_receipt_Ok(1)
  adopt_lost_dispatch_Ok(1) record_failed_recovery_attempt_Ok insert_reconciliation_Ok(1)
  mark_outcome_delivered_Ok(1) presence_Ok

lemma effect_perform_Ok:
  assumes "effects_ok es" "effect_perform shw es c = Ok es'"
  shows "effects_ok es'"
  using assms(2) by (cases c) (auto simp: and_then_Ok_iff evolves_def dest!: effect_operation_Ok [OF assms(1)])

interpretation effect_table: fallible_system "effect_perform shw" effects_ok for shw
  by unfold_locales (rule effect_perform_Ok)

text \<open>
  C24: whatever sequence of operations wrote the tables, no reader of them fails: every intent, receipt
  and reconciliation decodes to what its columns say, the status of every effect parses, and the
  query for recovery candidates returns.
\<close>

theorem evidence_stays_readable:
  assumes "try_fold (effect_perform shw) empty_effect_store calls = Ok es"
  shows "is_ok (find_intent es ctx e) \<and> is_ok (find_receipt es ctx r) \<and> is_ok (find_receipt_by_effect es ctx e) \<and>
    is_ok (find_reconciliation es ctx x) \<and> is_ok (find_lifecycle_status es ctx e) \<and>
    is_ok (find_reconciliation_candidates tx es ctx u f d limit)"
  using evidence_decodes [OF effect_table.fold_inv [OF empty_effects_ok assms]] by blast

definition sample_tx :: transaction
  where "sample_tx = \<lparr> tx_postgres = \<lparr> pg_message = (\<lambda>s. s), pg_stored = (\<lambda>t. (t + 500) div 1000 * 1000) \<rparr>,
    tx_random_uuid = 40, tx_now = 5000000 \<rparr>"

definition effect_context :: request_context
  where "effect_context = \<lparr> rc_request_id = 1, rc_correlation_id = 2, rc_workspace_id = 3, rc_principal_id = 4 \<rparr>"

definition sample_effect :: external_effect_intent
  where "sample_effect =
    \<lparr> ei_id = 20, ei_execution_ref = ''workspace://'', ei_workspace_id = 3, ei_actor_id = 4, ei_adapter = ''mail'',
      ei_operation = ''send'', ei_target = ''workspace://'', ei_normalized_arguments_digest = ''a'',
      ei_expected_effect = ''sent'', ei_preconditions = [\<lparr> ep_name = ''p'', ep_expected_value = ''v'' \<rparr>],
      ei_precondition_digest = ''d'', ei_risk = Risk_Low, ei_reversibility = Irreversible,
      ei_idempotency_profile = Idempotency_None, ei_delivery_semantics = AtMostOnce,
      ei_required_capability = EventWrite, ei_budget_reservation_ref = None, ei_policy_decision_ref = None,
      ei_compensates_effect_id = None, ei_created_at = 1000 \<rparr>"

definition sample_decision :: policy_decision
  where "sample_decision =
    \<lparr> pd_id = 30, pd_policy_id = None, pd_policy_version = ''v1'', pd_workspace_id = 3, pd_subject_id = 4,
      pd_capability = EventWrite, pd_operation = ''send'', pd_resource_scope = ''workspace://'',
      pd_result = Allow, pd_reason = GrantMatched,
      pd_input_state = \<lparr> pi_workspace_id = 3, pi_subject_id = 4, pi_capability = EventWrite, pi_operation = ''send'',
        pi_resource_scope = ''workspace://'', pi_requested_risk = Risk_Low, pi_context_risk = Risk_Low,
        pi_effective_risk = Risk_Low, pi_requested_budget_units = 0, pi_conditions = [] \<rparr>,
      pd_matched_grant_id = Some 7, pd_decided_at = 123456789 \<rparr>"

lemmas effect_sample_defs = sample_tx_def effect_context_def sample_effect_def sample_decision_def empty_effect_store_def

definition recorded_store :: effect_store
  where "recorded_store =
    (case insert_intent_on sample_tx (\<lambda>_. []) empty_effect_store effect_context sample_effect of Inr es \<Rightarrow> es)"

lemma sample_intent_recorded:
  "insert_intent_on sample_tx (\<lambda>_. []) empty_effect_store effect_context sample_effect = Ok recorded_store"
  by (simp add: recorded_store_def effect_sample_defs insert_intent_on_def insert_transition_def has_intent_def
      ownership_qualified_def btrim_blank_def)

theorem evidence_stays_readable_witness:
  "is_ok (find_intent recorded_store effect_context 20) \<and> is_ok (find_receipt recorded_store effect_context 1) \<and>
   is_ok (find_receipt_by_effect recorded_store effect_context 20) \<and>
   is_ok (find_reconciliation recorded_store effect_context 1) \<and>
   is_ok (find_lifecycle_status recorded_store effect_context 20) \<and>
   is_ok (find_reconciliation_candidates sample_tx recorded_store effect_context 0 0 0 8)"
  by (rule evidence_stays_readable [where shw = "\<lambda>_. []" and calls = "[Insert_Intent sample_tx effect_context sample_effect]"])
     (simp add: sample_intent_recorded)

lemma find_snoc: "(\<And>y. y \<in> set xs \<Longrightarrow> \<not> P y) \<Longrightarrow> P x \<Longrightarrow> find P (xs @ [x]) = Some x"
  by (induction xs) auto

text \<open>
  C25: an authorization reads back as the decision that was recorded.  PostgreSQL keeps microseconds
  and rounds; the tolerance of the reader accepts exactly that difference.
\<close>

theorem authorization_reads_back:
  assumes rec: "record_authorization_on tx es ctx e d = Ok es'"
    and rounds: "\<bar>pg_stored (tx_postgres tx) (pd_decided_at d) - pd_decided_at d\<bar> \<le> 500"
  shows "find_authorization es' ctx e (pd_id d) = Ok (Some d)"
proof -
  let ?row = "authorization_row_of tx ctx e d"
  have auths: "es_authorizations es' = es_authorizations es @ [?row]" "\<forall>a\<in>set (es_authorizations es). az_id a \<noteq> pd_id d"
      "pd_workspace_id d = rc_workspace_id ctx"
    using rec by (auto simp: record_authorization_on_def Let_def list_ex_iff split: if_splits elim!: insert_transition_Ok)
  have "\<bar>pd_decided_at d div 1000 - pg_stored (tx_postgres tx) (pd_decided_at d) div 1000\<bar> \<le> 1"
    using rounds by linarith
  then have "decode_authorization ?row = Ok d"
    using auths(3) by (simp add: decode_authorization_def authorization_disagreement_def authorization_row_of_def Let_def)
  moreover have "find (\<lambda>a. az_id a = pd_id d \<and> az_effect_id a = e \<and> az_workspace_id a = rc_workspace_id ctx)
      (es_authorizations es') = Some ?row"
    unfolding auths(1) using auths(2) by (intro find_snoc) (auto simp: authorization_row_of_def)
  ultimately show ?thesis
    by (simp add: find_authorization_def decode_found_def)
qed

theorem authorization_reads_back_witness:
  "\<exists>es'. record_authorization_on (sample_tx\<lparr>tx_random_uuid := 41\<rparr>) recorded_store effect_context 20 sample_decision = Ok es' \<and>
     find_authorization es' effect_context 20 30 = Ok (Some sample_decision)"
proof -
  let ?tx = "sample_tx\<lparr>tx_random_uuid := 41\<rparr>"
  have "is_ok (record_authorization_on ?tx recorded_store effect_context 20 sample_decision)"
    by (simp add: recorded_store_def effect_sample_defs insert_intent_on_def insert_transition_def has_intent_def
        ownership_qualified_def btrim_blank_def record_authorization_on_def authorization_row_of_def is_allowed_def
        same_loss_def Let_def)
  then obtain es' where es': "record_authorization_on ?tx recorded_store effect_context 20 sample_decision = Ok es'"
    by (auto simp: is_ok_iff)
  moreover have "pd_id sample_decision = 30" "\<bar>pg_stored (tx_postgres ?tx) (pd_decided_at sample_decision) - pd_decided_at sample_decision\<bar> \<le> 500"
    by (simp_all add: effect_sample_defs)
  ultimately show ?thesis
    using authorization_reads_back [OF es'] by auto
qed

end
