(* ===== verification/Async_Task.thy ===== *)
theory Async_Task
  imports Prelude
begin

text \<open>
  Asynchronous service methods.  An \<^verbatim>\<open>async fn\<close> is a task: it is finished, or it waits at an
  \<^verbatim>\<open>.await\<close> for one atomic step on the shared world.  What the environment
  decides at the step (a clock, a fresh identifier, a database fault, the answer of another system) is its input
  \<^typ>\<open>'i\<close>.  A process that dies is a task that is never resumed, and concurrent requests are
  interleaved steps of several tasks.  The interface at the end is rely-guarantee reasoning: what
  every step of a task keeps, whatever the steps of the other tasks in between.
\<close>

section \<open>Tasks\<close>

datatype ('i, 'w, 'a) task =
    Done 'a
  | Await "'i \<Rightarrow> 'w \<Rightarrow> 'w \<times> ('i, 'w, 'a) task"

primrec task_bind :: "('i, 'w, 'a) task \<Rightarrow> ('a \<Rightarrow> ('i, 'w, 'b) task) \<Rightarrow> ('i, 'w, 'b) task"
  where
    "task_bind (Done x) k = k x"
  | "task_bind (Await f) k = Await (\<lambda>i w. map_prod id (\<lambda>t. task_bind t k) (f i w))"

text \<open>One atomic step with its result.\<close>

definition atomic :: "('i \<Rightarrow> 'w \<Rightarrow> 'w \<times> 'a) \<Rightarrow> ('i, 'w, 'a) task"
  where "atomic f = Await (\<lambda>i w. map_prod id Done (f i w))"

text \<open>The operator \<^verbatim>\<open>?\<close> after an \<^verbatim>\<open>.await\<close>.\<close>

definition try_await ::
    "('i, 'w, ('e, 'a) result) task \<Rightarrow> ('a \<Rightarrow> ('i, 'w, ('e, 'b) result) task) \<Rightarrow> ('i, 'w, ('e, 'b) result) task"
  where "try_await t k = task_bind t (\<lambda>r. case r of Inl e \<Rightarrow> Done (Err e) | Inr x \<Rightarrow> k x)"

text \<open>Running one task alone, on the inputs of its steps.\<close>

fun run_task :: "'i list \<Rightarrow> ('i, 'w, 'a) task \<Rightarrow> 'w \<Rightarrow> 'w \<times> ('i, 'w, 'a) task"
  where
    "run_task (i # inputs) (Await f) w = (case f i w of (w', t) \<Rightarrow> run_task inputs t w')"
  | "run_task [] t w = (w, t)"
  | "run_task inputs (Done x) w = (w, Done x)"

text \<open>
  A schedule resumes the task at a position with an input, any number of times and in any
  order; resuming a finished task does nothing.
\<close>

fun resume :: "nat \<times> 'i \<Rightarrow> 'w \<times> ('i, 'w, 'a) task list \<Rightarrow> 'w \<times> ('i, 'w, 'a) task list"
  where
    "resume (n, i) (w, ts) =
       (if n < length ts
        then case ts ! n of
            Done x \<Rightarrow> (w, ts)
          | Await f \<Rightarrow> (case f i w of (w', t) \<Rightarrow> (w', ts[n := t]))
        else (w, ts))"

definition run_schedule :: "(nat \<times> 'i) list \<Rightarrow> 'w \<times> ('i, 'w, 'a) task list \<Rightarrow> 'w \<times> ('i, 'w, 'a) task list"
  where "run_schedule schedule s = fold resume schedule s"

section \<open>Laws of tasks\<close>

lemma task_bind_assoc:
  "task_bind (task_bind t k) l = task_bind t (\<lambda>x. task_bind (k x) l)"
proof (induction t)
  case (Done x)
  then show ?case by simp
next
  case (Await f)
  then show ?case
    by (auto simp: fun_eq_iff prod_eq_iff)
       (metis prod.collapse range_eqI snds.intros)
qed

lemma task_bind_Done [simp]: "task_bind t Done = t"
proof (induction t)
  case (Await f)
  then show ?case
    by (auto simp: fun_eq_iff prod_eq_iff) (metis prod.collapse range_eqI snds.intros)
qed simp

lemma try_await_simps [simp]:
  "try_await (Done (Ok x)) k = k x"
  "try_await (Done (Err e)) k = Done (Err e)"
  by (simp_all add: try_await_def)

lemma run_task_append: "run_task (inputs @ js) t w = (case run_task inputs t w of (w', t') \<Rightarrow> run_task js t' w')"
proof (induction inputs t w rule: run_task.induct)
  case (3 i inputs x w)
  then show ?case by (cases js) simp_all
qed (simp_all split: prod.split)

section \<open>Tasks that end\<close>

text \<open>At most \<open>n\<close> steps, whatever happens at each of them, to a result that satisfies \<open>Q\<close>.\<close>

inductive task_ends :: "('a \<Rightarrow> bool) \<Rightarrow> nat \<Rightarrow> ('i, 'w, 'a) task \<Rightarrow> bool" for Q
  where
    ends_Done: "Q x \<Longrightarrow> task_ends Q n (Done x)"
  | ends_Await: "(\<And>i w. task_ends Q n (snd (f i w))) \<Longrightarrow> task_ends Q (Suc n) (Await f)"

inductive_simps task_ends_simps [simp]:
  "task_ends Q n (Done x)"
  "task_ends Q n (Await f)"

lemma task_ends_mono: "task_ends Q n t \<Longrightarrow> n \<le> m \<Longrightarrow> task_ends Q m t"
proof (induction arbitrary: m rule: task_ends.induct)
  case (ends_Await n f)
  then obtain m' where "m = Suc m'" "n \<le> m'"
    by (cases m) auto
  then show ?case
    using ends_Await.IH by simp
qed simp

lemma task_ends_bind:
  assumes "task_ends P n t" "\<And>x. P x \<Longrightarrow> task_ends Q m (k x)"
  shows "task_ends Q (n + m) (task_bind t k)"
  using assms
proof (induction rule: task_ends.induct)
  case (ends_Done x n)
  then show ?case
    using task_ends_mono [of Q m "k x" "n + m"] by simp
qed simp

lemma task_ends_try_await:
  assumes "task_ends P n t" "\<And>x. P (Ok x) \<Longrightarrow> task_ends Q m (k x)" "\<And>e. Q (Err e)"
  shows "task_ends Q (n + m) (try_await t k)"
  unfolding try_await_def by (rule task_ends_bind [OF assms(1)]) (auto simp: assms split: sum.split)

lemma task_ends_atomic: "(\<And>i w. Q (snd (f i w))) \<Longrightarrow> task_ends Q 1 (atomic f)"
  by (simp add: atomic_def)

lemma task_ends_run:
  "task_ends Q n t \<Longrightarrow> n \<le> length inputs \<Longrightarrow> \<exists>x. snd (run_task inputs t w) = Done x \<and> Q x"
proof (induction arbitrary: inputs w rule: task_ends.induct)
  case (ends_Done x n)
  then show ?case by (cases inputs) simp_all
next
  case (ends_Await n f)
  then obtain i js where "inputs = i # js" "n \<le> length js"
    by (cases inputs) auto
  then show ?case
    using ends_Await.IH [of js i w "fst (f i w)"]
    by (simp add: case_prod_beta)
qed

text \<open>Under any interleaving, a task that is resumed often enough is finished.\<close>

lemma schedule_ends:
  assumes "task_ends Q k (ts ! n)" "n < length ts" "run_schedule schedule (w, ts) = (w', ts')"
    and "k \<le> length (filter (\<lambda>(m, i). m = n) schedule)"
  shows "\<exists>x. ts' ! n = Done x \<and> Q x"
  using assms
proof (induction schedule arbitrary: w ts k)
  case Nil
  then show ?case
    by (cases "ts ! n") (auto simp: run_schedule_def)
next
  case (Cons s schedule)
  obtain m i where s: "s = (m, i)"
    by (cases s)
  obtain w1 ts1 where step: "resume (m, i) (w, ts) = (w1, ts1)"
    by (cases "resume (m, i) (w, ts)")
  have rest: "run_schedule schedule (w1, ts1) = (w', ts')"
    using Cons.prems(3) s step by (simp add: run_schedule_def del: resume.simps)
  have len: "length ts1 = length ts"
    using step by (auto split: if_splits task.splits prod.splits)
  show ?case
  proof (cases "m = n \<and> (\<exists>f. ts ! n = Await f)")
    case True
    then obtain f where f: "m = n" "ts ! n = Await f"
      by blast
    then obtain k' where k': "k = Suc k'" "task_ends Q k' (snd (f i w))"
      using Cons.prems(1) by auto
    have "ts1 ! n = snd (f i w)"
      using step f Cons.prems(2) by (auto split: prod.splits)
    then show ?thesis
      using Cons.IH [of k' ts1 w1] rest len k' f Cons.prems(2,4) s by simp
  next
    case False
    then have "ts1 ! n = ts ! n"
      using step Cons.prems(2) by (cases "m = n") (auto split: if_splits task.splits prod.splits)
    moreover have "task_ends Q (length (filter (\<lambda>(m, i). m = n) schedule)) (ts ! n)"
    proof (cases "m = n")
      case True
      then show ?thesis
        using False Cons.prems(1) by (cases "ts ! n") auto
    next
      case False
      then show ?thesis
        using task_ends_mono [OF Cons.prems(1)] Cons.prems(4) s by simp
    qed
    ultimately show ?thesis
      using Cons.IH [OF _ _ rest] len Cons.prems(2) by simp
  qed
qed

section \<open>Interface: rely and guarantee\<close>

text \<open>
  A task is safe in a world when each of its steps, taken after any steps of the others, keeps
  the invariant and stays within its guarantee; \<open>Q\<close> holds of its result.
\<close>

inductive task_safe ::
    "('w \<Rightarrow> 'w \<Rightarrow> bool) \<Rightarrow> ('w \<Rightarrow> 'w \<Rightarrow> bool) \<Rightarrow> ('w \<Rightarrow> bool) \<Rightarrow> ('a \<Rightarrow> 'w \<Rightarrow> bool)
     \<Rightarrow> ('i, 'w, 'a) task \<Rightarrow> 'w \<Rightarrow> bool" for R G I Q
  where
    safe_Done: "Q x w \<Longrightarrow> task_safe R G I Q (Done x) w"
  | safe_Await: "(\<And>i w'. R w w' \<Longrightarrow> I w' \<Longrightarrow>
        G w' (fst (f i w')) \<and> I (fst (f i w')) \<and> task_safe R G I Q (snd (f i w')) (fst (f i w')))
      \<Longrightarrow> task_safe R G I Q (Await f) w"

inductive_simps task_safe_simps:
  "task_safe R G I Q (Done x) w"
  "task_safe R G I Q (Await f) w"

lemma task_safe_bind:
  assumes "task_safe R G I P t w" "\<And>x w'. P x w' \<Longrightarrow> task_safe R G I Q (k x) w'"
  shows "task_safe R G I Q (task_bind t k) w"
  using assms(1)
proof (induction rule: task_safe.induct)
  case (safe_Done x w)
  then show ?case using assms(2) by simp
next
  case (safe_Await w f)
  then show ?case
    by (auto simp: task_safe_simps)
qed

lemma task_safe_try_await:
  assumes "task_safe R G I P t w" "\<And>x w'. P (Ok x) w' \<Longrightarrow> task_safe R G I Q (k x) w'"
    and "\<And>e w'. P (Err e) w' \<Longrightarrow> Q (Err e) w'"
  shows "task_safe R G I Q (try_await t k) w"
  unfolding try_await_def
  by (rule task_safe_bind [OF assms(1)]) (auto simp: task_safe_simps assms split: sum.split)

lemma task_safe_atomic:
  assumes "\<And>i w'. R w w' \<Longrightarrow> I w' \<Longrightarrow>
    G w' (fst (f i w')) \<and> I (fst (f i w')) \<and> Q (snd (f i w')) (fst (f i w'))"
  shows "task_safe R G I Q (atomic f) w"
  using assms by (auto simp: atomic_def task_safe_simps)

lemma task_safe_weaken:
  assumes "task_safe R G I P t w" "\<And>x w'. P x w' \<Longrightarrow> Q x w'"
  shows "task_safe R G I Q t w"
  using task_safe_bind [OF assms(1), of Q Done] assms(2) by (simp add: task_safe_simps)

text \<open>What neither the others nor the task itself undo still holds at the end.\<close>

lemma task_safe_frame:
  assumes "task_safe R G I Q t w" "S w"
    and "\<And>w w'. R w w' \<Longrightarrow> S w \<Longrightarrow> S w'" "\<And>w w'. G w w' \<Longrightarrow> S w \<Longrightarrow> S w'"
  shows "task_safe R G I (\<lambda>x w. Q x w \<and> S w) t w"
  using assms(1,2)
proof (induction rule: task_safe.induct)
  case (safe_Await f w)
  then show ?case
    using assms(3,4) by (intro task_safe.safe_Await) blast
qed (simp add: task_safe_simps)

text \<open>
  Tasks carry labels.  Each label has a guarantee, and the guarantee of one label is what all others
  rely on; tasks may have the same label only when it is shared.
\<close>

lemma distinct_filter_nth:
  assumes "distinct (filter P xs)" "n < m" "m < length xs" "xs ! n = xs ! m"
  shows "\<not> P (xs ! n)"
proof
  assume P: "P (xs ! n)"
  have "filter P xs = filter P (take n xs) @ xs ! n # filter P (drop (Suc n) xs)"
    using assms(2,3) P by (subst id_take_nth_drop [of n xs]) simp_all
  moreover have "xs ! n \<in> set (drop (Suc n) xs)"
    using assms(2-4) unfolding set_conv_nth by (auto intro!: exI [of _ "m - Suc n"])
  ultimately show False
    using assms(1) P by simp
qed

locale rely_guarantee =
  fixes rely :: "'l \<Rightarrow> 'w \<Rightarrow> 'w \<Rightarrow> bool"
    and guar :: "'l \<Rightarrow> 'w \<Rightarrow> 'w \<Rightarrow> bool"
    and shared :: "'l \<Rightarrow> bool"
    and inv :: "'w \<Rightarrow> bool"
  assumes rely_refl: "rely l w w"
    and rely_trans: "rely l w w1 \<Longrightarrow> rely l w1 w2 \<Longrightarrow> rely l w w2"
    and guar_rely: "l \<noteq> m \<or> shared l \<Longrightarrow> inv w \<Longrightarrow> guar m w w' \<Longrightarrow> rely l w w'"
begin

lemma safe_rely:
  assumes "task_safe (rely l) (guar l) inv (\<lambda>_ _. True) t w" "rely l w w'"
  shows "task_safe (rely l) (guar l) inv (\<lambda>_ _. True) t w'"
  using assms by (cases t) (auto simp: task_safe_simps dest: rely_trans)

lemma resume_safe:
  assumes "inv w" "list_all2 (\<lambda>l t. task_safe (rely l) (guar l) inv (\<lambda>_ _. True) t w) ls ts"
    and labels: "distinct (filter (\<lambda>l. \<not> shared l) ls)"
    and step: "resume (n, i) (w, ts) = (w', ts')"
  shows "inv w' \<and> list_all2 (\<lambda>l t. task_safe (rely l) (guar l) inv (\<lambda>_ _. True) t w') ls ts'"
proof (cases "n < length ts \<and> (\<exists>f. ts ! n = Await f)")
  case True
  then obtain f where f: "n < length ts" "ts ! n = Await f"
    by blast
  let ?l = "ls ! n"
  have len: "length ls = length ts"
    using assms(2) by (rule list_all2_lengthD)
  have eqs: "w' = fst (f i w)" "ts' = ts[n := snd (f i w)]"
    using step f by (auto split: prod.splits)
  have at: "task_safe (rely (ls ! m)) (guar (ls ! m)) inv (\<lambda>_ _. True) (ts ! m) w" if "m < length ts" for m
    using assms(2) that by (simp add: list_all2_conv_all_nth)
  have own: "guar ?l w w' \<and> inv w' \<and> task_safe (rely ?l) (guar ?l) inv (\<lambda>_ _. True) (snd (f i w)) w'"
    using at [OF f(1)] f(2) assms(1) rely_refl [of ?l w] eqs(1) by (simp add: task_safe_simps)
  have "task_safe (rely (ls ! m)) (guar (ls ! m)) inv (\<lambda>_ _. True) (ts' ! m) w'" if m: "m < length ts" for m
  proof (cases "m = n")
    case True
    then show ?thesis
      using own f eqs by simp
  next
    case False
    then have "ls ! m \<noteq> ?l \<or> shared (ls ! m)"
      using distinct_filter_nth [OF labels, of m n] distinct_filter_nth [OF labels, of n m] m f(1) len
      by (metis nat_neq_iff)
    then have "rely (ls ! m) w w'"
      using guar_rely own assms(1) by blast
    then show ?thesis
      using safe_rely [OF at [OF m]] False eqs by simp
  qed
  then show ?thesis
    using own eqs len by (simp add: list_all2_conv_all_nth)
next
  case False
  then have "w' = w" "ts' = ts"
    using step by (auto split: if_splits task.splits)
  then show ?thesis
    using assms(1,2) by simp
qed

theorem schedule_safe:
  assumes "inv w" "list_all2 (\<lambda>l t. task_safe (rely l) (guar l) inv (\<lambda>_ _. True) t w) ls ts"
    and labels: "distinct (filter (\<lambda>l. \<not> shared l) ls)"
    and "run_schedule schedule (w, ts) = (w', ts')"
  shows "inv w' \<and> list_all2 (\<lambda>l t. task_safe (rely l) (guar l) inv (\<lambda>_ _. True) t w') ls ts'"
  using assms(1,2,4)
proof (induction schedule arbitrary: w ts)
  case Nil
  then show ?case by (simp add: run_schedule_def)
next
  case (Cons s schedule)
  obtain n i where s: "s = (n, i)"
    by (cases s)
  obtain w1 ts1 where step: "resume (n, i) (w, ts) = (w1, ts1)"
    by (cases "resume (n, i) (w, ts)")
  then have "run_schedule schedule (w1, ts1) = (w', ts')"
    using Cons.prems(3) s by (simp add: run_schedule_def del: resume.simps)
  then show ?case
    using Cons.IH [of w1 ts1] resume_safe [OF Cons.prems(1,2) labels step] by blast
qed

end

end
