(* ===== verification/Delegation.thy ===== *)
theory Delegation
  imports Capability_Grants "HOL-Library.AList"
begin

text \<open>
  Delegation of capabilities (\<^verbatim>\<open>security/delegation.rs\<close>): attenuated child grants and the
  hierarchical budget they draw from.  \<^verbatim>\<open>chrono\<close> is a parameter: \<^verbatim>\<open>Duration::seconds\<close>, which
  panics outside its range, and \<^verbatim>\<open>checked_add_signed\<close>.
\<close>

section \<open>The hierarchical budget\<close>

record budget_reservation =
  br_grant_id :: uuid
  br_parent_grant_id :: "uuid option"
  br_allocated_units :: u64
  br_consumed_units :: u64

text \<open>
  The hash map is an association list with distinct keys; the code only asks for the
  presence of a key, for one entry, or for \<^verbatim>\<open>any\<close> and \<^verbatim>\<open>sum\<close> over all values.
\<close>

record hierarchical_budget =
  hb_hard_limit :: u64
  hb_reservations :: "(uuid \<times> budget_reservation) list"

definition hierarchical_budget_new :: "u64 \<Rightarrow> hierarchical_budget"
  where "hierarchical_budget_new hard_limit = \<lparr> hb_hard_limit = hard_limit, hb_reservations = [] \<rparr>"

abbreviation reservation_of :: "hierarchical_budget \<Rightarrow> uuid \<Rightarrow> budget_reservation option"
  where "reservation_of b i \<equiv> map_of (hb_reservations b) i"

definition has_root :: "hierarchical_budget \<Rightarrow> bool"
  where "has_root b = list_ex (\<lambda>r. br_parent_grant_id r = None) (map snd (hb_reservations b))"

definition insert_reservation :: "budget_reservation \<Rightarrow> hierarchical_budget \<Rightarrow> hierarchical_budget"
  where "insert_reservation r b =
    b\<lparr>hb_reservations := AList.update (br_grant_id r) r (hb_reservations b)\<rparr>"

definition register_root ::
    "hierarchical_budget \<Rightarrow> uuid \<Rightarrow> u64 \<Rightarrow> (domain_error, hierarchical_budget) result"
  where "register_root b grant_id allocated_units =
    (if allocated_units > hb_hard_limit b
     then Err (PolicyViolation ''root budget exceeds hard limit'')
     else if has_root b then Err (PolicyViolation ''hierarchical budget already has a root'')
     else if reservation_of b grant_id \<noteq> None
     then Err (PolicyViolation ''budget grant is already registered'')
     else Ok (insert_reservation
            \<lparr> br_grant_id = grant_id, br_parent_grant_id = None,
              br_allocated_units = allocated_units, br_consumed_units = 0 \<rparr> b))"

definition register_root_with_child ::
    "hierarchical_budget \<Rightarrow> uuid \<Rightarrow> u64 \<Rightarrow> uuid \<Rightarrow> u64 \<Rightarrow> (domain_error, hierarchical_budget) result"
  where "register_root_with_child b root_grant_id root_units child_grant_id child_units =
    (if child_units = 0 then Err (InvalidArgument ''budget reservation must be positive'')
     else if child_units > root_units
     then Err (PolicyViolation ''hierarchical budget allocation exceeded'')
     else if root_grant_id = child_grant_id
     then Err (PolicyViolation ''budget root and child must be distinct'')
     else if reservation_of b root_grant_id \<noteq> None \<or> reservation_of b child_grant_id \<noteq> None
     then Err (PolicyViolation ''budget grant is already registered'')
     else if root_units > hb_hard_limit b
     then Err (PolicyViolation ''root budget exceeds hard limit'')
     else if has_root b then Err (PolicyViolation ''hierarchical budget already has a root'')
     else Ok (insert_reservation
                \<lparr> br_grant_id = child_grant_id, br_parent_grant_id = Some root_grant_id,
                  br_allocated_units = child_units, br_consumed_units = 0 \<rparr>
             (insert_reservation
                \<lparr> br_grant_id = root_grant_id, br_parent_grant_id = None,
                  br_allocated_units = root_units, br_consumed_units = 0 \<rparr> b)))"

text \<open>The units reserved for children are summed in \<^verbatim>\<open>u64\<close>, which wraps in a release build.\<close>

definition children_reserved :: "hierarchical_budget \<Rightarrow> uuid \<Rightarrow> u64"
  where "children_reserved b grant_id =
    sum_list (map br_allocated_units
      (filter (\<lambda>child. br_parent_grant_id child = Some grant_id) (map snd (hb_reservations b))))"

definition remaining :: "hierarchical_budget \<Rightarrow> uuid \<Rightarrow> u64 option"
  where "remaining b grant_id =
    (case reservation_of b grant_id of
       None \<Rightarrow> None
     | Some r \<Rightarrow> checked_sub (br_allocated_units r)
                  (saturating_add (br_consumed_units r) (children_reserved b grant_id)))"

text \<open>\<^verbatim>\<open>show_uuid\<close> renders an identifier in a message.\<close>

definition reserve_child ::
    "(uuid \<Rightarrow> string) \<Rightarrow> hierarchical_budget \<Rightarrow> uuid \<Rightarrow> uuid \<Rightarrow> u64
     \<Rightarrow> (domain_error, hierarchical_budget) result"
  where "reserve_child show_uuid b parent_grant_id child_grant_id allocated_units =
    (if allocated_units = 0 then Err (InvalidArgument ''budget reservation must be positive'')
     else if reservation_of b child_grant_id \<noteq> None
     then Err (PolicyViolation ''budget grant is already reserved'')
     else if (case remaining b parent_grant_id of None \<Rightarrow> True | Some left \<Rightarrow> left < allocated_units)
     then Err (PolicyViolation ''hierarchical budget allocation exceeded'')
     else if reservation_of b parent_grant_id = None
     then Err (NotFound (''budget parent '' @ show_uuid parent_grant_id))
     else Ok (insert_reservation
            \<lparr> br_grant_id = child_grant_id, br_parent_grant_id = Some parent_grant_id,
              br_allocated_units = allocated_units, br_consumed_units = 0 \<rparr> b))"

definition charge ::
    "(uuid \<Rightarrow> string) \<Rightarrow> hierarchical_budget \<Rightarrow> uuid \<Rightarrow> u64
     \<Rightarrow> (domain_error failure, hierarchical_budget) result"
  where "charge show_uuid b grant_id amount =
    and_then (ok_or (Fails (NotFound (''budget grant '' @ show_uuid grant_id))) (remaining b grant_id))
      (\<lambda>left.
    if amount > left then Err (Fails (PolicyViolation ''budget charge exceeds reservation''))
    else
      and_then (ok_or Panics (reservation_of b grant_id)) (\<lambda>r.
      Ok (b\<lparr>hb_reservations := AList.update grant_id
              (r\<lparr>br_consumed_units := br_consumed_units r + amount\<rparr>) (hb_reservations b)\<rparr>)))"

section \<open>Delegation\<close>

definition delegation_operation :: string
  where "delegation_operation = ''capability.delegate''"

definition max_delegation_depth :: u8
  where "max_delegation_depth = 8"

record delegation_contract =
  dc_capability :: capability
  dc_resource_scope :: string
  dc_max_depth :: u8
  dc_max_lifetime_seconds :: "u64 option"
  dc_max_risk :: risk_category
  dc_max_budget_units :: u64

definition delegation_contract_new ::
    "capability \<Rightarrow> string \<Rightarrow> u8 \<Rightarrow> u64 option \<Rightarrow> risk_category \<Rightarrow> u64
     \<Rightarrow> (domain_error, delegation_contract) result"
  where "delegation_contract_new capability resource_scope max_depth max_lifetime_seconds max_risk
      max_budget_units =
    (if trim resource_scope = []
     then Err (InvalidArgument ''delegation resource scope must not be empty'')
     else if CHR ''*'' \<in> set resource_scope
     then Err (PolicyViolation ''delegation wildcard resource scope is not allowed'')
     else if max_depth = 0 \<or> max_depth > max_delegation_depth
     then Err (PolicyViolation ''delegation depth must be between 1 and 8'')
     else if (case max_lifetime_seconds of Some seconds \<Rightarrow> unat seconds > 2 ^ 63 - 1 | None \<Rightarrow> False)
     then Err (InvalidArgument ''delegation lifetime is too large'')
     else if max_budget_units = 0
     then Err (InvalidArgument ''delegation budget must be positive'')
     else Ok \<lparr> dc_capability = capability, dc_resource_scope = resource_scope,
               dc_max_depth = max_depth, dc_max_lifetime_seconds = max_lifetime_seconds,
               dc_max_risk = max_risk, dc_max_budget_units = max_budget_units \<rparr>)"

record delegated_capability =
  dg_grant :: capability_grant
  dg_parent_grant_id :: uuid
  dg_delegation_grant_id :: uuid
  dg_depth :: u8

record chrono =
  chrono_seconds :: "int \<Rightarrow> int option"
  chrono_checked_add :: "timestamp \<Rightarrow> int \<Rightarrow> timestamp option"

text \<open>A check that ends with \<^verbatim>\<open>is_none_or(|child_until| child_until > bound)\<close>.\<close>

definition outlives :: "timestamp option \<Rightarrow> timestamp \<Rightarrow> bool"
  where "outlives child_until bound = (case child_until of None \<Rightarrow> True | Some u \<Rightarrow> u > bound)"

definition validate_lifetime ::
    "chrono \<Rightarrow> capability_grant_spec \<Rightarrow> delegation_contract \<Rightarrow> (domain_error failure, unit) result"
  where "validate_lifetime chr child contract =
    (case dc_max_lifetime_seconds contract of
       None \<Rightarrow> Ok ()
     | Some seconds \<Rightarrow>
         and_then (ok_or Panics (chrono_seconds chr (sint (seconds :: u64)))) (\<lambda>lifetime.
         and_then (ok_or (Fails (InvalidArgument ''delegation lifetime overflows timestamp''))
                     (chrono_checked_add chr (sp_valid_from child) lifetime)) (\<lambda>max_until.
         if outlives (sp_valid_until child) max_until
         then Err (Fails (PolicyViolation ''delegated validity exceeds contract lifetime''))
         else Ok ())))"

definition validate_attenuation ::
    "chrono \<Rightarrow> capability_grant \<Rightarrow> capability_grant \<Rightarrow> capability_grant_spec \<Rightarrow> delegation_contract
     \<Rightarrow> u8 \<Rightarrow> timestamp \<Rightarrow> (domain_error failure, unit) result"
  where "validate_attenuation chr parent permission child contract parent_depth at =
    reject_if (\<not> is_active_at parent at)
      (Fails (PolicyViolation ''delegation parent grant is not active''))
   (reject_if (\<not> is_active_at permission at)
      (Fails (PolicyViolation ''delegation permission is not active''))
   (reject_if (cg_capability permission \<noteq> CapabilityDelegate
        \<or> cg_operation permission \<noteq> delegation_operation)
      (Fails (PolicyViolation ''explicit capability.delegate permission is required''))
   (reject_if (cg_workspace_id parent \<noteq> cg_workspace_id permission
        \<or> cg_workspace_id parent \<noteq> sp_workspace_id child)
      (Fails (PolicyViolation ''delegation workspace mismatch''))
   (reject_if (cg_subject_id permission \<noteq> cg_subject_id parent
        \<or> sp_issuer_id child \<noteq> cg_subject_id parent)
      (Fails (PolicyViolation ''delegation subject/issuer mismatch''))
   (reject_if (sp_subject_id child = cg_subject_id parent)
      (Fails (PolicyViolation ''delegation cannot self-escalate''))
   (reject_if (list_ex (\<lambda>required. \<not> list_ex (\<lambda>c. c = required) (sp_conditions child))
        (cg_conditions parent @ cg_conditions permission))
      (Fails (PolicyViolation ''delegated grant cannot drop a parent condition''))
   (reject_if (sp_capability child \<noteq> cg_capability parent \<or> sp_capability child \<noteq> dc_capability contract)
      (Fails (PolicyViolation ''delegated capability exceeds parent authority''))
   (reject_if (\<not> selector_is_within (sp_operation child) (cg_operation parent)
        \<or> \<not> scope_is_within (sp_resource_scope child) (cg_resource_scope parent)
        \<or> \<not> scope_is_within (dc_resource_scope contract) (cg_resource_scope parent)
        \<or> \<not> scope_is_within (sp_resource_scope child) (dc_resource_scope contract)
        \<or> \<not> scope_is_within (dc_resource_scope contract) (cg_resource_scope permission))
      (Fails (PolicyViolation ''delegated selector exceeds parent or delegation scope''))
   (reject_if (sp_risk_ceiling child > cg_risk_ceiling parent
        \<or> sp_risk_ceiling child > dc_max_risk contract
        \<or> sp_risk_ceiling child > cg_risk_ceiling permission)
      (Fails (PolicyViolation ''delegated risk exceeds parent ceiling''))
   (and_then (ok_or (Fails (PolicyViolation ''delegated child requires a budget'')) (sp_budget child))
     (\<lambda>child_budget.
    reject_if (max_units child_budget > dc_max_budget_units contract
        \<or> (case cg_budget permission of
             Some allowed \<Rightarrow> dc_max_budget_units contract > max_units allowed | None \<Rightarrow> False))
      (Fails (PolicyViolation ''delegated budget exceeds explicit delegation ceiling''))
   (reject_if (parent_depth \<ge> max_delegation_depth \<or> parent_depth + 1 > dc_max_depth contract)
      (Fails (PolicyViolation ''delegation depth limit exceeded''))
   (reject_if (sp_valid_from child < at \<or> sp_valid_from child < cg_valid_from parent)
      (Fails (PolicyViolation ''delegated validity cannot begin before delegation''))
   (reject_if (case cg_valid_until parent of
          Some parent_until \<Rightarrow> outlives (sp_valid_until child) parent_until | None \<Rightarrow> False)
      (Fails (PolicyViolation ''delegated validity exceeds parent interval''))
   (reject_if (case cg_valid_until permission of
          Some permission_until \<Rightarrow> outlives (sp_valid_until child) permission_until | None \<Rightarrow> False)
      (Fails (PolicyViolation ''delegated validity exceeds delegation permission interval''))
   (validate_lifetime chr child contract))))))))))))))))"

definition attenuate ::
    "(uuid \<Rightarrow> string) \<Rightarrow> capability_grant \<Rightarrow> capability_grant \<Rightarrow> capability_grant_spec \<Rightarrow> u8
     \<Rightarrow> hierarchical_budget \<Rightarrow> timestamp
     \<Rightarrow> (domain_error failure, delegated_capability \<times> hierarchical_budget) result"
  where "attenuate show_uuid parent permission child_spec parent_depth budget at =
    and_then (ok_or (Fails (PolicyViolation ''delegated child requires a budget'')) (sp_budget child_spec))
      (\<lambda>child_budget.
    and_then (map_err Fails (issue child_spec at)) (\<lambda>grant.
    and_then (map_err Fails (reserve_child show_uuid budget (cg_id parent) (sp_id child_spec)
                (max_units child_budget))) (\<lambda>budget'.
    Ok (\<lparr> dg_grant = grant, dg_parent_grant_id = cg_id parent,
          dg_delegation_grant_id = cg_id permission, dg_depth = parent_depth + 1 \<rparr>, budget'))))"

definition from_root ::
    "chrono \<Rightarrow> capability_grant \<Rightarrow> capability_grant \<Rightarrow> capability_grant_spec \<Rightarrow> delegation_contract
     \<Rightarrow> hierarchical_budget \<Rightarrow> timestamp
     \<Rightarrow> (domain_error failure, delegated_capability \<times> hierarchical_budget) result"
  where "from_root chr parent permission child_spec contract budget at =
    (let parent_budget = (case cg_budget parent of
           Some constraint \<Rightarrow> max_units constraint | None \<Rightarrow> dc_max_budget_units contract) in
     and_then (validate_attenuation chr parent permission child_spec contract 0 at) (\<lambda>_.
     and_then (ok_or (Fails (PolicyViolation ''delegated child requires a budget'')) (sp_budget child_spec))
       (\<lambda>child_budget.
     if max_units child_budget > parent_budget
     then Err (Fails (PolicyViolation ''delegated budget exceeds parent allocation''))
     else
       and_then (map_err Fails (issue child_spec at)) (\<lambda>grant.
       and_then (map_err Fails (register_root_with_child budget (cg_id parent) parent_budget
                   (cg_id grant) (max_units child_budget))) (\<lambda>budget'.
       Ok (\<lparr> dg_grant = grant, dg_parent_grant_id = cg_id parent,
             dg_delegation_grant_id = cg_id permission, dg_depth = 1 \<rparr>, budget'))))))"

definition delegate ::
    "chrono \<Rightarrow> (uuid \<Rightarrow> string) \<Rightarrow> delegated_capability \<Rightarrow> capability_grant \<Rightarrow> capability_grant_spec
     \<Rightarrow> delegation_contract \<Rightarrow> hierarchical_budget \<Rightarrow> timestamp
     \<Rightarrow> (domain_error failure, delegated_capability \<times> hierarchical_budget) result"
  where "delegate chr show_uuid self permission child_spec contract budget at =
    and_then (validate_attenuation chr (dg_grant self) permission child_spec contract
                (dg_depth self) at) (\<lambda>_.
    attenuate show_uuid (dg_grant self) permission child_spec (dg_depth self) budget at)"

section \<open>The budget, proved\<close>

text \<open>Sums over the reservations, in unbounded arithmetic.\<close>

definition child_units :: "budget_reservation list \<Rightarrow> uuid \<Rightarrow> nat"
  where "child_units vs p =
    sum_list (map (unat \<circ> br_allocated_units) (filter (\<lambda>r. br_parent_grant_id r = Some p) vs))"

definition reservation_fits :: "budget_reservation list \<Rightarrow> budget_reservation \<Rightarrow> bool"
  where "reservation_fits vs r \<longleftrightarrow>
    unat (br_consumed_units r) + child_units vs (br_grant_id r) \<le> unat (br_allocated_units r)"

definition budget_values :: "hierarchical_budget \<Rightarrow> budget_reservation list"
  where "budget_values b = map snd (hb_reservations b)"

definition root_units :: "budget_reservation list \<Rightarrow> nat"
  where "root_units vs =
    sum_list (map (unat \<circ> br_allocated_units) (filter (\<lambda>r. br_parent_grant_id r = None) vs))"

definition budget_ok :: "hierarchical_budget \<Rightarrow> bool"
  where "budget_ok b \<longleftrightarrow>
     map fst (hb_reservations b) = map br_grant_id (budget_values b) \<and>
     distinct (map br_grant_id (budget_values b)) \<and>
     (\<forall>r\<in>set (budget_values b). reservation_fits (budget_values b) r) \<and>
     (\<forall>r\<in>set (budget_values b). \<forall>p. br_parent_grant_id r = Some p \<longrightarrow>
        p \<in> br_grant_id ` set (budget_values b)) \<and>
     root_units (budget_values b) \<le> unat (hb_hard_limit b) \<and>
     length (filter (\<lambda>r. br_parent_grant_id r = None) (budget_values b)) \<le> 1"

lemma child_units_append: "child_units (xs @ ys) p = child_units xs p + child_units ys p"
  by (simp add: child_units_def)

lemma child_units_Cons:
  "child_units (r # vs) p =
     (if br_parent_grant_id r = Some p then unat (br_allocated_units r) else 0) + child_units vs p"
  by (simp add: child_units_def)

lemma child_units_Nil [simp]: "child_units [] p = 0"
  by (simp add: child_units_def)

lemma child_units_none: "(\<forall>r\<in>set vs. br_parent_grant_id r \<noteq> Some p) \<Longrightarrow> child_units vs p = 0"
  by (simp add: child_units_def filter_empty_conv [THEN iffD2])

lemma update_fresh: "k \<notin> fst ` set al \<Longrightarrow> AList.update k v al = al @ [(k, v)]"
  by (induction al) auto

lemma update_present:
  "k \<notin> fst ` set xs \<Longrightarrow> AList.update k v (xs @ (k, w) # ys) = xs @ (k, v) # ys"
  by (induction xs) auto

lemma unat_sum_list:
  fixes ws :: "'w::len word list"
  assumes "sum_list (map unat ws) < 2 ^ LENGTH('w)"
  shows "unat (sum_list ws) = sum_list (map unat ws)"
  using assms by (induction ws) (simp_all add: unat_add_no_overflow)

lemma budget_entry:
  assumes "budget_ok b" "reservation_of b i = Some r"
  shows "r \<in> set (budget_values b)" "br_grant_id r = i"
    "reservation_fits (budget_values b) r"
proof -
  have mem: "(i, r) \<in> set (hb_reservations b)"
    using assms(2) by (rule map_of_SomeD)
  then show r: "r \<in> set (budget_values b)"
    by (force simp: budget_values_def)
  have "map fst (hb_reservations b) = map (br_grant_id \<circ> snd) (hb_reservations b)"
    using assms(1) by (simp add: budget_ok_def budget_values_def)
  then show "br_grant_id r = i"
    using mem by (auto simp: map_eq_conv)
  show "reservation_fits (budget_values b) r"
    using assms(1) r by (simp add: budget_ok_def)
qed

lemma budget_lookup:
  assumes "budget_ok b" "v \<in> set (budget_values b)"
  shows "reservation_of b (br_grant_id v) = Some v"
proof (rule map_of_is_SomeI)
  show "distinct (map fst (hb_reservations b))"
    using assms(1) by (simp add: budget_ok_def)
  have "map fst (hb_reservations b) = map (br_grant_id \<circ> snd) (hb_reservations b)"
    using assms(1) by (simp add: budget_ok_def budget_values_def)
  then show "(br_grant_id v, v) \<in> set (hb_reservations b)"
    using assms(2) by (auto simp: map_eq_conv budget_values_def)
qed

text \<open>Under the invariant the \<^verbatim>\<open>u64\<close> arithmetic of \<^verbatim>\<open>remaining\<close> is exact.\<close>

lemma children_reserved_exact:
  assumes "budget_ok b" "reservation_of b i = Some r"
  shows "unat (children_reserved b i) = child_units (budget_values b) i"
proof -
  let ?vs = "budget_values b"
  have "child_units ?vs i \<le> unat (br_allocated_units r)"
    using budget_entry [OF assms] by (simp add: reservation_fits_def)
  also have "\<dots> < 2 ^ 64"
    using unsigned_less [of "br_allocated_units r", where ?'a = nat] by simp
  finally have "child_units ?vs i < 2 ^ 64" .
  then show ?thesis
    unfolding children_reserved_def child_units_def
    by (subst unat_sum_list) (simp_all add: comp_def budget_values_def)
qed

lemma remaining_exact:
  assumes "budget_ok b" "reservation_of b i = Some r"
  shows "\<exists>left. remaining b i = Some left \<and>
    unat left = unat (br_allocated_units r) - unat (br_consumed_units r)
      - child_units (budget_values b) i"
proof -
  let ?c = "br_consumed_units r" and ?k = "children_reserved b i"
  have fits: "unat ?c + unat ?k \<le> unat (br_allocated_units r)"
    using budget_entry [OF assms] children_reserved_exact [OF assms] by (simp add: reservation_fits_def)
  also have "\<dots> \<le> 2 ^ 64 - 1"
    using unsigned_less [of "br_allocated_units r", where ?'a = nat] by simp
  finally have sat: "unat (saturating_add ?c ?k) = unat ?c + unat ?k"
    by (simp add: unat_saturating_add)
  have le: "saturating_add ?c ?k \<le> br_allocated_units r"
    using fits by (simp add: word_le_nat_alt sat)
  then have "remaining b i = Some (br_allocated_units r - saturating_add ?c ?k)"
    using assms(2) by (simp add: remaining_def checked_sub_def)
  then show ?thesis
    using le sat children_reserved_exact [OF assms] by (simp add: unat_sub)
qed

lemma remaining_Some: "remaining b i = Some left \<Longrightarrow> \<exists>r. reservation_of b i = Some r"
  by (auto simp: remaining_def split: option.splits)

text \<open>Adding a reservation without children of its own.\<close>

lemma insert_reservation_values:
  assumes "reservation_of b (br_grant_id r) = None"
  shows "hb_reservations (insert_reservation r b) = hb_reservations b @ [(br_grant_id r, r)]"
  using assms by (simp add: insert_reservation_def update_fresh map_of_eq_None_iff)

lemma budget_values_insert:
  assumes "reservation_of b (br_grant_id r) = None"
  shows "budget_values (insert_reservation r b) = budget_values b @ [r]"
  by (simp add: budget_values_def insert_reservation_values [OF assms])

lemma hard_limit_insert [simp]: "hb_hard_limit (insert_reservation r b) = hb_hard_limit b"
  by (simp add: insert_reservation_def)

lemma insert_reservation_ok:
  assumes ok: "budget_ok b" and new: "reservation_of b (br_grant_id r) = None"
    and unused: "br_consumed_units r = 0"
    and parent: "case br_parent_grant_id r of
      None \<Rightarrow> \<not> has_root b \<and> br_allocated_units r \<le> hb_hard_limit b
    | Some p \<Rightarrow> \<exists>left. remaining b p = Some left \<and> br_allocated_units r \<le> left"
  shows "budget_ok (insert_reservation r b)"
proof -
  let ?vs = "budget_values b" and ?i = "br_grant_id r"
  have keys: "map fst (hb_reservations b) = map br_grant_id ?vs"
    using ok by (simp add: budget_ok_def)
  have fresh: "?i \<notin> br_grant_id ` set ?vs"
    using new keys by (metis list.set_map map_of_eq_None_iff)
  have present: "br_grant_id v \<in> br_grant_id ` set ?vs" if "v \<in> set ?vs" for v
    using that by blast
  have orphan: "child_units ?vs ?i = 0"
  proof (rule child_units_none, intro ballI notI)
    fix v assume "v \<in> set ?vs" "br_parent_grant_id v = Some ?i"
    then show False
      using ok fresh by (auto simp: budget_ok_def)
  qed
  have self: "br_parent_grant_id r \<noteq> Some ?i"
    using parent new remaining_Some [of b ?i] by auto
  have room: "reservation_fits (?vs @ [r]) v" if v: "v \<in> set ?vs" for v
  proof (cases "br_parent_grant_id r = Some (br_grant_id v)")
    case False
    then show ?thesis
      using ok v by (auto simp: reservation_fits_def child_units_append child_units_Cons budget_ok_def)
  next
    case True
    then obtain left where left: "remaining b (br_grant_id v) = Some left" "br_allocated_units r \<le> left"
      using parent by auto
    have "reservation_of b (br_grant_id v) = Some v"
      by (rule budget_lookup [OF ok v])
    then have "unat left = unat (br_allocated_units v) - unat (br_consumed_units v)
        - child_units ?vs (br_grant_id v)"
      using remaining_exact [OF ok] left(1) by force
    moreover have "unat (br_allocated_units r) \<le> unat left" "reservation_fits ?vs v"
      using left(2) ok v by (simp_all add: word_le_nat_alt budget_ok_def)
    ultimately show ?thesis
      using True by (simp add: reservation_fits_def child_units_append child_units_Cons)
  qed
  have new_fits: "reservation_fits (?vs @ [r]) r"
    using orphan self unused by (simp add: reservation_fits_def child_units_append child_units_Cons)
  have parents: "p \<in> br_grant_id ` set ?vs" if par: "br_parent_grant_id r = Some p" for p
  proof -
    obtain v where "reservation_of b p = Some v"
      using parent par remaining_Some [of b p] by auto
    then show ?thesis
      using budget_entry [OF ok] by blast
  qed
  have roots: "root_units (?vs @ [r]) \<le> unat (hb_hard_limit b) \<and>
    length (filter (\<lambda>r. br_parent_grant_id r = None) (?vs @ [r])) \<le> 1"
  proof (cases "br_parent_grant_id r")
    case None
    then have "filter (\<lambda>v. br_parent_grant_id v = None) ?vs = []"
      using parent by (simp add: has_root_def list_ex_iff filter_empty_conv budget_values_def)
    then show ?thesis
      using None parent by (simp add: root_units_def word_le_nat_alt)
  next
    case (Some p)
    then show ?thesis
      using ok by (simp add: budget_ok_def root_units_def)
  qed
  show ?thesis
    unfolding budget_ok_def budget_values_insert [OF new] insert_reservation_values [OF new] hard_limit_insert
    using keys fresh ok room new_fits parents roots
    by (auto simp: budget_ok_def)
qed


lemma register_root_ok:
  assumes "budget_ok b" "register_root b i units = Ok b'"
  shows "budget_ok b'"
proof -
  have "b' = insert_reservation \<lparr> br_grant_id = i, br_parent_grant_id = None,
      br_allocated_units = units, br_consumed_units = 0 \<rparr> b"
    and "reservation_of b i = None" "\<not> has_root b" "\<not> units > hb_hard_limit b"
    using assms(2) by (simp_all add: register_root_def split: if_splits)
  then show ?thesis
    using insert_reservation_ok [OF assms(1)] by simp
qed

lemma reserve_child_Ok:
  assumes "reserve_child shw b p i units = Ok b'"
  shows "b' = insert_reservation \<lparr> br_grant_id = i, br_parent_grant_id = Some p,
      br_allocated_units = units, br_consumed_units = 0 \<rparr> b"
    and "reservation_of b i = None" and "\<exists>left. remaining b p = Some left \<and> units \<le> left"
  using assms by (auto simp: reserve_child_def split: if_splits option.splits)

lemma reserve_child_ok:
  assumes "budget_ok b" "reserve_child shw b p i units = Ok b'"
  shows "budget_ok b'"
  using insert_reservation_ok [OF assms(1)] reserve_child_Ok [OF assms(2)] by simp

lemma register_root_with_child_Ok:
  assumes "register_root_with_child b i units j child = Ok b'"
  obtains b1 where "register_root b i units = Ok b1"
    "b' = insert_reservation \<lparr> br_grant_id = j, br_parent_grant_id = Some i,
      br_allocated_units = child, br_consumed_units = 0 \<rparr> b1"
    "b1 = insert_reservation \<lparr> br_grant_id = i, br_parent_grant_id = None,
      br_allocated_units = units, br_consumed_units = 0 \<rparr> b"
    "reservation_of b i = None" "reservation_of b j = None" "i \<noteq> j" "child \<le> units"
  using assms by (auto simp: register_root_with_child_def register_root_def split: if_splits)

lemma register_root_with_child_ok:
  assumes ok: "budget_ok b" and reg: "register_root_with_child b i units j child = Ok b'"
  shows "budget_ok b'"
proof (rule register_root_with_child_Ok [OF reg])
  fix b1
  assume b1: "register_root b i units = Ok b1"
    "b' = insert_reservation \<lparr> br_grant_id = j, br_parent_grant_id = Some i,
      br_allocated_units = child, br_consumed_units = 0 \<rparr> b1"
    "b1 = insert_reservation \<lparr> br_grant_id = i, br_parent_grant_id = None,
      br_allocated_units = units, br_consumed_units = 0 \<rparr> b"
    "reservation_of b i = None" "reservation_of b j = None" "i \<noteq> j" "child \<le> units"
  let ?r = "\<lparr> br_grant_id = i, br_parent_grant_id = None, br_allocated_units = units, br_consumed_units = 0 \<rparr>"
  have ok1: "budget_ok b1"
    by (rule register_root_ok [OF ok b1(1)])
  have res: "hb_reservations b1 = hb_reservations b @ [(i, ?r)]"
    using insert_reservation_values [of b ?r] b1(3,4) by simp
  have vals: "budget_values b1 = budget_values b @ [?r]"
    using budget_values_insert [of b ?r] b1(3,4) by simp
  have look: "reservation_of b1 i = Some ?r" "reservation_of b1 j = None"
    using b1(4-6) res by (simp_all add: map_add_def)
  have "i \<notin> br_grant_id ` set (budget_values b)"
    using ok b1(4) by (metis budget_ok_def list.set_map map_of_eq_None_iff)
  then have "child_units (budget_values b1) i = 0"
    using ok by (auto simp: vals child_units_append child_units_Cons budget_ok_def intro!: child_units_none)
  then obtain left where "remaining b1 i = Some left" "unat left = unat units"
    using remaining_exact [OF ok1 look(1)] by auto
  then show ?thesis
    using insert_reservation_ok [OF ok1] look b1(2,7) by (simp add: word_le_nat_alt)
qed

text \<open>A charge changes what one reservation has consumed.\<close>

lemma charge_Ok:
  assumes ok: "budget_ok b" and ch: "charge shw b i amount = Ok b'"
  obtains xs r ys where "hb_reservations b = xs @ (i, r) # ys" "br_grant_id r = i"
    "hb_reservations b' = xs @ (i, r\<lparr>br_consumed_units := br_consumed_units r + amount\<rparr>) # ys"
    "hb_hard_limit b' = hb_hard_limit b" "reservation_of b i = Some r"
    "unat (br_consumed_units r) + unat amount + child_units (budget_values b) i \<le> unat (br_allocated_units r)"
    "unat (br_consumed_units r + amount) = unat (br_consumed_units r) + unat amount"
proof -
  obtain left r where left: "remaining b i = Some left" "amount \<le> left" "reservation_of b i = Some r"
      "b' = b\<lparr>hb_reservations := AList.update i (r\<lparr>br_consumed_units := br_consumed_units r + amount\<rparr>)
              (hb_reservations b)\<rparr>"
    using ch by (auto simp: charge_def and_then_Ok_iff ok_or_Ok_iff not_less split: if_splits)
  have r: "br_grant_id r = i" "reservation_fits (budget_values b) r"
    using budget_entry [OF ok left(3)] by simp_all
  obtain xs ys where split: "hb_reservations b = xs @ (i, r) # ys"
    using map_of_SomeD [OF left(3)] by (meson split_list)
  have "distinct (map fst (hb_reservations b))"
    using ok by (simp add: budget_ok_def)
  then have "i \<notin> fst ` set xs"
    using split by auto
  then have upd: "hb_reservations b' =
      xs @ (i, r\<lparr>br_consumed_units := br_consumed_units r + amount\<rparr>) # ys"
    using left(4) split update_present [of i xs] by simp
  have "unat left = unat (br_allocated_units r) - unat (br_consumed_units r) - child_units (budget_values b) i"
    using remaining_exact [OF ok left(3)] left(1) by force
  then have room: "unat (br_consumed_units r) + unat amount + child_units (budget_values b) i
      \<le> unat (br_allocated_units r)"
    using left(2) r by (simp add: word_le_nat_alt reservation_fits_def)
  then have "unat (br_consumed_units r) + unat amount < 2 ^ 64"
    using unsigned_less [of "br_allocated_units r", where ?'a = nat] by simp
  then have "unat (br_consumed_units r + amount) = unat (br_consumed_units r) + unat amount"
    by (simp add: unat_add_no_overflow)
  then show ?thesis
    using that split r(1) upd left(3,4) room by simp
qed

lemma charge_ok:
  assumes ok: "budget_ok b" and ch: "charge shw b i amount = Ok b'"
  shows "budget_ok b'"
proof (rule charge_Ok [OF ok ch])
  fix xs r ys
  assume c: "hb_reservations b = xs @ (i, r) # ys" "br_grant_id r = i"
    "hb_reservations b' = xs @ (i, r\<lparr>br_consumed_units := br_consumed_units r + amount\<rparr>) # ys"
    "hb_hard_limit b' = hb_hard_limit b"
    "unat (br_consumed_units r) + unat amount + child_units (budget_values b) i \<le> unat (br_allocated_units r)"
    "unat (br_consumed_units r + amount) = unat (br_consumed_units r) + unat amount"
  let ?r = "r\<lparr>br_consumed_units := br_consumed_units r + amount\<rparr>"
  have vals: "budget_values b = map snd xs @ r # map snd ys" "budget_values b' = map snd xs @ ?r # map snd ys"
    using c(1,3) by (simp_all add: budget_values_def)
  have same: "child_units (budget_values b') p = child_units (budget_values b) p" for p
    by (simp add: vals child_units_append child_units_Cons)
  have roots: "root_units (budget_values b') = root_units (budget_values b)"
    by (simp add: vals root_units_def)
  have ids: "map br_grant_id (budget_values b') = map br_grant_id (budget_values b)"
    "map fst (hb_reservations b') = map fst (hb_reservations b)"
    using c(1,3) by (simp_all add: vals)
  have fits: "reservation_fits (budget_values b') v" if "v \<in> set (budget_values b')" for v
    using that ok c(2,5,6) unfolding reservation_fits_def same
    by (auto simp: vals budget_ok_def reservation_fits_def)
  have "br_grant_id ` set (budget_values b') = br_grant_id ` set (budget_values b)"
    using ids(1) by (metis list.set_map)
  then show ?thesis
    using ok fits roots ids c(4) unfolding budget_ok_def
    by (auto simp: vals)
qed

text \<open>What all reservations consumed together stays within the roots.\<close>

lemma child_units_total:
  assumes "\<And>r p. r \<in> set vs \<Longrightarrow> br_parent_grant_id r = Some p \<Longrightarrow> p \<in> set ids" "distinct ids"
  shows "sum_list (map (child_units vs) ids) + root_units vs = sum_list (map (unat \<circ> br_allocated_units) vs)"
  using assms(1)
proof (induction vs)
  case Nil
  then show ?case by (simp add: root_units_def)
next
  case (Cons r vs)
  have IH: "sum_list (map (child_units vs) ids) + root_units vs = sum_list (map (unat \<circ> br_allocated_units) vs)"
    using Cons by (meson list.set_intros(2))
  show ?case
  proof (cases "br_parent_grant_id r")
    case None
    then show ?thesis
      using IH by (simp add: child_units_Cons root_units_def comp_def)
  next
    case (Some p)
    then have "p \<in> set ids"
      using Cons.prems [of r p] by simp
    then obtain xs ys where ids: "ids = xs @ p # ys" "p \<notin> set xs" "p \<notin> set ys"
      using assms(2) by (metis distinct.simps(2) distinct_append not_distinct_conv_prefix split_list
          disjoint_iff list.set_intros(1))
    have same: "map (child_units (r # vs)) xs = map (child_units vs) xs"
      "map (child_units (r # vs)) ys = map (child_units vs) ys"
      using Some ids by (auto simp: child_units_Cons)
    have "sum_list (map (child_units (r # vs)) ids)
        = unat (br_allocated_units r) + sum_list (map (child_units vs) ids)"
      using Some by (simp add: ids(1) same child_units_Cons [of r vs p])
    then show ?thesis
      using IH Some by (simp add: root_units_def comp_def)
  qed
qed

lemma budget_spending_bound:
  assumes "budget_ok b"
  shows "sum_list (map (unat \<circ> br_consumed_units) (budget_values b)) \<le> root_units (budget_values b)"
proof -
  let ?vs = "budget_values b"
  let ?ids = "map br_grant_id ?vs"
  have total: "sum_list (map (child_units ?vs) ?ids) + root_units ?vs
      = sum_list (map (unat \<circ> br_allocated_units) ?vs)"
    by (rule child_units_total) (use assms in \<open>auto simp: budget_ok_def\<close>)
  have "sum_list (map (\<lambda>r. unat (br_consumed_units r) + child_units ?vs (br_grant_id r)) ?vs)
      \<le> sum_list (map (unat \<circ> br_allocated_units) ?vs)"
    using assms by (intro sum_list_mono) (simp add: budget_ok_def reservation_fits_def)
  then have "sum_list (map (unat \<circ> br_consumed_units) ?vs) + sum_list (map (child_units ?vs) ?ids)
      \<le> sum_list (map (unat \<circ> br_allocated_units) ?vs)"
    by (simp add: sum_list_addf comp_def)
  then show ?thesis
    using total by linarith
qed

lemma root_units_of_root:
  assumes ok: "budget_ok b" and r: "reservation_of b i = Some r" "br_parent_grant_id r = None"
  shows "root_units (budget_values b) = unat (br_allocated_units r)"
proof -
  let ?roots = "filter (\<lambda>r. br_parent_grant_id r = None) (budget_values b)"
  have "r \<in> set ?roots" "length ?roots \<le> 1"
    using budget_entry [OF ok r(1)] r(2) ok by (simp_all add: budget_ok_def)
  then have "?roots = [r]"
    by (cases ?roots) auto
  then show ?thesis
    by (simp add: root_units_def)
qed

section \<open>Attenuation, proved\<close>

text \<open>The authority of one grant is contained in that of another.\<close>

definition narrows :: "capability_grant \<Rightarrow> capability_grant \<Rightarrow> bool"
  where "narrows child parent \<longleftrightarrow>
    (\<forall>w s r t. grant_authorizes child w s r t \<longrightarrow> grant_authorizes parent w (cg_subject_id parent) r t)"

lemma narrows_trans: "narrows a b \<Longrightarrow> narrows b c \<Longrightarrow> narrows a c"
  unfolding narrows_def by blast

lemma issue_Ok:
  assumes "issue spec at = Ok g"
  shows "cg_id g = sp_id spec" "cg_workspace_id g = sp_workspace_id spec"
    "cg_subject_id g = sp_subject_id spec" "cg_capability g = sp_capability spec"
    "cg_operation g = sp_operation spec" "cg_resource_scope g = sp_resource_scope spec"
    "cg_valid_from g = sp_valid_from spec" "cg_valid_until g = sp_valid_until spec"
    "cg_budget g = sp_budget spec" "cg_risk_ceiling g = sp_risk_ceiling spec"
    "cg_conditions g = sp_conditions spec" "cg_status g = Grant_Active"
  using assms by (auto simp: issue_def and_then_Ok_iff split: if_splits)

lemma validate_attenuation_Ok:
  assumes "validate_attenuation chr parent permission child contract depth at = Ok u"
  shows "is_active_at parent at" "cg_workspace_id parent = sp_workspace_id child"
    "sp_subject_id child \<noteq> cg_subject_id parent"
    "set (cg_conditions parent) \<subseteq> set (sp_conditions child)"
    "sp_capability child = cg_capability parent"
    "selector_is_within (sp_operation child) (cg_operation parent)"
    "scope_is_within (sp_resource_scope child) (cg_resource_scope parent)"
    "sp_risk_ceiling child \<le> cg_risk_ceiling parent"
    "cg_valid_from parent \<le> sp_valid_from child"
    "\<And>until. cg_valid_until parent = Some until \<Longrightarrow> \<exists>u. sp_valid_until child = Some u \<and> u \<le> until"
    "depth < max_delegation_depth" "\<exists>cb. sp_budget child = Some cb"
  using assms unfolding validate_attenuation_def reject_if_Ok_iff and_then_Ok_iff
  by (auto simp: ok_or_Ok_iff outlives_def list_ex_iff not_le not_less split: option.splits)

lemma attenuation_narrows:
  assumes val: "validate_attenuation chr parent permission child contract depth at = Ok u"
    and iss: "issue child at = Ok g"
    and budget: "\<And>pb cb. cg_budget parent = Some pb \<Longrightarrow> sp_budget child = Some cb \<Longrightarrow> max_units cb \<le> max_units pb"
  shows "narrows g parent"
  unfolding narrows_def
proof (intro allI impI)
  fix w s r t
  assume auth: "grant_authorizes g w s r t"
  note v = validate_attenuation_Ok [OF val] and i = issue_Ok [OF iss]
  have sel: "selector_is_within (rq_operation r) (cg_operation parent)"
    using auth v(6) i(5) selector.within_trans unfolding grant_authorizes_def by metis
  have sco: "scope_is_within (rq_resource_scope r) (cg_resource_scope parent)"
    using auth v(7) i(6) scope.within_trans unfolding grant_authorizes_def by metis
  have act: "is_active_at parent t"
    using auth v(1,9,10) i(7,8) unfolding grant_authorizes_def is_active_at_def
    by (cases "cg_valid_until parent") fastforce+
  obtain cb where cb: "sp_budget child = Some cb"
    using v(12) by blast
  have "rq_requested_budget_units r \<le> max_units cb"
    using auth i(9) cb unfolding grant_authorizes_def by simp
  then have bud: "rq_requested_budget_units r \<le> max_units pb" if "cg_budget parent = Some pb" for pb
    using budget [OF that cb] by (rule order_trans)
  show "grant_authorizes parent w (cg_subject_id parent) r t"
    using auth v(2,4,5,8) i(2,4,10,11) sel sco act bud unfolding grant_authorizes_def
    by (auto intro: order_trans)
qed


section \<open>Systems of delegations\<close>

text \<open>
  Every way to use a budget: its own operations, delegation from a root grant, and
  delegation of a delegated capability.  Each capability is kept with the root grant it
  descends from.
\<close>

inductive delegation_system ::
    "chrono \<Rightarrow> (uuid \<Rightarrow> string) \<Rightarrow> u64 \<Rightarrow> hierarchical_budget
     \<Rightarrow> (capability_grant \<times> delegated_capability) list \<Rightarrow> bool"
  for chr shw limit
  where
    start: "delegation_system chr shw limit (hierarchical_budget_new limit) []"
  | register: "delegation_system chr shw limit b ds \<Longrightarrow> register_root b i units = Ok b' \<Longrightarrow>
      delegation_system chr shw limit b' ds"
  | reserve: "delegation_system chr shw limit b ds \<Longrightarrow> reserve_child shw b p i units = Ok b' \<Longrightarrow>
      delegation_system chr shw limit b' ds"
  | spend: "delegation_system chr shw limit b ds \<Longrightarrow> charge shw b i amount = Ok b' \<Longrightarrow>
      delegation_system chr shw limit b' ds"
  | root: "delegation_system chr shw limit b ds \<Longrightarrow>
      from_root chr parent permission spec contract b at = Ok (d, b') \<Longrightarrow>
      delegation_system chr shw limit b' ((parent, d) # ds)"
  | descend: "delegation_system chr shw limit b ds \<Longrightarrow> (origin, self) \<in> set ds \<Longrightarrow>
      delegate chr shw self permission spec contract b at = Ok (d, b') \<Longrightarrow>
      delegation_system chr shw limit b' ((origin, d) # ds)"

definition delegated_ok :: "hierarchical_budget \<Rightarrow> capability_grant \<Rightarrow> delegated_capability \<Rightarrow> bool"
  where "delegated_ok b origin d \<longleftrightarrow>
    (\<exists>r cb. reservation_of b (cg_id (dg_grant d)) = Some r \<and> cg_budget (dg_grant d) = Some cb \<and>
       br_allocated_units r = max_units cb) \<and>
    narrows (dg_grant d) origin \<and> 1 \<le> dg_depth d \<and> dg_depth d \<le> max_delegation_depth"

text \<open>No operation takes a reservation away or changes its size.\<close>

definition keeps_reservations :: "hierarchical_budget \<Rightarrow> hierarchical_budget \<Rightarrow> bool"
  where "keeps_reservations b b' \<longleftrightarrow> hb_hard_limit b' = hb_hard_limit b \<and>
    (\<forall>i r. reservation_of b i = Some r \<longrightarrow>
       (\<exists>r'. reservation_of b' i = Some r' \<and> br_allocated_units r' = br_allocated_units r))"

lemma keeps_insert:
  "reservation_of b (br_grant_id r) = None \<Longrightarrow> keeps_reservations b (insert_reservation r b)"
  by (auto simp: keeps_reservations_def insert_reservation_def update_conv)

lemma keeps_trans: "keeps_reservations a b \<Longrightarrow> keeps_reservations b c \<Longrightarrow> keeps_reservations a c"
  unfolding keeps_reservations_def by metis

lemma keeps_register: "register_root b i units = Ok b' \<Longrightarrow> keeps_reservations b b'"
  by (auto simp: register_root_def intro!: keeps_insert split: if_splits)

lemma keeps_reserve: "reserve_child shw b p i units = Ok b' \<Longrightarrow> keeps_reservations b b'"
  using reserve_child_Ok [of shw b p i units b'] by (auto intro!: keeps_insert)

lemma keeps_register_child:
  assumes "register_root_with_child b i units j child = Ok b'"
  shows "keeps_reservations b b'"
proof (rule register_root_with_child_Ok [OF assms])
  fix b1
  assume b1: "register_root b i units = Ok b1"
    "b' = insert_reservation \<lparr> br_grant_id = j, br_parent_grant_id = Some i,
      br_allocated_units = child, br_consumed_units = 0 \<rparr> b1"
    "b1 = insert_reservation \<lparr> br_grant_id = i, br_parent_grant_id = None,
      br_allocated_units = units, br_consumed_units = 0 \<rparr> b"
    "reservation_of b j = None" "i \<noteq> j"
  have "reservation_of b1 j = None"
    using b1(3-5) by (simp add: insert_reservation_def update_conv)
  then show ?thesis
    using keeps_trans [OF keeps_register [OF b1(1)]] b1(2) keeps_insert by simp
qed

lemma keeps_charge:
  assumes "budget_ok b" "charge shw b i amount = Ok b'"
  shows "keeps_reservations b b'"
  by (rule charge_Ok [OF assms])
    (auto simp: keeps_reservations_def map_add_def split: option.splits)

lemma delegated_ok_keeps: "delegated_ok b origin d \<Longrightarrow> keeps_reservations b b' \<Longrightarrow> delegated_ok b' origin d"
  unfolding delegated_ok_def keeps_reservations_def by metis

lemma from_root_Ok:
  assumes ok: "budget_ok b" and run: "from_root chr parent permission spec contract b at = Ok (d, b')"
  shows "budget_ok b'" "keeps_reservations b b'" "delegated_ok b' parent d"
proof -
  let ?pb = "case cg_budget parent of Some c \<Rightarrow> max_units c | None \<Rightarrow> dc_max_budget_units contract"
  obtain g cb where f: "validate_attenuation chr parent permission spec contract 0 at = Ok ()"
      "sp_budget spec = Some cb" "max_units cb \<le> ?pb" "issue spec at = Ok g"
      "register_root_with_child b (cg_id parent) ?pb (cg_id g) (max_units cb) = Ok b'"
      "d = \<lparr> dg_grant = g, dg_parent_grant_id = cg_id parent,
             dg_delegation_grant_id = cg_id permission, dg_depth = 1 \<rparr>"
    using run by (auto simp: from_root_def Let_def and_then_Ok_iff ok_or_Ok_iff map_err_Ok_iff split: if_splits)
  show "budget_ok b'" "keeps_reservations b b'"
    using register_root_with_child_ok [OF ok f(5)] keeps_register_child [OF f(5)] by simp_all
  have "\<exists>r. reservation_of b' (cg_id g) = Some r \<and> br_allocated_units r = max_units cb"
    by (rule register_root_with_child_Ok [OF f(5)]) (simp add: insert_reservation_def update_conv)
  moreover have "narrows g parent"
    by (rule attenuation_narrows [OF f(1,4)]) (use f(2,3) in auto)
  ultimately show "delegated_ok b' parent d"
    using f(2,6) issue_Ok(9) [OF f(4)] by (auto simp: delegated_ok_def max_delegation_depth_def)
qed

lemma delegate_Ok:
  assumes ok: "budget_ok b" "delegated_ok b origin self"
    and run: "delegate chr shw self permission spec contract b at = Ok (d, b')"
  shows "budget_ok b'" "keeps_reservations b b'" "delegated_ok b' origin d" "narrows (dg_grant d) (dg_grant self)"
proof -
  let ?p = "dg_grant self"
  obtain g cb where f: "validate_attenuation chr ?p permission spec contract (dg_depth self) at = Ok ()"
      "sp_budget spec = Some cb" "issue spec at = Ok g"
      "reserve_child shw b (cg_id ?p) (sp_id spec) (max_units cb) = Ok b'"
      "d = \<lparr> dg_grant = g, dg_parent_grant_id = cg_id ?p,
             dg_delegation_grant_id = cg_id permission, dg_depth = dg_depth self + 1 \<rparr>"
    using run by (auto simp: delegate_def attenuate_def and_then_Ok_iff ok_or_Ok_iff map_err_Ok_iff)
  show b': "budget_ok b'" "keeps_reservations b b'"
    using reserve_child_ok [OF ok(1) f(4)] keeps_reserve [OF f(4)] by simp_all
  obtain r pb where r: "reservation_of b (cg_id ?p) = Some r" "cg_budget ?p = Some pb"
      "br_allocated_units r = max_units pb"
    using ok(2) by (auto simp: delegated_ok_def)
  obtain left where left: "remaining b (cg_id ?p) = Some left" "max_units cb \<le> left"
    using reserve_child_Ok(3) [OF f(4)] by blast
  have "unat left \<le> unat (br_allocated_units r)"
    using remaining_exact [OF ok(1) r(1)] left(1) by force
  then have small: "max_units cb \<le> max_units pb"
    using left(2) r(3) by (simp add: word_le_nat_alt)
  have "narrows g ?p"
    by (rule attenuation_narrows [OF f(1,3)]) (use f(2) r(2) small in simp)
  then show nar: "narrows (dg_grant d) ?p"
    using f(5) by simp
  have depth: "dg_depth self < max_delegation_depth"
    by (rule validate_attenuation_Ok(11) [OF f(1)])
  then have "1 \<le> dg_depth self + 1" "dg_depth self + 1 \<le> max_delegation_depth"
    by (simp_all add: max_delegation_depth_def word_le_nat_alt word_less_nat_alt unat_add_no_overflow)
  moreover have "\<exists>r. reservation_of b' (cg_id g) = Some r \<and> br_allocated_units r = max_units cb"
    using reserve_child_Ok(1) [OF f(4)] issue_Ok(1) [OF f(3)] by (simp add: insert_reservation_def update_conv)
  moreover have "narrows g origin"
    using nar f(5) ok(2) narrows_trans by (auto simp: delegated_ok_def)
  ultimately show "delegated_ok b' origin d"
    using f(2,5) issue_Ok(9) [OF f(3)] by (auto simp: delegated_ok_def)
qed

lemma delegation_system_ok:
  "delegation_system chr shw limit b ds \<Longrightarrow>
     budget_ok b \<and> hb_hard_limit b = limit \<and> (\<forall>(origin, d)\<in>set ds. delegated_ok b origin d)"
proof (induction rule: delegation_system.induct)
  case start
  then show ?case
    by (simp add: hierarchical_budget_new_def budget_ok_def budget_values_def root_units_def)
next
  case (register b ds i units b')
  then show ?case
    using keeps_register [of b i units b'] register_root_ok [of b i units b']
    by (auto intro: delegated_ok_keeps simp: keeps_reservations_def [of b b'])
next
  case (reserve b ds p i units b')
  then show ?case
    using keeps_reserve [of shw b p i units b'] reserve_child_ok [of b shw p i units b']
    by (auto intro: delegated_ok_keeps simp: keeps_reservations_def [of b b'])
next
  case (spend b ds i amount b')
  then show ?case
    using keeps_charge [of b shw i amount b'] charge_ok [of b shw i amount b']
    by (auto intro: delegated_ok_keeps simp: keeps_reservations_def [of b b'])
next
  case (root b ds parent permission spec contract at d b')
  then show ?case
    using from_root_Ok [of b chr parent permission spec contract at d b']
    by (auto intro: delegated_ok_keeps simp: keeps_reservations_def [of b b'])
next
  case (descend b ds origin self permission spec contract at d b')
  then have "delegated_ok b origin self" by auto
  then show ?case
    using descend delegate_Ok [of b origin self chr shw permission spec contract at d b']
    by (auto intro: delegated_ok_keeps simp: keeps_reservations_def [of b b'])
qed


section \<open>Properties\<close>

text \<open>
  C19: budgets are conserved.  However a hierarchical budget is used, all grants together never
  consume more than the units allocated to the root grant, which lie within the hard limit; and
  for every reservation the 64-bit computation of what
  remains is exact: allocation minus consumption minus what its children hold, never an
  overflow and never missing.
\<close>

theorem delegation_budget_conserved:
  assumes "delegation_system chr shw limit b ds"
  shows "sum_list (map (unat \<circ> br_consumed_units \<circ> snd) (hb_reservations b)) \<le> unat limit \<and>
    (\<forall>i r. reservation_of b i = Some r \<and> br_parent_grant_id r = None \<longrightarrow>
       sum_list (map (unat \<circ> br_consumed_units \<circ> snd) (hb_reservations b)) \<le> unat (br_allocated_units r) \<and>
       unat (br_allocated_units r) \<le> unat limit) \<and>
    (\<forall>i r. reservation_of b i = Some r \<longrightarrow>
       (\<exists>left. remaining b i = Some left \<and>
          unat (br_consumed_units r) + unat left +
          sum_list (map (unat \<circ> br_allocated_units)
            (filter (\<lambda>c. br_parent_grant_id c = Some i) (map snd (hb_reservations b))))
          = unat (br_allocated_units r)))"
proof -
  have ok: "budget_ok b" "hb_hard_limit b = limit"
    using delegation_system_ok [OF assms] by simp_all
  have "\<exists>left. remaining b i = Some left \<and>
      unat (br_consumed_units r) + unat left + child_units (budget_values b) i = unat (br_allocated_units r)"
    if "reservation_of b i = Some r" for i r
    using remaining_exact [OF ok(1) that] budget_entry [OF ok(1) that]
    by (auto simp: reservation_fits_def)
  moreover have spent: "sum_list (map (unat \<circ> br_consumed_units \<circ> snd) (hb_reservations b))
      \<le> root_units (budget_values b)" "root_units (budget_values b) \<le> unat limit"
    using budget_spending_bound [OF ok(1)] ok by (simp_all add: budget_values_def comp_assoc budget_ok_def)
  moreover have "sum_list (map (unat \<circ> br_consumed_units \<circ> snd) (hb_reservations b)) \<le> unat (br_allocated_units r) \<and>
       unat (br_allocated_units r) \<le> unat limit"
    if "reservation_of b i = Some r" "br_parent_grant_id r = None" for i r
    using spent root_units_of_root [OF ok(1) that] by simp
  ultimately show ?thesis
    by (simp add: child_units_def budget_values_def) blast
qed

text \<open>
  C20: delegation never widens authority.  Whatever chain of delegations produced a capability,
  every request it authorizes, at any time, is authorized by the root grant it descends from;
  chains are at most eight links long.
\<close>

theorem delegated_authority_within_root:
  assumes "delegation_system chr shw limit b ds" "(origin, d) \<in> set ds"
    and "grant_authorizes (dg_grant d) workspace subject request now"
  shows "grant_authorizes origin workspace (cg_subject_id origin) request now \<and>
    1 \<le> unat (dg_depth d) \<and> unat (dg_depth d) \<le> 8"
proof -
  have "delegated_ok b origin d"
    using delegation_system_ok [OF assms(1)] assms(2) by auto
  then show ?thesis
    using assms(3)
    by (auto simp: delegated_ok_def narrows_def max_delegation_depth_def word_le_nat_alt)
qed

definition sample_permission :: capability_grant
  where "sample_permission = sample_grant\<lparr>cg_id := 22, cg_capability := CapabilityDelegate,
    cg_operation := ''capability.delegate''\<rparr>"

definition sample_child_spec :: capability_grant_spec
  where "sample_child_spec =
    \<lparr> sp_id = 23, sp_workspace_id = 3, sp_subject_id = 6, sp_issuer_id = 4,
      sp_capability = MemoryWrite, sp_operation = ''memory.write'',
      sp_resource_scope = ''memory://0198'', sp_valid_from = 12, sp_valid_until = Some 20,
      sp_budget = Some \<lparr> max_units = 50 \<rparr>, sp_risk_ceiling = Risk_Medium, sp_conditions = [] \<rparr>"

definition sample_contract :: delegation_contract
  where "sample_contract =
    \<lparr> dc_capability = MemoryWrite, dc_resource_scope = ''memory://'', dc_max_depth = 2,
      dc_max_lifetime_seconds = None, dc_max_risk = Risk_High, dc_max_budget_units = 50 \<rparr>"

definition sample_chrono :: chrono
  where "sample_chrono =
    \<lparr> chrono_seconds = (\<lambda>s. if abs s \<le> 9223372036854775 then Some (s * 1000000000) else None),
      chrono_checked_add = (\<lambda>t d. Some (t + d)) \<rparr>"

lemmas delegation_samples = sample_permission_def sample_child_spec_def sample_contract_def
  sample_chrono_def sample_grant_def

lemma sample_child_issued: "is_ok (issue sample_child_spec 11)"
  using sample_scope_parses
  by (auto simp: issue_def sample_child_spec_def is_ok_iff and_then_Ok_iff) (simp_all add: trim_eval)

lemma sample_delegation:
  obtains d b where "from_root sample_chrono sample_grant sample_permission sample_child_spec
      sample_contract (hierarchical_budget_new 100) 11 = Ok (d, b)"
    "grant_authorizes (dg_grant d) 3 6 sample_request 15"
    "reservation_of b 21 = Some \<lparr> br_grant_id = 21, br_parent_grant_id = None,
       br_allocated_units = 50, br_consumed_units = 0 \<rparr>"
proof -
  obtain g where g: "issue sample_child_spec 11 = Ok g"
    using sample_child_issued by (auto simp: is_ok_iff)
  note i = issue_Ok [OF g]
  have val: "validate_attenuation sample_chrono sample_grant sample_permission sample_child_spec
      sample_contract 0 11 = Ok ()"
    by (simp add: validate_attenuation_def validate_lifetime_def delegation_samples is_active_at_def
        delegation_operation_def selector_is_within_def scope_is_within_def less_risk_category_def
        max_delegation_depth_def outlives_def)
  have reg: "is_ok (register_root_with_child (hierarchical_budget_new 100) 21 50 23 50)"
    by (simp add: register_root_with_child_def hierarchical_budget_new_def has_root_def)
  have auth: "grant_authorizes g 3 6 sample_request 15"
    by (simp add: grant_authorizes_def i sample_child_spec_def sample_request_def is_active_at_def
        selector_is_within_def scope_is_within_def less_eq_risk_category_def)
  obtain b where b: "register_root_with_child (hierarchical_budget_new 100) 21 50 23 50 = Ok b"
    using reg by (auto simp: is_ok_iff)
  have root: "reservation_of b 21 = Some \<lparr> br_grant_id = 21, br_parent_grant_id = None,
      br_allocated_units = 50, br_consumed_units = 0 \<rparr>"
    using b by (auto simp: register_root_with_child_def hierarchical_budget_new_def has_root_def
        insert_reservation_def)
  have ids: "cg_id sample_grant = 21" "cg_id g = 23" "cg_budget sample_grant = Some \<lparr> max_units = 50 \<rparr>"
      "sp_budget sample_child_spec = Some \<lparr> max_units = 50 \<rparr>"
    by (simp_all add: i sample_grant_def sample_child_spec_def)
  have "from_root sample_chrono sample_grant sample_permission sample_child_spec sample_contract
      (hierarchical_budget_new 100) 11 =
      Ok (\<lparr> dg_grant = g, dg_parent_grant_id = 21, dg_delegation_grant_id = cg_id sample_permission,
            dg_depth = 1 \<rparr>, b)"
    by (simp add: from_root_def val g ids b Let_def)
  then show ?thesis
    using that auth root by fastforce
qed

theorem delegation_budget_conserved_witness:
  "\<exists>d b. delegation_system sample_chrono (\<lambda>_. []) 100 b [(sample_grant, d)] \<and>
     reservation_of b 21 \<noteq> None \<and>
     sum_list (map (unat \<circ> br_consumed_units \<circ> snd) (hb_reservations b)) \<le> 50"
proof -
  obtain d b where d: "from_root sample_chrono sample_grant sample_permission sample_child_spec
      sample_contract (hierarchical_budget_new 100) 11 = Ok (d, b)"
    and root: "reservation_of b 21 = Some \<lparr> br_grant_id = 21, br_parent_grant_id = None,
      br_allocated_units = 50, br_consumed_units = 0 \<rparr>"
    by (rule sample_delegation)
  have sys: "delegation_system sample_chrono (\<lambda>_. []) 100 b [(sample_grant, d)]"
    by (rule delegation_system.root [OF delegation_system.start d])
  show ?thesis
    using delegation_budget_conserved [OF sys] sys root by fastforce
qed

theorem delegated_authority_within_root_witness:
  "\<exists>d b. delegation_system sample_chrono (\<lambda>_. []) 100 b [(sample_grant, d)] \<and>
     grant_authorizes (dg_grant d) 3 6 sample_request 15 \<and>
     grant_authorizes sample_grant 3 (cg_subject_id sample_grant) sample_request 15"
proof -
  obtain d b where d: "from_root sample_chrono sample_grant sample_permission sample_child_spec
      sample_contract (hierarchical_budget_new 100) 11 = Ok (d, b)"
    "grant_authorizes (dg_grant d) 3 6 sample_request 15"
    by (rule sample_delegation)
  have sys: "delegation_system sample_chrono (\<lambda>_. []) 100 b [(sample_grant, d)]"
    by (rule delegation_system.root [OF delegation_system.start d(1)])
  show ?thesis
    using delegated_authority_within_root [OF sys _ d(2), of sample_grant] sys d(2) by auto
qed

end
