(* ===== verification/Policy_Engine.thy ===== *)
theory Policy_Engine
  imports Delegation Run_Store "HOL-Library.Product_Lexorder"
begin

text \<open>
  The engines that decide authorization requests (\<^verbatim>\<open>security/policy_engine.rs\<close>,
  \<^verbatim>\<open>security/grant_store.rs\<close>) and the table of grants that one of them reads
  (\<^verbatim>\<open>postgres/capability_grant_repository.rs\<close>, migration 0147).  The identifier of a decision and
  the clock are arguments.
\<close>

section \<open>Decisions and the boundary\<close>

text \<open>\<^verbatim>\<open>{:?}\<close> of a reason is the name of the variant.\<close>

fun policy_decision_reason_debug :: "policy_decision_reason \<Rightarrow> string"
  where
    "policy_decision_reason_debug DefaultDeny = ''DefaultDeny''"
  | "policy_decision_reason_debug GrantMatched = ''GrantMatched''"
  | "policy_decision_reason_debug ConfiguredAllowance = ''ConfiguredAllowance''"
  | "policy_decision_reason_debug WorkspaceMismatch = ''WorkspaceMismatch''"
  | "policy_decision_reason_debug SubjectMismatch = ''SubjectMismatch''"
  | "policy_decision_reason_debug CapabilityMismatch = ''CapabilityMismatch''"
  | "policy_decision_reason_debug OperationMismatch = ''OperationMismatch''"
  | "policy_decision_reason_debug ResourceMismatch = ''ResourceMismatch''"
  | "policy_decision_reason_debug NotYetValid = ''NotYetValid''"
  | "policy_decision_reason_debug Expired = ''Expired''"
  | "policy_decision_reason_debug Revoked = ''Revoked''"
  | "policy_decision_reason_debug BudgetExceeded = ''BudgetExceeded''"
  | "policy_decision_reason_debug RiskExceedsCeiling = ''RiskExceedsCeiling''"
  | "policy_decision_reason_debug ConditionNotSatisfied = ''ConditionNotSatisfied''"

type_synonym decider =
  "uuid \<Rightarrow> timestamp \<Rightarrow> request_context \<Rightarrow> authorization_request \<Rightarrow> (application_error, policy_decision) result"

definition boundary_require :: "decider \<Rightarrow> decider"
  where "boundary_require engine decision_id at ctx request =
    and_then (engine decision_id at ctx request) (\<lambda>decision.
    if is_allowed decision then Ok decision
    else Err (App_Policy (''authorization denied: '' @ policy_decision_reason_debug (pd_reason decision))))"

text \<open>
  \<^verbatim>\<open>PolicyEngine::evaluate\<close> of the deciding engines: a capability is asked for as an operation on the
  workspace itself.
\<close>

definition capability_request :: "capability \<Rightarrow> authorization_request"
  where "capability_request capability =
    authorization_request_new capability (capability_display capability)
      (resource_scope_display resource_scope_workspace) Risk_Low"

definition evaluate_capability :: "decider \<Rightarrow> uuid \<Rightarrow> timestamp \<Rightarrow> request_context \<Rightarrow> capability
    \<Rightarrow> (application_error, unit) result"
  where "evaluate_capability engine decision_id at ctx capability =
    and_then (engine decision_id at ctx (capability_request capability)) (\<lambda>decision.
    if is_allowed decision then Ok ()
    else Err (App_Policy (''capability denied: '' @ policy_decision_reason_debug (pd_reason decision))))"

section \<open>Engines over a list of grants\<close>

record grant_policy_engine =
  ge_policy_version :: string
  ge_grants :: "capability_grant list"

definition grant_policy_engine_new ::
    "string \<Rightarrow> capability_grant list \<Rightarrow> (application_error, grant_policy_engine) result"
  where "grant_policy_engine_new policy_version grants =
    (if trim policy_version = []
     then Err (App_InvalidConfiguration ''policy version must not be empty'')
     else Ok \<lparr> ge_policy_version = policy_version, ge_grants = grants \<rparr>)"

definition grant_decide :: "grant_policy_engine \<Rightarrow> decider"
  where "grant_decide engine decision_id at ctx request =
    map_err App_Domain (evaluate_capability_grants decision_id (rc_workspace_id ctx) (rc_principal_id ctx)
      (ge_policy_version engine) request (ge_grants engine) at)"

definition deny_all_decide :: decider
  where "deny_all_decide decision_id at ctx request =
    map_err App_Domain (evaluate_capability_grants decision_id (rc_workspace_id ctx) (rc_principal_id ctx)
      ''deny-all'' request [] at)"

text \<open>
  \<^verbatim>\<open>BudgetPolicyEngine\<close>: the budget is behind a mutex, which is \<^const>\<open>None\<close> when poisoned; a charge
  that panics inside the critical section poisons it.
\<close>

definition budget_decide ::
    "(uuid \<Rightarrow> string) \<Rightarrow> grant_policy_engine \<Rightarrow> hierarchical_budget option \<Rightarrow> uuid \<Rightarrow> timestamp
     \<Rightarrow> request_context \<Rightarrow> authorization_request
     \<Rightarrow> (application_error failure, policy_decision) result \<times> hierarchical_budget option"
  where "budget_decide show_uuid engine lock decision_id at ctx request =
    (case grant_decide engine decision_id at ctx request of
       Inl e \<Rightarrow> (Err (Fails e), lock)
     | Inr decision \<Rightarrow>
         (let denied = decision\<lparr>pd_result := Deny, pd_reason := BudgetExceeded, pd_matched_grant_id := None\<rparr> in
          if is_allowed decision \<and> 0 < rq_requested_budget_units request
          then case (pd_matched_grant_id decision, lock) of
              (Some grant_id, Some budget) \<Rightarrow>
                (case charge show_uuid budget grant_id (rq_requested_budget_units request) of
                   Inr budget' \<Rightarrow> (Ok decision, Some budget')
                 | Inl (Fails _) \<Rightarrow> (Ok denied, lock)
                 | Inl Panics \<Rightarrow> (Err Panics, None))
            | _ \<Rightarrow> (Ok denied, lock)
          else (Ok decision, lock)))"

section \<open>Engines over a set of capabilities\<close>

record configured_capability_policy_engine =
  ce_policy_version :: string
  ce_capabilities :: "capability list"
  ce_risk_ceiling :: risk_category

definition configured_engine_new ::
    "string \<Rightarrow> capability list \<Rightarrow> risk_category \<Rightarrow> (application_error, configured_capability_policy_engine) result"
  where "configured_engine_new policy_version capabilities risk_ceiling =
    (if trim policy_version = []
     then Err (App_InvalidConfiguration ''policy version must not be empty'')
     else Ok \<lparr> ce_policy_version = policy_version, ce_capabilities = remdups capabilities,
               ce_risk_ceiling = risk_ceiling \<rparr>)"

fun parse_capabilities :: "string list \<Rightarrow> (application_error, capability list) result"
  where
    "parse_capabilities [] = Ok []"
  | "parse_capabilities (c # cs) =
       (if trim c = [] then parse_capabilities cs
        else and_then (map_err App_Domain (capability_from_str (trim c))) (\<lambda>parsed.
             and_then (parse_capabilities cs) (\<lambda>rest. Ok (parsed # rest))))"

definition configured_from_strings ::
    "string \<Rightarrow> string list \<Rightarrow> risk_category \<Rightarrow> (application_error, configured_capability_policy_engine) result"
  where "configured_from_strings policy_version capabilities risk_ceiling =
    and_then (parse_capabilities capabilities) (\<lambda>parsed.
    configured_engine_new policy_version parsed risk_ceiling)"

definition configured_decision ::
    "configured_capability_policy_engine \<Rightarrow> uuid \<Rightarrow> timestamp \<Rightarrow> request_context \<Rightarrow> authorization_request
     \<Rightarrow> policy_decision_result \<Rightarrow> policy_decision_reason \<Rightarrow> policy_decision"
  where "configured_decision engine decision_id at ctx request result reason =
    \<lparr> pd_id = decision_id, pd_policy_id = None, pd_policy_version = ce_policy_version engine,
      pd_workspace_id = rc_workspace_id ctx, pd_subject_id = rc_principal_id ctx,
      pd_capability = rq_capability request, pd_operation = rq_operation request,
      pd_resource_scope = rq_resource_scope request, pd_result = result, pd_reason = reason,
      pd_input_state = policy_input_state_from_request (rc_workspace_id ctx) (rc_principal_id ctx) request,
      pd_matched_grant_id = None, pd_decided_at = at \<rparr>"

definition configured_decide :: "configured_capability_policy_engine \<Rightarrow> decider"
  where "configured_decide engine decision_id at ctx request =
    Ok (if ce_capabilities engine = []
        then configured_decision engine decision_id at ctx request Deny DefaultDeny
        else if rq_capability request \<notin> set (ce_capabilities engine)
        then configured_decision engine decision_id at ctx request Deny CapabilityMismatch
        else if effective_risk request > ce_risk_ceiling engine
        then configured_decision engine decision_id at ctx request Deny RiskExceedsCeiling
        else configured_decision engine decision_id at ctx request Allow ConfiguredAllowance)"

definition capability_set_evaluate :: "capability list \<Rightarrow> capability \<Rightarrow> (application_error, unit) result"
  where "capability_set_evaluate capabilities capability =
    (if capability \<in> set capabilities then Ok ()
     else Err (App_Policy (''missing required capability: '' @ capability_display capability)))"

definition workspace_scoped_evaluate ::
    "uuid \<Rightarrow> capability list \<Rightarrow> request_context \<Rightarrow> capability \<Rightarrow> (application_error, unit) result"
  where "workspace_scoped_evaluate workspace_id capabilities ctx capability =
    (if rc_workspace_id ctx \<noteq> workspace_id then Err (App_Policy ''workspace mismatch'')
     else capability_set_evaluate capabilities capability)"

section \<open>The table of grants\<close>

text \<open>
  The columns that statements read or constraints mention; \<^verbatim>\<open>payload\<close> reads back as it was written.
\<close>

record grant_row =
  gr_id :: uuid
  gr_workspace_id :: uuid
  gr_subject_id :: uuid
  gr_status :: string
  gr_valid_from :: timestamp
  gr_valid_until :: "timestamp option"
  gr_created_at :: timestamp
  gr_revoked_at :: "timestamp option"
  gr_budget_max_units :: "int option"
  gr_payload :: capability_grant

fun grant_status_name :: "capability_grant_status \<Rightarrow> string"
  where
    "grant_status_name Grant_Active = ''active''"
  | "grant_status_name Grant_Revoked = ''revoked''"

definition decode_grant :: "grant_row \<Rightarrow> (application_error, capability_grant) result"
  where "decode_grant row =
    (let grant = gr_payload row in
     if grant_status_name (cg_status grant) \<noteq> gr_status row
     then Err (App_Storage ''capability grant status column disagrees with its payload'')
     else if cg_subject_id grant \<noteq> gr_subject_id row
     then Err (App_Storage ''capability grant subject column disagrees with its payload'')
     else Ok grant)"

definition budget_column :: "capability_grant \<Rightarrow> (application_error, int option) result"
  where "budget_column grant =
    (case cg_budget grant of
       None \<Rightarrow> Ok None
     | Some b \<Rightarrow> if unat (max_units b) < 2 ^ 63 then Ok (Some (int (unat (max_units b))))
                 else Err (App_Storage try_from_int_error))"

text \<open>The check constraints of migration 0147; \<^verbatim>\<open>workspaces\<close> are the rows the foreign key accepts.\<close>

definition grant_row_admitted :: "uuid set \<Rightarrow> grant_row list \<Rightarrow> grant_row \<Rightarrow> bool"
  where "grant_row_admitted workspaces rows row \<longleftrightarrow>
    (\<forall>r\<in>set rows. gr_id r \<noteq> gr_id row) \<and> gr_workspace_id row \<in> workspaces \<and>
    \<not> btrim_blank (cg_operation (gr_payload row)) \<and> \<not> btrim_blank (cg_resource_scope (gr_payload row)) \<and>
    (gr_status row = ''revoked'' \<longleftrightarrow> gr_revoked_at row \<noteq> None) \<and>
    (case gr_valid_until row of None \<Rightarrow> True | Some until \<Rightarrow> until > gr_valid_from row) \<and>
    (case gr_budget_max_units row of None \<Rightarrow> True | Some units \<Rightarrow> units > 0)"

definition pg_insert_grant ::
    "postgres \<Rightarrow> uuid set \<Rightarrow> grant_row list \<Rightarrow> request_context \<Rightarrow> capability_grant
     \<Rightarrow> (application_error, grant_row list) result"
  where "pg_insert_grant pg workspaces rows ctx grant =
    (if cg_workspace_id grant \<noteq> rc_workspace_id ctx
     then Err (App_Policy ''a capability grant cannot be issued into another workspace'')
     else and_then (budget_column grant) (\<lambda>budget.
       let row = \<lparr> gr_id = cg_id grant, gr_workspace_id = rc_workspace_id ctx,
                   gr_subject_id = cg_subject_id grant, gr_status = grant_status_name (cg_status grant),
                   gr_valid_from = pg_stored pg (cg_valid_from grant),
                   gr_valid_until = map_option (pg_stored pg) (cg_valid_until grant),
                   gr_created_at = pg_stored pg (cg_created_at grant),
                   gr_revoked_at = map_option (pg_stored pg) (cg_revoked_at grant),
                   gr_budget_max_units = budget, gr_payload = grant \<rparr>
       in if grant_row_admitted workspaces rows row then Ok (rows @ [row])
          else Err (App_Storage (pg_message pg ''capability_grants''))))"

definition pg_active_for_subject ::
    "grant_row list \<Rightarrow> request_context \<Rightarrow> uuid \<Rightarrow> (application_error, capability_grant list) result"
  where "pg_active_for_subject rows ctx subject =
    collect_results (map decode_grant (sort_key (\<lambda>r. (gr_created_at r, gr_id r))
      (filter (\<lambda>r. gr_workspace_id r = rc_workspace_id ctx \<and> gr_subject_id r = subject \<and>
                   gr_status r = ''active'') rows)))"

definition pg_list_grants :: "grant_row list \<Rightarrow> request_context \<Rightarrow> (application_error, capability_grant list) result"
  where "pg_list_grants rows ctx =
    collect_results (map decode_grant (take 200 (rev (sort_key (\<lambda>r. (gr_created_at r, gr_id r))
      (filter (\<lambda>r. gr_workspace_id r = rc_workspace_id ctx) rows)))))"

definition pg_find_grant ::
    "grant_row list \<Rightarrow> request_context \<Rightarrow> uuid \<Rightarrow> (application_error, capability_grant option) result"
  where "pg_find_grant rows ctx grant_id =
    (case find (\<lambda>r. gr_workspace_id r = rc_workspace_id ctx \<and> gr_id r = grant_id) rows of
       None \<Rightarrow> Ok None
     | Some row \<Rightarrow> and_then (decode_grant row) (\<lambda>grant. Ok (Some grant)))"

definition pg_save_revocation ::
    "postgres \<Rightarrow> grant_row list \<Rightarrow> request_context \<Rightarrow> capability_grant \<Rightarrow> (application_error, grant_row list) result"
  where "pg_save_revocation pg rows ctx grant =
    (if cg_status grant \<noteq> Grant_Revoked \<or> cg_revoked_at grant = None
     then Err (App_Policy ''save_revocation was given a grant that is not revoked'')
     else let hit = (\<lambda>r. gr_workspace_id r = rc_workspace_id ctx \<and> gr_id r = cg_id grant \<and>
                         gr_status r = ''active'') in
       if \<not> list_ex hit rows
       then Err (App_Conflict ''the capability grant is not active in this workspace'')
       else Ok (map (\<lambda>r. if hit r then r\<lparr>gr_status := ''revoked'',
                   gr_revoked_at := map_option (pg_stored pg) (cg_revoked_at grant), gr_payload := grant\<rparr> else r) rows))"

section \<open>The engine over stored grants\<close>

definition stored_decide :: "string \<Rightarrow> grant_row list \<Rightarrow> decider"
  where "stored_decide policy_version rows decision_id at ctx request =
    and_then (pg_active_for_subject rows ctx (rc_principal_id ctx)) (\<lambda>grants.
    map_err App_Domain (evaluate_capability_grants decision_id (rc_workspace_id ctx) (rc_principal_id ctx)
      policy_version request grants at))"

section \<open>Histories of the table\<close>

datatype grant_call =
    Grant_Insert request_context capability_grant
  | Grant_SaveRevocation request_context capability_grant

fun grant_perform ::
    "postgres \<Rightarrow> uuid set \<Rightarrow> grant_row list \<Rightarrow> grant_call \<Rightarrow> (application_error, grant_row list) result"
  where
    "grant_perform pg workspaces rows (Grant_Insert ctx grant) = pg_insert_grant pg workspaces rows ctx grant"
  | "grant_perform pg workspaces rows (Grant_SaveRevocation ctx grant) = pg_save_revocation pg rows ctx grant"

text \<open>Identifiers are unique, and a row that is active holds the grant that was inserted under its key.\<close>

definition grants_ok :: "grant_row list \<Rightarrow> bool"
  where "grants_ok rows \<longleftrightarrow> distinct (map gr_id rows) \<and>
    (\<forall>r\<in>set rows. gr_status r = ''active'' \<longrightarrow>
       cg_id (gr_payload r) = gr_id r \<and> cg_workspace_id (gr_payload r) = gr_workspace_id r \<and>
       cg_subject_id (gr_payload r) = gr_subject_id r \<and> cg_status (gr_payload r) = Grant_Active)"

lemma grants_unique: "grants_ok rows \<Longrightarrow> r \<in> set rows \<Longrightarrow> v \<in> set rows \<Longrightarrow> gr_id r = gr_id v \<Longrightarrow> r = v"
  by (auto simp: grants_ok_def distinct_map dest: inj_onD)

lemma grant_status_name_active [simp]: "grant_status_name st = ''active'' \<longleftrightarrow> st = Grant_Active"
  by (cases st) simp_all

lemma pg_insert_grant_Ok:
  assumes "pg_insert_grant pg ws rows ctx g = Ok rows'"
  obtains row where "rows' = rows @ [row]" "gr_id row = cg_id g" "gr_payload row = g"
    "gr_workspace_id row = cg_workspace_id g" "gr_subject_id row = cg_subject_id g"
    "gr_status row = grant_status_name (cg_status g)" "\<forall>r\<in>set rows. gr_id r \<noteq> cg_id g"
  using assms by (auto simp: pg_insert_grant_def and_then_Ok_iff Let_def grant_row_admitted_def split: if_splits)

lemma pg_save_revocation_Ok:
  assumes "pg_save_revocation pg rows ctx g = Ok rows'"
  obtains f where "rows' = map f rows" "\<And>r. gr_id (f r) = gr_id r"
    "\<And>r. gr_status (f r) = ''active'' \<Longrightarrow> f r = r"
    "\<And>r. f r = r \<or> gr_status (f r) = ''revoked''"
    "\<exists>r\<in>set rows'. gr_id r = cg_id g \<and> gr_status r = ''revoked''"
proof -
  let ?hit = "\<lambda>r. gr_workspace_id r = rc_workspace_id ctx \<and> gr_id r = cg_id g \<and> gr_status r = ''active''"
  let ?f = "\<lambda>r. if ?hit r then r\<lparr>gr_status := ''revoked'',
                   gr_revoked_at := map_option (pg_stored pg) (cg_revoked_at g), gr_payload := g\<rparr> else r"
  have "rows' = map ?f rows" "\<exists>r\<in>set rows. ?hit r"
    using assms by (auto simp: pg_save_revocation_def Let_def list_ex_iff split: if_splits)
  moreover from this obtain r where "r \<in> set rows" "?hit r"
    by blast
  then have "?f r \<in> ?f ` set rows" "gr_id (?f r) = cg_id g" "gr_status (?f r) = ''revoked''"
    by simp_all
  ultimately show ?thesis
    by (intro that [of ?f]) auto
qed

lemma grant_perform_ok: "grants_ok rows \<Longrightarrow> grant_perform pg ws rows c = Ok rows' \<Longrightarrow> grants_ok rows'"
proof (cases c)
  case (Grant_Insert ctx g)
  assume "grants_ok rows" "grant_perform pg ws rows c = Ok rows'"
  then show ?thesis
    using Grant_Insert by (fastforce elim!: pg_insert_grant_Ok simp: grants_ok_def)
next
  case (Grant_SaveRevocation ctx g)
  assume ok: "grants_ok rows" and "grant_perform pg ws rows c = Ok rows'"
  then have "pg_save_revocation pg rows ctx g = Ok rows'"
    using Grant_SaveRevocation by simp
  then show ?thesis
  proof (rule pg_save_revocation_Ok)
    fix f
    assume f: "rows' = map f rows" "\<And>r. gr_id (f r) = gr_id r" "\<And>r. gr_status (f r) = ''active'' \<Longrightarrow> f r = r"
    then have "map gr_id rows' = map gr_id rows"
      by simp
    moreover have "r \<in> set rows" if "r \<in> set rows'" "gr_status r = ''active''" for r
    proof -
      obtain x where "x \<in> set rows" "r = f x"
        using \<open>r \<in> set rows'\<close> f(1) by auto
      then show ?thesis
        using f(3) [of x] that(2) by simp
    qed
    ultimately show ?thesis
      using ok by (simp add: grants_ok_def)
  qed
qed

interpretation grant_table: fallible_system "grant_perform pg ws" grants_ok for pg ws
  by unfold_locales (rule grant_perform_ok)

lemma revoked_stays:
  assumes "grants_ok rows" "\<exists>r\<in>set rows. gr_id r = i \<and> gr_status r = ''revoked''"
    and "grant_perform pg ws rows c = Ok rows'"
  shows "\<exists>r\<in>set rows'. gr_id r = i \<and> gr_status r = ''revoked''"
proof (cases c)
  case (Grant_Insert ctx g)
  then show ?thesis
    using assms by (auto elim!: pg_insert_grant_Ok)
next
  case (Grant_SaveRevocation ctx g)
  then have "pg_save_revocation pg rows ctx g = Ok rows'"
    using assms(3) by simp
  then show ?thesis
    by (rule pg_save_revocation_Ok) (use assms(2) in \<open>auto, metis\<close>)
qed

lemma revoked_stays_all:
  "grants_ok rows \<Longrightarrow> \<exists>r\<in>set rows. gr_id r = i \<and> gr_status r = ''revoked'' \<Longrightarrow>
   try_fold (grant_perform pg ws) rows cs = Ok rows' \<Longrightarrow>
   \<exists>r\<in>set rows'. gr_id r = i \<and> gr_status r = ''revoked''"
proof (induction cs arbitrary: rows)
  case (Cons c cs)
  then obtain rows1 where "grant_perform pg ws rows c = Ok rows1" "try_fold (grant_perform pg ws) rows1 cs = Ok rows'"
    by (auto simp: and_then_Ok_iff)
  then show ?case
    using Cons.IH [of rows1] revoked_stays [OF Cons.prems(1,2)] grant_perform_ok [OF Cons.prems(1)] by blast
qed simp

text \<open>What a decision over the stored grants rests on.\<close>

lemma stored_decide_allowed:
  assumes "grants_ok rows" "stored_decide version rows i at ctx request = Ok d" "is_allowed d"
  obtains r where "r \<in> set rows" "gr_status r = ''active''" "pd_matched_grant_id d = Some (gr_id r)"
    "grant_authorizes (gr_payload r) (rc_workspace_id ctx) (rc_principal_id ctx) request at"
proof -
  obtain grants where grants: "pg_active_for_subject rows ctx (rc_principal_id ctx) = Ok grants"
    and d: "evaluate_capability_grants i (rc_workspace_id ctx) (rc_principal_id ctx) version request grants at = Ok d"
    using assms(2) by (auto simp: stored_decide_def and_then_Ok_iff map_err_Ok_iff)
  have sub: "\<exists>r\<in>set rows. gr_status r = ''active'' \<and> g = gr_payload r" if "g \<in> set grants" for g
  proof -
    let ?rows = "sort_key (\<lambda>r. (gr_created_at r, gr_id r)) (filter (\<lambda>r. gr_workspace_id r = rc_workspace_id ctx \<and>
      gr_subject_id r = rc_principal_id ctx \<and> gr_status r = ''active'') rows)"
    have "map decode_grant ?rows = map Ok grants"
      using grants by (simp add: pg_active_for_subject_def collect_results_Ok_iff)
    then have "set (map decode_grant ?rows) = set (map Ok grants)"
      by (rule arg_cong)
    moreover have "Ok g \<in> set (map Ok grants)"
      using that by simp
    ultimately have "Ok g \<in> set (map decode_grant ?rows)"
      by (simp only:)
    then obtain r where "r \<in> set rows" "gr_status r = ''active''" "Ok g = decode_grant r"
      by auto
    then show ?thesis
      by (auto simp: decode_grant_def Let_def split: if_splits)
  qed
  obtain g where g: "find (\<lambda>g. grant_authorizes g (rc_workspace_id ctx) (rc_principal_id ctx) request at) grants = Some g"
    "pd_matched_grant_id d = Some (cg_id g)"
    using evaluate_decision(1) [OF d] assms(3)
    by (auto simp: find_grant_spec is_allowed_def split: option.splits)
  then have "g \<in> set grants" "grant_authorizes g (rc_workspace_id ctx) (rc_principal_id ctx) request at"
    by (auto simp: find_Some_iff)
  then obtain r where r: "r \<in> set rows" "gr_status r = ''active''" "g = gr_payload r"
    using sub by blast
  then have "cg_id g = gr_id r"
    using assms(1) by (simp add: grants_ok_def)
  then show ?thesis
    using that [of r] r g(2) \<open>grant_authorizes g _ _ _ _\<close> by simp
qed

text \<open>
  C22: a saved revocation is final.  On a table reached by any calls, once a revocation of a grant has been
  saved, no later decision of the engine that reads the table rests on that grant, whatever is
  inserted or revoked in between and whoever asks; every decision that allows rests on an active row whose grant
  covers the request.
\<close>

theorem saved_revocation_is_final:
  assumes "try_fold (grant_perform pg ws) [] calls = Ok rows"
    and "pg_save_revocation pg rows ctx g = Ok rows1"
    and "try_fold (grant_perform pg ws) rows1 later = Ok rows2"
    and "stored_decide version rows2 decision at ctx' request = Ok d" "is_allowed d"
  shows "pd_matched_grant_id d \<noteq> Some (cg_id g) \<and>
    (\<exists>r\<in>set rows2. gr_status r = ''active'' \<and> gr_id r \<noteq> cg_id g \<and> pd_matched_grant_id d = Some (gr_id r) \<and>
       grant_authorizes (gr_payload r) (rc_workspace_id ctx') (rc_principal_id ctx') request at)"
proof -
  have ok: "grants_ok rows"
    using grant_table.fold_inv [OF _ assms(1)] by (simp add: grants_ok_def)
  then have ok1: "grants_ok rows1"
    using grant_perform_ok [of rows pg ws "Grant_SaveRevocation ctx g" rows1] assms(2) by simp
  then have ok2: "grants_ok rows2"
    using grant_table.fold_inv assms(3) by blast
  have "\<exists>r\<in>set rows1. gr_id r = cg_id g \<and> gr_status r = ''revoked''"
    by (rule pg_save_revocation_Ok [OF assms(2)])
  then obtain v where v: "v \<in> set rows2" "gr_id v = cg_id g" "gr_status v = ''revoked''"
    using revoked_stays_all [OF ok1 _ assms(3)] by blast
  obtain r where r: "r \<in> set rows2" "gr_status r = ''active''" "pd_matched_grant_id d = Some (gr_id r)"
    "grant_authorizes (gr_payload r) (rc_workspace_id ctx') (rc_principal_id ctx') request at"
    by (rule stored_decide_allowed [OF ok2 assms(4,5)])
  then have "gr_id r \<noteq> cg_id g"
    using v grants_unique [OF ok2 r(1) v(1)] by auto
  then show ?thesis
    using r by auto
qed


definition sample_postgres :: postgres
  where "sample_postgres = \<lparr> pg_message = (\<lambda>s. s), pg_stored = (\<lambda>t. t) \<rparr>"

definition policy_context :: request_context
  where "policy_context = \<lparr> rc_request_id = 1, rc_correlation_id = 2, rc_workspace_id = 3, rc_principal_id = 4 \<rparr>"

definition grant_row_of :: "capability_grant \<Rightarrow> grant_row"
  where "grant_row_of g = \<lparr> gr_id = cg_id g, gr_workspace_id = 3, gr_subject_id = cg_subject_id g,
    gr_status = grant_status_name (cg_status g), gr_valid_from = cg_valid_from g, gr_valid_until = cg_valid_until g,
    gr_created_at = cg_created_at g, gr_revoked_at = cg_revoked_at g, gr_budget_max_units = Some 50,
    gr_payload = g \<rparr>"

theorem saved_revocation_is_final_witness:
  "\<exists>d. stored_decide ''v1''
      [grant_row_of (sample_grant\<lparr>cg_status := Grant_Revoked, cg_revoked_at := Some 12\<rparr>),
       grant_row_of (sample_grant\<lparr>cg_id := 31\<rparr>)] 1 15 policy_context sample_request = Ok d \<and>
    is_allowed d \<and> pd_matched_grant_id d \<noteq> Some 21"
proof -
  let ?revoked = "sample_grant\<lparr>cg_status := Grant_Revoked, cg_revoked_at := Some 12\<rparr>"
  let ?other = "sample_grant\<lparr>cg_id := 31\<rparr>"
  let ?rows = "[grant_row_of ?revoked, grant_row_of ?other]"
  note evals = grant_row_of_def sample_grant_def policy_context_def sample_postgres_def
  have insert: "try_fold (grant_perform sample_postgres {3}) []
      [Grant_Insert policy_context sample_grant, Grant_Insert policy_context ?other] =
      Ok [grant_row_of sample_grant, grant_row_of ?other]"
    by (simp add: evals pg_insert_grant_def budget_column_def grant_row_admitted_def btrim_blank_def)
  have revoke: "pg_save_revocation sample_postgres [grant_row_of sample_grant, grant_row_of ?other]
      policy_context ?revoked = Ok ?rows"
    by (simp add: evals pg_save_revocation_def)
  have "pg_active_for_subject ?rows policy_context 4 = Ok [?other]"
    by (simp add: evals pg_active_for_subject_def decode_grant_def)
  moreover obtain d where "evaluate_capability_grants 1 3 4 ''v1'' sample_request [?other] 15 = Ok d"
    using sample_evaluates by (auto simp: is_ok_iff)
  moreover have "grant_authorizes ?other 3 4 sample_request 15"
    using sample_authorized by (simp add: grant_authorizes_def is_active_at_def)
  ultimately have d: "stored_decide ''v1'' ?rows 1 15 policy_context sample_request = Ok d" "is_allowed d"
    using evaluate_allowed_iff by (auto simp: stored_decide_def policy_context_def)
  then show ?thesis
    using saved_revocation_is_final [OF insert revoke, of "[]" ?rows "''v1''" 1 15 policy_context sample_request d]
    by (auto simp: sample_grant_def)
qed

section \<open>Spending through the engine\<close>

type_synonym budget_request = "uuid \<times> timestamp \<times> request_context \<times> authorization_request"

fun budget_decisions ::
    "(uuid \<Rightarrow> string) \<Rightarrow> grant_policy_engine \<Rightarrow> hierarchical_budget option \<Rightarrow> budget_request list
     \<Rightarrow> (authorization_request \<times> (application_error failure, policy_decision) result) list \<times> hierarchical_budget option"
  where
    "budget_decisions shw engine lock [] = ([], lock)"
  | "budget_decisions shw engine lock ((i, at, ctx, request) # rest) =
       (let (r, lock') = budget_decide shw engine lock i at ctx request;
            (rs, lock'') = budget_decisions shw engine lock' rest
        in ((request, r) # rs, lock''))"

definition allowed_units :: "(authorization_request \<times> (application_error failure, policy_decision) result) list \<Rightarrow> nat"
  where "allowed_units rs = sum_list (map (\<lambda>(request, r).
    case r of Inr d \<Rightarrow> if is_allowed d then unat (rq_requested_budget_units request) else 0 | Inl _ \<Rightarrow> 0) rs)"

definition consumed_units :: "hierarchical_budget \<Rightarrow> nat"
  where "consumed_units b = sum_list (map (unat \<circ> br_consumed_units) (budget_values b))"

text \<open>The units that decisions allowed on a given grant.\<close>

definition allowed_by :: "uuid \<Rightarrow> (authorization_request \<times> (application_error failure, policy_decision) result) list \<Rightarrow> nat"
  where "allowed_by g rs = allowed_units (filter (\<lambda>(_, r).
    case r of Inr d \<Rightarrow> pd_matched_grant_id d = Some g | Inl _ \<Rightarrow> False) rs)"

text \<open>A later budget has the same reservations, charged with what \<^verbatim>\<open>rs\<close> allowed.\<close>

definition charged_with ::
    "(authorization_request \<times> (application_error failure, policy_decision) result) list
     \<Rightarrow> hierarchical_budget \<Rightarrow> hierarchical_budget \<Rightarrow> bool"
  where "charged_with rs b b' \<longleftrightarrow> budget_ok b' \<and> hb_hard_limit b' = hb_hard_limit b \<and>
    consumed_units b' = consumed_units b + allowed_units rs \<and>
    root_units (budget_values b') = root_units (budget_values b) \<and>
    (\<forall>g r. reservation_of b g = Some r \<longrightarrow>
       (\<exists>r'. reservation_of b' g = Some r' \<and> br_allocated_units r' = br_allocated_units r \<and>
          unat (br_consumed_units r') = unat (br_consumed_units r) + allowed_by g rs))"

lemma allowed_append:
  "allowed_units (xs @ ys) = allowed_units xs + allowed_units ys"
  "allowed_by g (xs @ ys) = allowed_by g xs + allowed_by g ys"
  by (simp_all add: allowed_by_def allowed_units_def)

lemma charged_with_none: "budget_ok b \<Longrightarrow> allowed_units rs = 0 \<Longrightarrow> charged_with rs b b"
proof -
  assume "budget_ok b" "allowed_units rs = 0"
  moreover have "allowed_by g rs \<le> allowed_units rs" for g
    by (induction rs) (auto simp: allowed_by_def allowed_units_def split: sum.splits)
  ultimately show ?thesis
    by (simp add: charged_with_def)
qed

lemma charged_with_append:
  "charged_with xs b c \<Longrightarrow> charged_with ys c d \<Longrightarrow> charged_with (xs @ ys) b d"
  unfolding charged_with_def allowed_append by (fastforce simp: add.assoc)

lemma charge_charged:
  assumes "budget_ok b" "charge shw b g (rq_requested_budget_units request) = Ok b'"
    and "is_allowed d" "pd_matched_grant_id d = Some g"
  shows "charged_with [(request, Ok d)] b b'"
proof (rule charge_Ok [OF assms(1,2)])
  fix xs r ys
  let ?n = "rq_requested_budget_units request"
  assume c: "hb_reservations b = xs @ (g, r) # ys"
    "hb_reservations b' = xs @ (g, r\<lparr>br_consumed_units := br_consumed_units r + ?n\<rparr>) # ys"
    "hb_hard_limit b' = hb_hard_limit b" "reservation_of b g = Some r"
    "unat (br_consumed_units r + ?n) = unat (br_consumed_units r) + unat ?n"
  have upd: "reservation_of b' = (reservation_of b)(g \<mapsto> r\<lparr>br_consumed_units := br_consumed_units r + ?n\<rparr>)"
    using assms(2) c(4) by (auto simp: charge_def and_then_Ok_iff ok_or_Ok_iff update_conv' split: if_splits)
  have units: "allowed_units [(request, Ok d)] = unat ?n"
    "allowed_by j [(request, Ok d)] = (if j = g then unat ?n else 0)" for j
    using assms(3,4) by (auto simp: allowed_by_def allowed_units_def)
  have sums: "consumed_units b' = consumed_units b + unat ?n"
    "root_units (budget_values b') = root_units (budget_values b)"
    using c(1,2,5) by (simp_all add: consumed_units_def budget_values_def root_units_def)
  show ?thesis
    using sums c(3-5) charge_ok [OF assms(1,2)] by (auto simp: charged_with_def units upd)
qed

lemma charge_never_panics: "charge shw b i amount \<noteq> Err Panics"
  by (auto simp: charge_def and_then_Err_iff ok_or_Err_iff ok_or_Ok_iff dest: remaining_Some split: if_splits)

lemma budget_decide_spends:
  assumes "budget_ok b" "budget_decide shw engine (Some b) i at ctx request = (r, lock)"
  shows "\<exists>b'. lock = Some b' \<and> r \<noteq> Err Panics \<and> charged_with [(request, r)] b b'"
proof (cases "grant_decide engine i at ctx request")
  case (Inl e)
  then show ?thesis
    using assms charged_with_none [OF assms(1)] by (auto simp: budget_decide_def allowed_units_def)
next
  case (Inr d)
  show ?thesis
  proof (cases "is_allowed d \<and> 0 < rq_requested_budget_units request \<and> pd_matched_grant_id d \<noteq> None")
    case True
    then obtain g where g: "pd_matched_grant_id d = Some g"
      by blast
    show ?thesis
    proof (cases "charge shw b g (rq_requested_budget_units request)")
      case (Inl e)
      then show ?thesis
        using assms Inr True g charge_never_panics [of shw b g "rq_requested_budget_units request"]
          charged_with_none [OF assms(1)]
        by (cases e) (auto simp: budget_decide_def allowed_units_def is_allowed_def)
    next
      case (Inr b')
      then show ?thesis
        using assms \<open>grant_decide engine i at ctx request = Inr d\<close> True g charge_charged [OF assms(1) Inr]
        by (auto simp: budget_decide_def)
    qed
  next
    case False
    then show ?thesis
      using assms Inr charged_with_none [OF assms(1)]
      by (cases "pd_matched_grant_id d")
         (auto simp: budget_decide_def allowed_units_def is_allowed_def Let_def word_gt_0 split: if_splits)
  qed
qed

lemma budget_decisions_spend:
  "budget_ok b \<Longrightarrow> budget_decisions shw engine (Some b) requests = (decisions, lock) \<Longrightarrow>
     \<exists>b'. lock = Some b' \<and> charged_with decisions b b'"
proof (induction requests arbitrary: b decisions lock)
  case Nil
  then show ?case
    using charged_with_none [of b "[]"] by (auto simp: allowed_units_def)
next
  case (Cons q requests)
  obtain i at ctx request where q: "q = (i, at, ctx, request)"
    by (cases q)
  obtain r lock1 where r: "budget_decide shw engine (Some b) i at ctx request = (r, lock1)"
    by (cases "budget_decide shw engine (Some b) i at ctx request")
  obtain rs lock2 where rs: "budget_decisions shw engine lock1 requests = (rs, lock2)"
    by (cases "budget_decisions shw engine lock1 requests")
  obtain b1 where b1: "lock1 = Some b1" "charged_with [(request, r)] b b1"
    using budget_decide_spends [OF Cons.prems(1) r] by blast
  then obtain b' where "lock2 = Some b'" "charged_with rs b1 b'"
    using Cons.IH [of b1 rs lock2] rs by (auto simp: charged_with_def)
  moreover have "decisions = [(request, r)] @ rs" "lock = lock2"
    using Cons.prems(2) q r rs by simp_all
  ultimately show ?case
    using charged_with_append [OF b1(2)] by blast
qed

text \<open>
  C23: decisions cannot outspend the budget.  However many requests the engine over a hierarchical
  budget decides, by whomever and for whatever units, the units it allowed, added to what was
  consumed before, are what the budget then has consumed; this never exceeds the units of the
  root grant, nor the hard limit.  The same holds of each grant by itself: its reservation has
  consumed what it had before and what the decisions on it allowed, within its allocation.  The
  lock is never poisoned.
\<close>

theorem budget_engine_within_limit:
  assumes "delegation_system chr shw limit b ds"
    and "budget_decisions shw engine (Some b) requests = (decisions, lock)"
  shows "\<exists>b'. lock = Some b' \<and>
    sum_list (map (unat \<circ> br_consumed_units \<circ> snd) (hb_reservations b')) =
      sum_list (map (unat \<circ> br_consumed_units \<circ> snd) (hb_reservations b)) + allowed_units decisions \<and>
    sum_list (map (unat \<circ> br_consumed_units \<circ> snd) (hb_reservations b')) \<le> unat limit \<and>
    (\<forall>i r. reservation_of b i = Some r \<and> br_parent_grant_id r = None \<longrightarrow>
       sum_list (map (unat \<circ> br_consumed_units \<circ> snd) (hb_reservations b')) \<le> unat (br_allocated_units r)) \<and>
    (\<forall>g r. reservation_of b g = Some r \<longrightarrow>
       (\<exists>r'. reservation_of b' g = Some r' \<and> br_allocated_units r' = br_allocated_units r \<and>
          unat (br_consumed_units r') = unat (br_consumed_units r) + allowed_by g decisions \<and>
          unat (br_consumed_units r') \<le> unat (br_allocated_units r)))"
proof -
  have ok: "budget_ok b" "hb_hard_limit b = limit"
    using delegation_system_ok [OF assms(1)] by simp_all
  obtain b' where b': "lock = Some b'" "charged_with decisions b b'"
    using budget_decisions_spend [OF ok(1) assms(2)] by blast
  then have ok': "budget_ok b'" "root_units (budget_values b') = root_units (budget_values b)"
    by (simp_all add: charged_with_def)
  have spent: "consumed_units b' \<le> root_units (budget_values b)" "root_units (budget_values b) \<le> unat limit"
    using budget_spending_bound [OF ok'(1)] ok ok'(2) by (simp_all add: consumed_units_def budget_ok_def)
  have root: "consumed_units b' \<le> unat (br_allocated_units r)"
    if "reservation_of b i = Some r" "br_parent_grant_id r = None" for i r
    using spent(1) root_units_of_root [OF ok(1) that] by simp
  have fits: "unat (br_consumed_units r') \<le> unat (br_allocated_units r')"
    if "reservation_of b' g = Some r'" for g r'
    using budget_entry [OF ok'(1) that] by (simp add: reservation_fits_def)
  have units: "sum_list (map (unat \<circ> br_consumed_units \<circ> snd) (hb_reservations c)) = consumed_units c" for c
    by (simp add: consumed_units_def budget_values_def comp_assoc)
  show ?thesis
    unfolding units using b' spent root fits by (fastforce simp: charged_with_def)
qed

theorem budget_engine_within_limit_witness:
  "\<exists>b decisions b'. register_root (hierarchical_budget_new 100) 21 60 = Ok b \<and>
     budget_decisions (\<lambda>_. []) \<lparr> ge_policy_version = ''v1'', ge_grants = [sample_grant] \<rparr> (Some b)
       [(1, 15, policy_context, sample_request), (2, 16, policy_context, sample_request)] = (decisions, Some b') \<and>
     length decisions = 2 \<and> allowed_units decisions \<le> 60"
proof -
  obtain b where b: "register_root (hierarchical_budget_new 100) 21 60 = Ok b"
    by (simp add: register_root_def hierarchical_budget_new_def has_root_def)
  have root: "reservation_of b 21 = Some \<lparr> br_grant_id = 21, br_parent_grant_id = None,
      br_allocated_units = 60, br_consumed_units = 0 \<rparr>"
    using b by (auto simp: register_root_def hierarchical_budget_new_def has_root_def insert_reservation_def)
  have sys: "delegation_system sample_chrono (\<lambda>_. []) 100 b []"
    by (rule delegation_system.register [OF delegation_system.start b])
  let ?run = "budget_decisions (\<lambda>_. []) \<lparr> ge_policy_version = ''v1'', ge_grants = [sample_grant] \<rparr> (Some b)
       [(1, 15, policy_context, sample_request), (2, 16, policy_context, sample_request)]"
  obtain decisions lock where run: "?run = (decisions, lock)"
    by (cases ?run)
  then have "length decisions = 2"
    by (auto simp: Let_def split: prod.splits)
  then show ?thesis
    using budget_engine_within_limit [OF sys run] run b root by fastforce
qed

end
