(* ===== verification/Run_Service.thy ===== *)
theory Run_Service
  imports Run_Store
begin

text \<open>
  The application services over the run stores: command execution
  (\<^verbatim>\<open>runs/command_service.rs\<close>), delivery of external-effect outcomes into the
  history of a run (\<^verbatim>\<open>effect_outcome_delivery.rs\<close>) and recovery with checkpoints
  (\<^verbatim>\<open>runs/recovery.rs\<close>).  Fresh identifiers and the clock are arguments.
\<close>

section \<open>Command execution\<close>

definition validate_command_context ::
    "request_context \<Rightarrow> run_command_envelope \<Rightarrow> (application_error, unit) result"
  where "validate_command_context ctx command =
    (if ce_workspace_id command \<noteq> rc_workspace_id ctx
     then Err (App_Policy ''run command workspace does not match request context'')
     else case ce_actor command of
       Actor_Principal principal_id \<Rightarrow>
         (if principal_id \<noteq> rc_principal_id ctx
          then Err (App_Policy ''run command principal does not match request context'')
          else Ok ())
     | Actor_System _ \<Rightarrow> Ok ())"

text \<open>Timestamps are cut to the microsecond that the database stores.\<close>

definition database_timestamp :: "timestamp \<Rightarrow> timestamp"
  where "database_timestamp t = t - (t mod 1000)"

fun decision_error :: "run_decision_error \<Rightarrow> application_error"
  where
    "decision_error Dec_AlreadyExists = App_Conflict ''run already exists''"
  | "decision_error Dec_MissingState = App_Domain (NotFound ''run does not exist'')"
  | "decision_error (Dec_VersionConflict expected actual) =
       App_Conflict (''run version conflict: expected '' @ show_u64 (version_value expected)
         @ '', actual '' @ show_u64 (version_value actual))"
  | "decision_error (Dec_InvalidCommand message) = App_Domain (InvalidArgument message)"
  | "decision_error (Dec_InvalidTransition status) =
       App_Domain (InvalidArgument (''command is not valid while run is '' @ run_status_debug status))"

definition event_envelope ::
    "run_command_envelope \<Rightarrow> timestamp \<Rightarrow> uuid \<Rightarrow> run_version \<Rightarrow> pending_run_event
     \<Rightarrow> legacy_run_event_envelope"
  where "event_envelope command recorded_at event_id sequence pending =
    \<lparr> ee_event_id = event_id,
      ee_workspace_id = ce_workspace_id command,
      ee_run_id = ce_run_id command,
      ee_sequence = sequence,
      ee_event_type = event_type (pe_event pending),
      ee_event_version = event_version (pe_event pending),
      ee_actor = ce_actor command,
      ee_causation_id = ce_command_id command,
      ee_correlation_id = ce_correlation_id command,
      ee_payload = pe_event pending,
      ee_occurred_at = database_timestamp (pe_occurred_at pending),
      ee_recorded_at = recorded_at \<rparr>"

text \<open>The loop that numbers the pending events; \<^verbatim>\<open>ids i\<close> is the \<^verbatim>\<open>i\<close>-th fresh identifier.\<close>

fun build_envelopes ::
    "run_command_envelope \<Rightarrow> timestamp \<Rightarrow> (nat \<Rightarrow> uuid) \<Rightarrow> nat \<Rightarrow> run_version
     \<Rightarrow> pending_run_event list \<Rightarrow> (application_error, legacy_run_event_envelope list) result"
  where
    "build_envelopes command recorded_at ids i sequence [] = Ok []"
  | "build_envelopes command recorded_at ids i sequence (pending # rest) =
       and_then (map_err App_Domain (run_version_next sequence)) (\<lambda>sequence'.
       and_then (build_envelopes command recorded_at ids (Suc i) sequence' rest) (\<lambda>es.
       Ok (event_envelope command recorded_at (ids i) sequence' pending # es)))"

record environment =
  env_database :: database
  env_show_replay :: "run_replay_error \<Rightarrow> string"
  env_show_reduce :: "run_reduce_error \<Rightarrow> string"
  env_resolve :: "request_context \<Rightarrow> uuid \<Rightarrow> (application_error, unit) result"
  env_ids :: "nat \<Rightarrow> uuid"
  env_now :: timestamp

text \<open>
  Everything \<^verbatim>\<open>execute\<close> does before it commits, on the history it loaded: the events
  and the projection it is going to write.
\<close>

definition plan_command ::
    "environment \<Rightarrow> legacy_run_event_envelope list \<Rightarrow> run_command_envelope
     \<Rightarrow> (application_error, legacy_run_event_envelope list \<times> agent_run) result"
  where "plan_command env stored_events command =
    and_then (map_err (\<lambda>e. App_Storage (''run event replay failed: '' @ env_show_replay env e))
                (replay stored_events)) (\<lambda>initial_state.
    and_then (map_err decision_error (decide initial_state command)) (\<lambda>pending_events.
    if pending_events = [] then Err (App_Internal ''run decision produced no events'')
    else
      and_then (build_envelopes command (database_timestamp (env_now env)) (env_ids env) 0
                  (ce_expected_version command) pending_events) (\<lambda>envelopes.
      and_then (map_err (\<lambda>e. App_Storage (''run event reduction failed: '' @ env_show_reduce env e))
                  (replay_from initial_state envelopes)) (\<lambda>resulting_state.
      and_then (ok_or (App_Internal ''run command did not produce state'') resulting_state) (\<lambda>s.
      Ok (envelopes, project_run s))))))"

definition execute ::
    "environment \<Rightarrow> run_store \<Rightarrow> request_context \<Rightarrow> run_command_envelope
     \<Rightarrow> (application_error, (agent_run \<times> legacy_run_event_envelope list) \<times> run_store) result"
  where "execute env db ctx command =
    and_then (validate_command_context ctx command) (\<lambda>_.
    and_then (pg_load_stream db ctx (ce_run_id command)) (\<lambda>stored_events.
    and_then (plan_command env stored_events command) (\<lambda>(envelopes, projection).
    and_then (pg_commit (env_database env) (env_show_replay env) (env_resolve env) db ctx
                (ce_run_id command) (ce_expected_version command) envelopes projection)
      (\<lambda>(committed_version, db').
      if committed_version \<noteq> ar_version projection
      then Err (App_Internal (''committer returned run version ''
             @ show_u64 (version_value committed_version) @ '', expected ''
             @ show_u64 (version_value (ar_version projection))))
      else Ok ((projection, envelopes), db')))))"

section \<open>Delivery of effect outcomes\<close>

record undelivered_outcome =
  uo_reconciliation_id :: uuid
  uo_effect_id :: uuid
  uo_receipt_id :: "uuid option"
  uo_outcome :: reconciliation_outcome
  uo_evidence_strength :: evidence_strength
  uo_reconciled_at :: timestamp
  uo_run_id :: "uuid option"

text \<open>\<^verbatim>\<open>load_stream_head\<close> of the recovery store.\<close>

definition load_stream_head ::
    "run_store \<Rightarrow> request_context \<Rightarrow> uuid \<Rightarrow> (application_error, run_version option) result"
  where "load_stream_head db ctx run_id =
    (case tb_run_streams db (rc_workspace_id ctx, run_id) of
       None \<Rightarrow> Ok None
     | Some v \<Rightarrow> and_then (version_from_database v) (\<lambda>version. Ok (Some version)))"

definition settled_envelope ::
    "request_context \<Rightarrow> uuid \<Rightarrow> undelivered_outcome \<Rightarrow> uuid \<Rightarrow> uuid \<Rightarrow> run_version \<Rightarrow> timestamp
     \<Rightarrow> legacy_run_event_envelope"
  where "settled_envelope ctx run_id outcome event_id causation_id sequence at =
    (let payload = Ev_ExternalEffectSettled (uo_effect_id outcome) (uo_receipt_id outcome)
                     (uo_outcome outcome) (uo_evidence_strength outcome) in
     \<lparr> ee_event_id = event_id,
       ee_workspace_id = rc_workspace_id ctx,
       ee_run_id = run_id,
       ee_sequence = sequence,
       ee_event_type = event_type payload,
       ee_event_version = event_version payload,
       ee_actor = Actor_System ''effect-outcome-delivery'',
       ee_causation_id = causation_id,
       ee_correlation_id = uo_effect_id outcome,
       ee_payload = payload,
       ee_occurred_at = uo_reconciled_at outcome,
       ee_recorded_at = at \<rparr>)"

text \<open>
  \<^verbatim>\<open>head.value() + 1\<close> is an unchecked addition; the heads that the store hands out
  are non-negative \<^verbatim>\<open>BIGINT\<close> values, so it does not overflow.  \<^verbatim>\<open>{run_id}\<close> is
  rendered by the parameter \<^verbatim>\<open>show_uuid\<close>.
\<close>

definition append_to_run ::
    "database \<Rightarrow> (uuid \<Rightarrow> string) \<Rightarrow> run_store \<Rightarrow> request_context \<Rightarrow> uuid \<Rightarrow> undelivered_outcome
     \<Rightarrow> uuid \<Rightarrow> uuid \<Rightarrow> timestamp \<Rightarrow> (application_error, run_store) result"
  where "append_to_run dbe show_uuid db ctx run_id outcome event_id causation_id at =
    and_then (load_stream_head db ctx run_id) (\<lambda>found.
    and_then (ok_or (App_Domain (NotFound (''run '' @ show_uuid run_id
                @ '' has no event stream to record an effect outcome in''))) found) (\<lambda>head.
    and_then (map_err App_Domain (run_version_new (version_value head + 1))) (\<lambda>sequence.
    and_then (pg_append dbe db ctx run_id head
                [settled_envelope ctx run_id outcome event_id causation_id sequence at])
      (\<lambda>(_, db'). Ok db'))))"

record outcome_delivery_report =
  od_delivered :: nat
  od_unattributable :: nat
  od_deferred :: nat

text \<open>
  The loop of \<^verbatim>\<open>deliver_once\<close> over the outcomes owed.  \<^verbatim>\<open>mark\<close> is
  \<^verbatim>\<open>mark_outcome_delivered\<close> of the effect repository; the second component collects
  the reconciliations it marked.  A failure of \<^verbatim>\<open>mark\<close> ends the pass, and what was
  appended before stays appended.
\<close>

fun deliver_outcomes ::
    "database \<Rightarrow> (uuid \<Rightarrow> string) \<Rightarrow> (uuid \<Rightarrow> (application_error, unit) result) \<Rightarrow> (nat \<Rightarrow> uuid)
     \<Rightarrow> request_context \<Rightarrow> timestamp \<Rightarrow> nat \<Rightarrow> run_store \<Rightarrow> uuid list \<Rightarrow> outcome_delivery_report
     \<Rightarrow> undelivered_outcome list
     \<Rightarrow> run_store \<times> uuid list \<times> (application_error, outcome_delivery_report) result"
  where
    "deliver_outcomes dbe show_uuid mark ids ctx at i db marked report [] = (db, marked, Ok report)"
  | "deliver_outcomes dbe show_uuid mark ids ctx at i db marked report (outcome # rest) =
       (case uo_run_id outcome of
          None \<Rightarrow>
            (case mark (uo_reconciliation_id outcome) of
               Inl err \<Rightarrow> (db, marked, Err err)
             | Inr _ \<Rightarrow>
                 deliver_outcomes dbe show_uuid mark ids ctx at i db
                   (marked @ [uo_reconciliation_id outcome])
                   (report\<lparr>od_unattributable := od_unattributable report + 1\<rparr>) rest)
        | Some run_id \<Rightarrow>
            (case append_to_run dbe show_uuid db ctx run_id outcome (ids i) (ids (Suc i)) at of
               Inr db' \<Rightarrow>
                 (case mark (uo_reconciliation_id outcome) of
                    Inl err \<Rightarrow> (db', marked, Err err)
                  | Inr _ \<Rightarrow>
                      deliver_outcomes dbe show_uuid mark ids ctx at (i + 2) db'
                        (marked @ [uo_reconciliation_id outcome])
                        (report\<lparr>od_delivered := od_delivered report + 1\<rparr>) rest)
             | Inl _ \<Rightarrow>
                 deliver_outcomes dbe show_uuid mark ids ctx at (i + 2) db marked
                   (report\<lparr>od_deferred := od_deferred report + 1\<rparr>) rest))"

section \<open>Recovery\<close>

definition run_checkpoint_format_version :: u16
  where "run_checkpoint_format_version = 1"

definition verify_restored_head :: "run_state \<Rightarrow> run_version \<Rightarrow> (application_error, unit) result"
  where "verify_restored_head s head =
    (if rs_version s \<noteq> head
     then Err (App_Storage ''restored run version does not match stream head'') else Ok ())"

text \<open>The recovery queries read the column \<^verbatim>\<open>created_at\<close> as \<^verbatim>\<open>recorded_at\<close>.\<close>

definition recovered_envelope :: "run_event_row \<Rightarrow> legacy_run_event_envelope"
  where "recovered_envelope r = (ev_envelope r)\<lparr>ee_recorded_at := ev_created_at r\<rparr>"

definition load_events_through ::
    "run_store \<Rightarrow> request_context \<Rightarrow> uuid \<Rightarrow> run_version
     \<Rightarrow> (application_error, legacy_run_event_envelope list) result"
  where "load_events_through db ctx run_id through =
    and_then (version_to_database through) (\<lambda>limit.
    collect_results (map (event_from_row \<circ> recovered_envelope)
      (filter (\<lambda>r. int (row_sequence r) \<le> limit) (stream_rows db (rc_workspace_id ctx, run_id)))))"

definition load_events_after ::
    "run_store \<Rightarrow> request_context \<Rightarrow> uuid \<Rightarrow> run_version
     \<Rightarrow> (application_error, legacy_run_event_envelope list) result"
  where "load_events_after db ctx run_id after =
    and_then (version_to_database after) (\<lambda>limit.
    collect_results (map (event_from_row \<circ> recovered_envelope)
      (filter (\<lambda>r. int (row_sequence r) > limit) (stream_rows db (rc_workspace_id ctx, run_id)))))"

text \<open>\<^verbatim>\<open>hash\<close> is \<^verbatim>\<open>hash_run_state\<close>: SHA-256 over the JSON of the state.\<close>

definition validate_checkpoint_identity ::
    "(run_state \<Rightarrow> (application_error, string) result) \<Rightarrow> run_checkpoint
     \<Rightarrow> (application_error, unit) result"
  where "validate_checkpoint_identity hash c =
    (if cp_format_version c \<noteq> run_checkpoint_format_version
     then Err (App_Storage ''run checkpoint format is unsupported'')
     else if cp_sequence c = run_version_zero \<or> rs_version (cp_state c) \<noteq> cp_sequence c
             \<or> rs_workspace_id (cp_state c) \<noteq> cp_workspace_id c \<or> rs_id (cp_state c) \<noteq> cp_run_id c
     then Err (App_Storage ''run checkpoint identity or version is inconsistent'')
     else and_then (hash (cp_state c)) (\<lambda>h.
       if h \<noteq> cp_state_hash c then Err (App_Storage ''run checkpoint hash is invalid'') else Ok ()))"

definition checkpoint_from_row ::
    "(run_state \<Rightarrow> (application_error, string) result) \<Rightarrow> run_checkpoint
     \<Rightarrow> (application_error, run_checkpoint) result"
  where "checkpoint_from_row hash c =
    (if cp_sequence c = run_version_zero
     then Err (App_Storage ''stored run checkpoint sequence must be positive'')
     else if cp_format_version c \<noteq> run_checkpoint_format_version
     then Err (App_Storage ''stored run checkpoint format is unsupported'')
     else and_then (validate_checkpoint_identity hash c) (\<lambda>_. Ok c))"

definition stored_checkpoints :: "run_store \<Rightarrow> uuid \<times> uuid \<Rightarrow> run_checkpoint list"
  where "stored_checkpoints db k =
    filter (\<lambda>c. (cp_workspace_id c, cp_run_id c) = k) (tb_run_checkpoints db)"

text \<open>\<^verbatim>\<open>ORDER BY sequence DESC LIMIT 1\<close>; the primary key makes the maximum unique.\<close>

fun latest_checkpoint :: "run_checkpoint list \<Rightarrow> run_checkpoint option"
  where
    "latest_checkpoint [] = None"
  | "latest_checkpoint (c # cs) =
       (case latest_checkpoint cs of
          None \<Rightarrow> Some c
        | Some d \<Rightarrow> if version_value (cp_sequence d) \<le> version_value (cp_sequence c)
                    then Some c else Some d)"

definition load_latest_checkpoint ::
    "(run_state \<Rightarrow> (application_error, string) result) \<Rightarrow> run_store \<Rightarrow> request_context \<Rightarrow> uuid
     \<Rightarrow> (application_error, run_checkpoint option) result"
  where "load_latest_checkpoint hash db ctx run_id =
    (case latest_checkpoint (stored_checkpoints db (rc_workspace_id ctx, run_id)) of
       None \<Rightarrow> Ok None
     | Some c \<Rightarrow> and_then (checkpoint_from_row hash c) (\<lambda>c'. Ok (Some c')))"

definition stream_head ::
    "run_store \<Rightarrow> request_context \<Rightarrow> uuid \<Rightarrow> (application_error, run_version) result"
  where "stream_head db ctx run_id =
    and_then (load_stream_head db ctx run_id) (\<lambda>found.
    ok_or (App_Domain (NotFound ''run stream does not exist'')) found)"

definition validate_checkpoint_structure ::
    "(run_state \<Rightarrow> (application_error, string) result) \<Rightarrow> request_context \<Rightarrow> uuid \<Rightarrow> run_checkpoint
     \<Rightarrow> (application_error, unit) result"
  where "validate_checkpoint_structure hash ctx run_id c =
    (if cp_format_version c \<noteq> run_checkpoint_format_version
     then Err (App_Storage ''unsupported run checkpoint format'')
     else if cp_workspace_id c \<noteq> rc_workspace_id ctx
             \<or> rs_workspace_id (cp_state c) \<noteq> rc_workspace_id ctx
     then Err (App_Storage ''run checkpoint workspace mismatch'')
     else if cp_run_id c \<noteq> run_id \<or> rs_id (cp_state c) \<noteq> run_id
     then Err (App_Storage ''run checkpoint identity mismatch'')
     else if rs_version (cp_state c) \<noteq> cp_sequence c
     then Err (App_Storage ''run checkpoint version mismatch'')
     else and_then (hash (cp_state c)) (\<lambda>h.
       if h \<noteq> cp_state_hash c then Err (App_Storage ''run checkpoint hash mismatch'') else Ok ()))"

definition recovery_replay ::
    "environment \<Rightarrow> string \<Rightarrow> legacy_run_event_envelope list \<Rightarrow> (application_error, run_state) result"
  where "recovery_replay env missing events =
    and_then (map_err (\<lambda>e. App_Storage (''run recovery replay failed: '' @ env_show_replay env e))
                (replay events)) (\<lambda>st.
    ok_or (App_Storage missing) st)"

definition validate_loaded_checkpoint ::
    "environment \<Rightarrow> (run_state \<Rightarrow> (application_error, string) result) \<Rightarrow> run_store
     \<Rightarrow> request_context \<Rightarrow> uuid \<Rightarrow> run_checkpoint \<Rightarrow> (application_error, run_checkpoint) result"
  where "validate_loaded_checkpoint env hash db ctx run_id c =
    and_then (validate_checkpoint_structure hash ctx run_id c) (\<lambda>_.
    and_then (load_events_through db ctx run_id (cp_sequence c)) (\<lambda>prefix.
    and_then (recovery_replay env ''run checkpoint has no event prefix'' prefix) (\<lambda>replayed.
    if replayed \<noteq> cp_state c
    then Err (App_Storage ''run checkpoint differs from authoritative event prefix'')
    else Ok c)))"

definition restore_from_checkpoint ::
    "environment \<Rightarrow> (run_state \<Rightarrow> (application_error, string) result) \<Rightarrow> run_store
     \<Rightarrow> request_context \<Rightarrow> uuid \<Rightarrow> run_version \<Rightarrow> run_checkpoint \<Rightarrow> (application_error, run_state) result"
  where "restore_from_checkpoint env hash db ctx run_id head c =
    (if version_value (cp_sequence c) > version_value head
     then Err (App_Storage ''run checkpoint is ahead of the stream head'')
     else
       and_then (validate_loaded_checkpoint env hash db ctx run_id c) (\<lambda>c'.
       and_then (load_events_after db ctx run_id (cp_sequence c')) (\<lambda>tail.
       and_then (map_err (\<lambda>e. App_Storage (''run recovery reduction failed: '' @ env_show_reduce env e))
                   (try_fold (\<lambda>s. apply_event (Some s)) (cp_state c')
                      (filter (\<lambda>e. version_value (ee_sequence e) \<le> version_value head) tail)))
         (\<lambda>s.
       and_then (verify_restored_head s head) (\<lambda>_. Ok s)))))"

definition restore_full ::
    "environment \<Rightarrow> run_store \<Rightarrow> request_context \<Rightarrow> uuid \<Rightarrow> run_version
     \<Rightarrow> (application_error, run_state) result"
  where "restore_full env db ctx run_id head =
    and_then (load_events_through db ctx run_id head) (\<lambda>events.
    and_then (recovery_replay env ''run stream has no canonical events'' events) (\<lambda>s.
    and_then (verify_restored_head s head) (\<lambda>_. Ok s)))"

definition restore ::
    "environment \<Rightarrow> (run_state \<Rightarrow> (application_error, string) result) \<Rightarrow> run_store
     \<Rightarrow> request_context \<Rightarrow> uuid \<Rightarrow> (application_error, run_state) result"
  where "restore env hash db ctx run_id =
    and_then (stream_head db ctx run_id) (\<lambda>head.
    and_then (load_latest_checkpoint hash db ctx run_id) (\<lambda>found.
    case found of
      Some c \<Rightarrow>
        (if version_value (cp_sequence c) \<le> version_value head
         then restore_from_checkpoint env hash db ctx run_id head c
         else restore_full env db ctx run_id head)
    | None \<Rightarrow> restore_full env db ctx run_id head))"

definition validate_checkpoint_for_write ::
    "(run_state \<Rightarrow> (application_error, string) result) \<Rightarrow> request_context \<Rightarrow> run_checkpoint
     \<Rightarrow> (application_error, unit) result"
  where "validate_checkpoint_for_write hash ctx c =
    (if cp_workspace_id c \<noteq> rc_workspace_id ctx
     then Err (App_Conflict ''run checkpoint workspace does not match request context'')
     else validate_checkpoint_identity hash c)"

text \<open>The \<^verbatim>\<open>CHECK\<close> on \<^verbatim>\<open>state_hash\<close> of migration 0112: 64 lower-case hexadecimal digits.\<close>

definition is_sha256_hex :: "string \<Rightarrow> bool"
  where "is_sha256_hex h = (length h = 64 \<and> set h \<subseteq> set ''0123456789abcdef'')"

definition save_checkpoint ::
    "database \<Rightarrow> (run_state \<Rightarrow> (application_error, string) result) \<Rightarrow> run_store
     \<Rightarrow> request_context \<Rightarrow> run_checkpoint \<Rightarrow> (application_error, run_store) result"
  where "save_checkpoint dbe hash db ctx c =
    and_then (validate_checkpoint_for_write hash ctx c) (\<lambda>_.
    and_then (version_to_database (cp_sequence c)) (\<lambda>_.
    if tb_run_streams db (cp_workspace_id c, cp_run_id c) = None \<or> \<not> is_sha256_hex (cp_state_hash c)
    then Err (App_Storage (db_message dbe ''run_checkpoints''))
    else
      case find (\<lambda>d. cp_sequence d = cp_sequence c)
             (stored_checkpoints db (cp_workspace_id c, cp_run_id c)) of
        None \<Rightarrow> Ok (db\<lparr>tb_run_checkpoints := tb_run_checkpoints db @ [c]\<rparr>)
      | Some row \<Rightarrow>
          and_then (checkpoint_from_row hash row) (\<lambda>existing.
          if existing \<noteq> c
          then Err (App_Conflict ''run checkpoint sequence already stores different content'')
          else Ok db)))"

text \<open>\<^verbatim>\<open>now\<close>, normalised to microseconds, becomes \<^verbatim>\<open>created_at\<close>.\<close>

definition create_checkpoint ::
    "environment \<Rightarrow> (run_state \<Rightarrow> (application_error, string) result) \<Rightarrow> run_store
     \<Rightarrow> request_context \<Rightarrow> uuid \<Rightarrow> (application_error, run_checkpoint \<times> run_store) result"
  where "create_checkpoint env hash db ctx run_id =
    and_then (stream_head db ctx run_id) (\<lambda>head.
    and_then (restore_full env db ctx run_id head) (\<lambda>s.
    and_then (hash s) (\<lambda>h.
      let c = \<lparr> cp_workspace_id = rc_workspace_id ctx,
                cp_run_id = run_id,
                cp_sequence = rs_version s,
                cp_format_version = run_checkpoint_format_version,
                cp_state_hash = h,
                cp_state = s,
                cp_created_at = database_timestamp (env_now env) \<rparr>
      in and_then (save_checkpoint (env_database env) hash db ctx c) (\<lambda>db'. Ok (c, db')))))"

definition replace_projection ::
    "database \<Rightarrow> run_store \<Rightarrow> request_context \<Rightarrow> run_version \<Rightarrow> agent_run
     \<Rightarrow> (application_error, run_store) result"
  where "replace_projection dbe db ctx expected_stream_version projection =
    and_then (ok_or (App_Domain (NotFound ''run stream does not exist''))
                (tb_run_streams db (rc_workspace_id ctx, ar_id projection))) (\<lambda>v.
    and_then (version_from_database v) (\<lambda>actual.
    if actual \<noteq> expected_stream_version
    then Err (version_conflict expected_stream_version actual)
    else if ar_workspace_id projection \<noteq> rc_workspace_id ctx
            \<or> ar_version projection \<noteq> expected_stream_version
    then Err (App_Conflict ''run projection identity or version does not match the stream'')
    else
      and_then (version_to_database (ar_version projection)) (\<lambda>version.
      and_then (upsert_agent_run dbe True (App_Storage (db_message dbe ''agent_runs_pkey'')) db
                  (projection_row (ar_coordinator_snapshot_id projection) projection version)) (\<lambda>db'.
      commit_projection dbe db' projection))))"

definition rebuild_projection ::
    "environment \<Rightarrow> (run_state \<Rightarrow> (application_error, string) result) \<Rightarrow> run_store
     \<Rightarrow> request_context \<Rightarrow> uuid \<Rightarrow> (application_error, agent_run \<times> run_store) result"
  where "rebuild_projection env hash db ctx run_id =
    and_then (restore env hash db ctx run_id) (\<lambda>s.
    and_then (stream_head db ctx run_id) (\<lambda>head.
    and_then (verify_restored_head s head) (\<lambda>_.
    and_then (replace_projection (env_database env) db ctx head (project_run s)) (\<lambda>db'.
    Ok (project_run s, db')))))"

section \<open>Command execution, proved\<close>

lemma event_envelope_simps [simp]:
  "ee_workspace_id (event_envelope c t i v p) = ce_workspace_id c"
  "ee_run_id (event_envelope c t i v p) = ce_run_id c"
  "ee_sequence (event_envelope c t i v p) = v"
  "ee_payload (event_envelope c t i v p) = pe_event p"
  "ee_event_type (event_envelope c t i v p) = event_type (pe_event p)"
  "ee_event_version (event_envelope c t i v p) = event_version (pe_event p)"
  "ee_event_id (event_envelope c t i v p) = i"
  by (simp_all add: event_envelope_def)


lemma decide_singleton: "decide st command = Ok ps \<Longrightarrow> \<exists>p. ps = [p]"
proof (cases "\<exists>who title. ce_command command = Cmd_Create who title")
  case True
  assume "decide st command = Ok ps"
  with True show ?thesis by (auto simp: decide_create_Ok_iff one_def)
next
  case False
  assume "decide st command = Ok ps"
  with False show ?thesis
    using decide_other_Ok_iff [of command st ps] by (auto simp: decide_existing_Ok_iff one_def)
qed

lemma plan_command_Ok:
  assumes "plan_command env es command = Ok (envelopes, projection)"
  obtains st s e where "replay es = Ok st" "envelopes = [e]" "apply_event st e = Ok s"
    "projection = project_run s" "ee_event_id e = env_ids env 0"
proof -
  obtain st ps s where st: "replay es = Ok st" "decide st command = Ok ps"
      "build_envelopes command (database_timestamp (env_now env)) (env_ids env) 0
         (ce_expected_version command) ps = Ok envelopes"
      "replay_from st envelopes = Ok (Some s)" "projection = project_run s"
    using assms
    by (auto simp: plan_command_def and_then_Ok_iff map_err_Ok_iff ok_or_Ok_iff split: if_splits)
  obtain p where "ps = [p]"
    using decide_singleton [OF st(2)] by blast
  then obtain e where "envelopes = [e]" "ee_event_id e = env_ids env 0"
    using st(3) by (auto simp: and_then_Ok_iff map_err_Ok_iff)
  then show thesis
    using that [of st e s] st by (auto simp: and_then_Ok_iff)
qed

lemma execute_Ok:
  assumes "execute env db ctx command = Ok ((projection, envelopes), db')"
  shows "validate_command_context ctx command = Ok ()"
    and "\<exists>es v. load_events db ctx (ce_run_id command) = Ok es \<and>
      plan_command env es command = Ok (envelopes, projection) \<and>
      pg_commit (env_database env) (env_show_replay env) (env_resolve env) db ctx
        (ce_run_id command) (ce_expected_version command) envelopes projection = Ok (v, db')"
  using assms
  by (auto simp: execute_def and_then_Ok_iff pg_load_stream_def split: prod.splits if_splits)

lemma upsert_projection_row:
  assumes "upsert_projection dbe db who p = Ok db'"
  shows "\<exists>owner. tb_agent_runs db' (ar_id p) =
    Some (projection_row owner p (int (unat (version_value (ar_version p)))))"
  using assms
  by (auto simp: upsert_projection_def upsert_agent_run_def and_then_Ok_iff version_to_database_def
      projection_row_def Let_def split: if_splits option.splits)

lemma pg_commit_row:
  assumes "pg_commit dbe shw res db ctx run_id expected events p = Ok (v, db')"
  shows "\<exists>owner. tb_agent_runs db' (ar_id p) =
    Some (projection_row owner p (int (unat (version_value (ar_version p)))))"
proof -
  obtain db3 where "upsert_projection dbe db3 (rc_principal_id ctx) p = Ok db'"
    using assms unfolding pg_commit_def
    by (auto simp: and_then_Ok_iff commit_projection_Ok_iff split: prod.splits if_splits)
  then show ?thesis by (rule upsert_projection_row)
qed

section \<open>Delivery of outcomes, proved\<close>

lemma foldr_max_upt: "0 \<le> b \<Longrightarrow> foldr max (map int [1..<Suc n]) b = max b (int n)"
  by (induction n arbitrary: b) (auto simp: max_def)

lemma stored_head_numbered:
  assumes "numbered_from 0 (stream_events db k)"
  shows "stored_head db k = int (length (stream_events db k))"
proof -
  have "map (int \<circ> row_sequence) (filter (\<lambda>r. row_key r = k) (tb_run_events db))
      = map int [1..<Suc (length (stream_events db k))]"
    using arg_cong [OF numbered_sequences [OF assms], of "map int"]
    by (simp add: stream_events_def row_sequence_def comp_def del: upt_Suc)
  then show ?thesis
    unfolding stored_head_def using foldr_max_upt [of 0] by (simp del: upt_Suc)
qed

lemma append_lock_Ok:
  assumes "store_ok db" "append_lock_or_create_stream dbe db ctx run_id expected at = Ok (actual, db1)"
  defines "k \<equiv> (rc_workspace_id ctx, run_id)"
  shows "db1 = db\<lparr>tb_run_streams := (tb_run_streams db)(k \<mapsto> int (length (stream_events db k)))\<rparr>"
    and "unat (version_value actual) = length (stream_events db k)"
proof -
  have sok: "stream_ok db k"
    using assms(1) by (rule store_okD)
  have "db1 = db\<lparr>tb_run_streams := (tb_run_streams db)(k \<mapsto> int (length (stream_events db k)))\<rparr> \<and>
    unat (version_value actual) = length (stream_events db k)"
  proof (cases "tb_run_streams db k")
    case None
    then show ?thesis
      using assms(2) sok
      by (auto simp: append_lock_or_create_stream_def k_def stream_ok_def run_version_zero_def Let_def
          and_then_Ok_iff create_stream_Ok_iff split: if_splits)
  next
    case (Some v)
    then have "version_from_database v = Ok actual" "db1 = db" "v = int (length (stream_events db k))"
      using assms(2) sok
      by (auto simp: append_lock_or_create_stream_def k_def Let_def and_then_Ok_iff stream_ok_def)
    then show ?thesis
      using Some version_from_database_Ok [of v actual] by (simp add: fun_upd_idem)
  qed
  then show "db1 = db\<lparr>tb_run_streams := (tb_run_streams db)(k \<mapsto> int (length (stream_events db k)))\<rparr>"
    "unat (version_value actual) = length (stream_events db k)" by blast+
qed

lemma pg_append_Ok:
  assumes ok: "store_ok db" and app: "pg_append dbe db ctx run_id expected events = Ok (v, db')"
  defines "k \<equiv> (rc_workspace_id ctx, run_id)"
  shows "store_ok db'"
    and "stream_events db' k' = stream_events db k' @ (if k' = k then events else [])"
    and "unat (version_value expected) = length (stream_events db k)"
proof -
  obtain db1 db2 actual where
      val: "validate_event_batch ctx run_id expected events = Ok v"
    and lock: "append_lock_or_create_stream dbe db ctx run_id expected (ee_recorded_at (hd events))
                = Ok (actual, db1)"
    and actual: "actual = expected"
    and ins: "insert_events dbe (App_Storage (db_message dbe ''run_events'')) db1 events = Ok db2"
    and adv: "advance_stream dbe ''run stream changed before event append'' db2
                (rc_workspace_id ctx, run_id) expected v (ee_recorded_at (last events)) = Ok db'"
    using app unfolding pg_append_def
    by (auto simp: and_then_Ok_iff split: prod.splits if_splits)
  note lk = append_lock_Ok [OF ok lock, folded k_def]
  note ds = insert_events_Ok [OF ins] advance_stream_Ok [OF adv]
  have "validate_events ''append'' ctx run_id expected events = Ok v"
    using val by (auto simp: validate_event_batch_def split: if_splits)
  note ve = validate_events_Ok [OF this]
  have rows: "tb_run_events db' = tb_run_events db @
      map (\<lambda>e. \<lparr>ev_envelope = e, ev_created_at = db_now dbe\<rparr>) events"
    using ds lk(1) by simp
  have keys: "e \<in> set events \<Longrightarrow> (ee_workspace_id e, ee_run_id e) = k" for e
    using ve by (simp add: k_def)
  have len: "unat (version_value v) = length (stream_events db k) + length events"
    using ve lk(2) actual by simp
  have streams: "tb_run_streams db' =
      (tb_run_streams db)(k \<mapsto> int (length (stream_events db k) + length events))"
    using ds lk(1) len by (simp add: k_def)
  show "store_ok db'"
    using store_ok_extend [OF ok rows keys streams] ve lk(2) actual ds len by simp
  show "stream_events db' k' = stream_events db k' @ (if k' = k then events else [])"
    by (rule stream_events_extend [OF rows keys])
  show "unat (version_value expected) = length (stream_events db k)"
    using lk(2) actual by simp
qed

lemma append_to_run_Ok:
  assumes ok: "store_ok db"
    and app: "append_to_run dbe shw db ctx run_id outcome i c at = Ok db'"
  defines "k \<equiv> (rc_workspace_id ctx, run_id)"
  obtains sequence where "store_ok db'"
    and "\<And>k'. stream_events db' k' = stream_events db k' @
      (if k' = k then [settled_envelope ctx run_id outcome i c sequence at] else [])"
    and "unat (version_value sequence) = Suc (length (stream_events db k))"
proof -
  obtain head sequence v where
      "run_version_new (version_value head + 1) = Ok sequence"
    and pa: "pg_append dbe db ctx run_id head [settled_envelope ctx run_id outcome i c sequence at] = Ok (v, db')"
    using app unfolding append_to_run_def
    by (auto simp: and_then_Ok_iff ok_or_Ok_iff map_err_Ok_iff)
  note eff = pg_append_Ok [OF ok pa, folded k_def]
  have "numbered_from 0 (stream_events db' k)"
    using eff(1) store_okD stream_ok_def by blast
  then have "unat (version_value sequence) = Suc (length (stream_events db k))"
    using eff(2) [of k] by (simp add: numbered_append settled_envelope_def Let_def)
  then show thesis
    using that [of sequence] eff(1,2) by blast
qed

lemma settled_envelope_simps [simp]:
  "ee_workspace_id (settled_envelope ctx run_id outcome i c v at) = rc_workspace_id ctx"
  "ee_run_id (settled_envelope ctx run_id outcome i c v at) = run_id"
  "ee_sequence (settled_envelope ctx run_id outcome i c v at) = v"
  "ee_payload (settled_envelope ctx run_id outcome i c v at) =
     Ev_ExternalEffectSettled (uo_effect_id outcome) (uo_receipt_id outcome) (uo_outcome outcome)
       (uo_evidence_strength outcome)"
  "ee_event_type (settled_envelope ctx run_id outcome i c v at) = ''run.external_effect_settled''"
  "ee_event_version (settled_envelope ctx run_id outcome i c v at) = 1"
  "ee_occurred_at (settled_envelope ctx run_id outcome i c v at) = uo_reconciled_at outcome"
  by (simp_all add: settled_envelope_def Let_def event_version_def)

text \<open>A stream and the state it replays to belong to the same run.\<close>

lemma replay_identity:
  assumes "replay es = Ok (Some s)" "\<And>e. e \<in> set es \<Longrightarrow> (ee_workspace_id e, ee_run_id e) = k"
  shows "(rs_workspace_id s, rs_id s) = k"
    and "unat (version_value (rs_version s)) = length es" and "run_state_ok s"
proof -
  obtain e rest s1 where es: "es = e # rest" "apply_event None e = Ok s1"
      "replay_from (Some s1) rest = Ok (Some s)"
    using assms(1) by (cases es) (auto simp: replay_Ok_iff and_then_Ok_iff)
  note first = apply_first_ok [OF es(2)]
  have "rs_id s = rs_id s1 \<and> rs_workspace_id s = rs_workspace_id s1"
    using replay_from_identity [OF es(3) first(1)] by simp
  then show "(rs_workspace_id s, rs_id s) = k"
    using first(4) assms(2) [of e] es(1) by simp
  show "unat (version_value (rs_version s)) = length es" "run_state_ok s"
    using run_log.fold_inv_count [of None es "Some s"] assms(1)
    by (simp_all add: replay_Ok_iff replay_from_try_fold log_ok_def log_version_def)
qed

lemma stream_events_keys: "e \<in> set (stream_events db k) \<Longrightarrow> (ee_workspace_id e, ee_run_id e) = k"
  by (auto simp: stream_events_def row_key_def)

lemma stream_replay_identity:
  assumes "replay (stream_events db k) = Ok (Some s)"
  shows "(rs_workspace_id s, rs_id s) = k"
    and "unat (version_value (rs_version s)) = length (stream_events db k)" and "run_state_ok s"
  using replay_identity [OF assms, of k] stream_events_keys [of _ db k] by blast+

lemma apply_settled:
  assumes "rs_workspace_id s = rc_workspace_id ctx" "rs_id s = run_id"
    and "run_version_next (rs_version s) = Ok v"
  shows "apply_event (Some s) (settled_envelope ctx run_id outcome i c v at) =
    (if run_status_is_terminal (rs_status s) then Err (Red_EventAfterTerminal (rs_status s))
     else Ok (s\<lparr>rs_version := v, rs_updated_at := uo_reconciled_at outcome\<rparr>))"
  using assms
  by (simp add: apply_event_def validate_envelope_def apply_existing_def event_version_def Let_def)

lemma append_to_run_replay:
  assumes ok: "store_ok db"
    and app: "append_to_run dbe shw db ctx run_id outcome i c at = Ok db'"
    and rep: "replay (stream_events db (rc_workspace_id ctx, run_id)) = Ok (Some s)"
  shows "replay (stream_events db' (rc_workspace_id ctx, run_id)) =
    (if run_status_is_terminal (rs_status s)
     then Err (Replay_Reduce (Red_EventAfterTerminal (rs_status s)))
     else Ok (Some (s\<lparr>rs_version := RunVersion (version_value (rs_version s) + 1),
                      rs_updated_at := uo_reconciled_at outcome\<rparr>)))"
proof -
  let ?k = "(rc_workspace_id ctx, run_id)"
  obtain v where ext: "\<And>k'. stream_events db' k' = stream_events db k' @
        (if k' = ?k then [settled_envelope ctx run_id outcome i c v at] else [])"
      and len: "unat (version_value v) = Suc (length (stream_events db ?k))"
    by (rule append_to_run_Ok [OF ok app]) blast
  have v: "stream_events db' ?k = stream_events db ?k @ [settled_envelope ctx run_id outcome i c v at]"
      "unat (version_value v) = Suc (length (stream_events db ?k))"
    using ext [of ?k] len by simp_all
  note idn = stream_replay_identity [OF rep]
  have nxt: "run_version_next (rs_version s) = Ok v"
    using v(2) idn(2) by (simp add: run_version_next_Ok_iff)
  then have "v = RunVersion (version_value (rs_version s) + 1)"
    by (cases v) (auto simp: run_version_next_def ok_or_Ok_iff checked_add_def split: if_splits)
  moreover have "apply_event (Some s) (settled_envelope ctx run_id outcome i c v at) =
      (if run_status_is_terminal (rs_status s) then Err (Red_EventAfterTerminal (rs_status s))
       else Ok (s\<lparr>rs_version := v, rs_updated_at := uo_reconciled_at outcome\<rparr>))"
    using idn(1) nxt by (intro apply_settled) simp_all
  moreover have "replay_from None (stream_events db ?k) = Ok (Some s)"
    using rep by (simp add: replay_Ok_iff)
  ultimately show ?thesis
    by (simp add: replay_def v(1) replay_from_append)
qed

lemma execute_needs_replay:
  assumes "store_ok db" "replay (stream_events db (rc_workspace_id ctx, ce_run_id command)) = Err e"
  shows "\<not> is_ok (execute env db ctx command)"
  using assms(2) load_events_ok [OF store_okD [OF assms(1)], of ctx "ce_run_id command"]
  by (cases "validate_command_context ctx command")
    (simp_all add: execute_def pg_load_stream_def plan_command_def)

section \<open>Recovery, proved\<close>

lemma recorded_at_update:
  "ee_workspace_id (e\<lparr>ee_recorded_at := t\<rparr>) = ee_workspace_id e"
  "ee_run_id (e\<lparr>ee_recorded_at := t\<rparr>) = ee_run_id e"
  "ee_sequence (e\<lparr>ee_recorded_at := t\<rparr>) = ee_sequence e"
  "ee_event_type (e\<lparr>ee_recorded_at := t\<rparr>) = ee_event_type e"
  "ee_event_version (e\<lparr>ee_recorded_at := t\<rparr>) = ee_event_version e"
  "ee_payload (e\<lparr>ee_recorded_at := t\<rparr>) = ee_payload e"
  "ee_occurred_at (e\<lparr>ee_recorded_at := t\<rparr>) = ee_occurred_at e"
  by simp_all

lemma apply_event_recorded [simp]:
  "apply_event st (e\<lparr>ee_recorded_at := t\<rparr>) = apply_event st e"
  unfolding apply_event_def validate_envelope_def apply_first_def apply_existing_def
    recorded_at_update ..

lemma replay_recovered: "replay_from st (map recovered_envelope rows) = replay_from st (map ev_envelope rows)"
  by (induction rows arbitrary: st) (simp_all add: recovered_envelope_def)

lemma event_from_row_recorded:
  "event_from_row (e\<lparr>ee_recorded_at := t\<rparr>) = and_then (event_from_row e) (\<lambda>e. Ok (e\<lparr>ee_recorded_at := t\<rparr>))"
  by (simp add: event_from_row_def)

lemma numbered_above:
  "numbered_from n es \<Longrightarrow> e \<in> set es \<Longrightarrow> n < unat (version_value (ee_sequence e))"
  by (induction es arbitrary: n) fastforce+

lemma filter_numbered_le:
  "numbered_from m (map ev_envelope rows) \<Longrightarrow>
     filter (\<lambda>r. row_sequence r \<le> m + j) rows = take j rows"
proof (induction rows arbitrary: m j)
  case (Cons r rows)
  then have r: "row_sequence r = Suc m" and rest: "numbered_from (Suc m) (map ev_envelope rows)"
    by (simp_all add: row_sequence_def)
  show ?case
  proof (cases j)
    case 0
    have "x \<in> set rows \<Longrightarrow> \<not> row_sequence x \<le> m" for x
      using numbered_above [OF rest, of "ev_envelope x"] by (simp add: row_sequence_def)
    then show ?thesis
      using 0 r by (simp add: filter_empty_conv)
  next
    case (Suc i)
    then show ?thesis
      using r Cons.IH [OF rest, of i] by simp
  qed
qed simp

lemma filter_numbered_gt:
  "numbered_from m (map ev_envelope rows) \<Longrightarrow>
     filter (\<lambda>r. m + j < row_sequence r) rows = drop j rows"
proof (induction rows arbitrary: m j)
  case (Cons r rows)
  then have r: "row_sequence r = Suc m" and rest: "numbered_from (Suc m) (map ev_envelope rows)"
    by (simp_all add: row_sequence_def)
  show ?case
  proof (cases j)
    case 0
    have "x \<in> set rows \<Longrightarrow> m < row_sequence x" for x
      using numbered_above [OF rest, of "ev_envelope x"] by (simp add: row_sequence_def)
    then show ?thesis
      using 0 r by simp
  next
    case (Suc i)
    then show ?thesis
      using r Cons.IH [OF rest, of i] by simp
  qed
qed simp

lemma numbered_below:
  "numbered_from n es \<Longrightarrow> e \<in> set es \<Longrightarrow> unat (version_value (ee_sequence e)) \<le> n + length es"
  by (induction es arbitrary: n) fastforce+

text \<open>The rows of a stream, in the order in which they were appended.\<close>

definition row_list :: "run_store \<Rightarrow> uuid \<times> uuid \<Rightarrow> run_event_row list"
  where "row_list db k = filter (\<lambda>r. row_key r = k) (tb_run_events db)"

lemma stream_events_rows: "stream_events db k = map ev_envelope (row_list db k)"
  by (simp add: stream_events_def row_list_def)

lemma stream_ok_numbered: "stream_ok db k \<Longrightarrow> numbered_from 0 (map ev_envelope (row_list db k))"
  by (simp add: stream_ok_def stream_events_rows)

lemma recovered_rows:
  assumes "stream_ok db k" "set rows \<subseteq> set (row_list db k)"
  shows "collect_results (map (event_from_row \<circ> recovered_envelope) rows) = Ok (map recovered_envelope rows)"
proof (rule collect_results_map_Ok)
  fix r assume "r \<in> set rows"
  then have "ev_envelope r \<in> set (map ev_envelope (row_list db k))"
    using assms(2) by auto
  then show "(event_from_row \<circ> recovered_envelope) r = Ok (recovered_envelope r)"
    using event_from_row_numbered [OF stream_ok_numbered [OF assms(1)]]
    by (simp add: recovered_envelope_def event_from_row_recorded)
qed

lemma load_events_through_ok:
  assumes "stream_ok db (rc_workspace_id ctx, run_id)" "unat (version_value through) < 2 ^ 63"
  shows "load_events_through db ctx run_id through =
    Ok (map recovered_envelope (take (unat (version_value through)) (row_list db (rc_workspace_id ctx, run_id))))"
proof -
  let ?k = "(rc_workspace_id ctx, run_id)"
  have num: "numbered_from 0 (map ev_envelope (row_list db ?k))"
    using assms(1) by (rule stream_ok_numbered)
  have rows: "stream_rows db ?k = row_list db ?k"
    using num by (simp add: stream_rows_eq stream_events_rows row_list_def)
  have "filter (\<lambda>r. int (row_sequence r) \<le> int (unat (version_value through))) (stream_rows db ?k)
      = take (unat (version_value through)) (row_list db ?k)"
    using filter_numbered_le [OF num, of "unat (version_value through)"] by (simp add: rows)
  then show ?thesis
    using assms(2) recovered_rows [OF assms(1)]
    by (simp add: load_events_through_def version_to_database_def set_take_subset)
qed

lemma load_events_after_ok:
  assumes "stream_ok db (rc_workspace_id ctx, run_id)" "unat (version_value after) < 2 ^ 63"
  shows "load_events_after db ctx run_id after =
    Ok (map recovered_envelope (drop (unat (version_value after)) (row_list db (rc_workspace_id ctx, run_id))))"
proof -
  let ?k = "(rc_workspace_id ctx, run_id)"
  have num: "numbered_from 0 (map ev_envelope (row_list db ?k))"
    using assms(1) by (rule stream_ok_numbered)
  have rows: "stream_rows db ?k = row_list db ?k"
    using num by (simp add: stream_rows_eq stream_events_rows row_list_def)
  have "filter (\<lambda>r. int (unat (version_value after)) < int (row_sequence r)) (stream_rows db ?k)
      = drop (unat (version_value after)) (row_list db ?k)"
    using filter_numbered_gt [OF num, of "unat (version_value after)"] by (simp add: rows)
  then show ?thesis
    using assms(2) recovered_rows [OF assms(1)]
    by (simp add: load_events_after_def version_to_database_def set_drop_subset)
qed

lemma replay_recovered_rows: "replay (map recovered_envelope rows) = replay (map ev_envelope rows)"
  by (simp add: replay_def replay_recovered)

lemma try_fold_replay:
  "try_fold (\<lambda>s. apply_event (Some s)) s es = Ok s' \<longleftrightarrow> replay_from (Some s) es = Ok (Some s')"
  by (induction es arbitrary: s) (auto simp: and_then_Ok_iff)

lemma recovery_replay_Ok_iff:
  "recovery_replay env m es = Ok s \<longleftrightarrow> replay es = Ok (Some s)"
  by (auto simp: recovery_replay_def and_then_Ok_iff map_err_Ok_iff ok_or_Ok_iff)

lemma stream_head_Ok:
  assumes "store_ok db" "stream_head db ctx run_id = Ok head"
  shows "unat (version_value head) = length (row_list db (rc_workspace_id ctx, run_id))"
    and "unat (version_value head) < 2 ^ 63"
proof -
  let ?k = "(rc_workspace_id ctx, run_id)"
  obtain v where v: "tb_run_streams db ?k = Some v" "version_from_database v = Ok head"
    using assms(2)
    by (auto simp: stream_head_def load_stream_head_def and_then_Ok_iff ok_or_Ok_iff split: option.splits)
  have "v = int (length (row_list db ?k))" "length (row_list db ?k) < 2 ^ 63"
    using store_okD [OF assms(1), of ?k] v(1) by (simp_all add: stream_ok_def stream_events_rows)
  moreover have "v = int (unat (version_value head))"
    using version_from_database_Ok [OF v(2)] .
  ultimately show "unat (version_value head) = length (row_list db ?k)"
    "unat (version_value head) < 2 ^ 63" by simp_all
qed

lemma restore_full_Ok_iff:
  assumes "store_ok db" "stream_head db ctx run_id = Ok head"
  shows "restore_full env db ctx run_id head = Ok s \<longleftrightarrow>
    replay (stream_events db (rc_workspace_id ctx, run_id)) = Ok (Some s)"
proof -
  note h = stream_head_Ok [OF assms]
  have "load_events_through db ctx run_id head =
      Ok (map recovered_envelope (row_list db (rc_workspace_id ctx, run_id)))"
    using load_events_through_ok [OF store_okD [OF assms(1)] h(2)] h(1) by simp
  moreover have "replay (stream_events db (rc_workspace_id ctx, run_id)) = Ok (Some s) \<Longrightarrow> rs_version s = head"
    using stream_replay_identity(2) [of db _ s] h(1)
    by (cases "rs_version s"; cases head) (simp add: stream_events_rows word_unat_eq_iff)
  ultimately show ?thesis
    by (auto simp: restore_full_def and_then_Ok_iff recovery_replay_Ok_iff replay_recovered_rows
        stream_events_rows verify_restored_head_def split: if_splits)
qed

lemma tail_within_head:
  assumes "stream_ok db k" "unat (version_value head) = length (row_list db k)"
  shows "filter (\<lambda>e. version_value (ee_sequence e) \<le> version_value head)
      (map recovered_envelope (drop n (row_list db k))) = map recovered_envelope (drop n (row_list db k))"
proof (rule filter_True, rule ballI)
  fix e assume "e \<in> set (map recovered_envelope (drop n (row_list db k)))"
  then obtain r where r: "r \<in> set (row_list db k)" "e = recovered_envelope r"
    by (auto dest: in_set_dropD)
  then have "unat (version_value (ee_sequence (ev_envelope r))) \<le> 0 + length (map ev_envelope (row_list db k))"
    by (intro numbered_below [OF stream_ok_numbered [OF assms(1)]]) simp
  then show "version_value (ee_sequence e) \<le> version_value head"
    using assms(2) r(2) by (simp add: word_le_nat_alt recovered_envelope_def)
qed

lemma restore_from_checkpoint_Ok_iff:
  assumes ok: "store_ok db" and head: "stream_head db ctx run_id = Ok head"
    and le: "version_value (cp_sequence c) \<le> version_value head"
    and valid: "is_ok (validate_loaded_checkpoint env hash db ctx run_id c)"
  shows "restore_from_checkpoint env hash db ctx run_id head c = Ok s \<longleftrightarrow>
    replay (stream_events db (rc_workspace_id ctx, run_id)) = Ok (Some s)"
proof -
  let ?k = "(rc_workspace_id ctx, run_id)" and ?n = "unat (version_value (cp_sequence c))"
  note h = stream_head_Ok [OF ok head]
  have sok: "stream_ok db ?k" by (rule store_okD [OF ok])
  have n: "?n \<le> length (row_list db ?k)" "?n < 2 ^ 63"
    using le h by (simp_all add: word_le_nat_alt)
  have vc: "validate_loaded_checkpoint env hash db ctx run_id c = Ok c"
    and prefix: "replay (map ev_envelope (take ?n (row_list db ?k))) = Ok (Some (cp_state c))"
    using valid load_events_through_ok [OF sok n(2)]
    by (auto simp: is_ok_iff validate_loaded_checkpoint_def and_then_Ok_iff recovery_replay_Ok_iff
        replay_recovered_rows split: if_splits)
  have after: "load_events_after db ctx run_id (cp_sequence c) =
      Ok (map recovered_envelope (drop ?n (row_list db ?k)))"
    by (rule load_events_after_ok [OF sok n(2)])
  have ev: "stream_events db ?k =
      map ev_envelope (take ?n (row_list db ?k)) @ map ev_envelope (drop ?n (row_list db ?k))"
    unfolding stream_events_rows by (simp flip: map_append)
  have split: "replay (stream_events db ?k) = Ok (Some s) \<longleftrightarrow>
      replay_from (Some (cp_state c)) (map ev_envelope (drop ?n (row_list db ?k))) = Ok (Some s)"
    using prefix by (simp add: ev replay_Ok_iff replay_from_append)
  have ver: "replay (stream_events db ?k) = Ok (Some s) \<Longrightarrow> rs_version s = head"
    using stream_replay_identity(2) [of db ?k s] h(1)
    by (cases "rs_version s"; cases head) (simp add: stream_events_rows word_unat_eq_iff)
  show ?thesis
    using le vc after ver tail_within_head [OF sok h(1), of ?n] split
    by (auto simp: restore_from_checkpoint_def and_then_Ok_iff map_err_Ok_iff try_fold_replay
        replay_recovered verify_restored_head_def split: if_splits)
qed

text \<open>Checkpoints whose content is the replay of the prefix they name.\<close>

definition checkpoint_ok ::
    "(run_state \<Rightarrow> (application_error, string) result) \<Rightarrow> run_store \<Rightarrow> run_checkpoint \<Rightarrow> bool"
  where "checkpoint_ok hash db c =
    (let events = stream_events db (cp_workspace_id c, cp_run_id c) in
     cp_format_version c = run_checkpoint_format_version \<and>
     hash (cp_state c) = Ok (cp_state_hash c) \<and>
     unat (version_value (cp_sequence c)) \<le> length events \<and>
     replay (take (unat (version_value (cp_sequence c))) events) = Ok (Some (cp_state c)))"

lemma latest_checkpoint_in: "latest_checkpoint cs = Some c \<Longrightarrow> c \<in> set cs"
  by (induction cs arbitrary: c) (auto split: option.splits if_splits)

lemma checkpoint_ok_state:
  assumes "checkpoint_ok hash db c"
  shows "rs_version (cp_state c) = cp_sequence c" "rs_id (cp_state c) = cp_run_id c"
    "rs_workspace_id (cp_state c) = cp_workspace_id c" "cp_sequence c \<noteq> run_version_zero"
proof -
  let ?es = "take (unat (version_value (cp_sequence c))) (stream_events db (cp_workspace_id c, cp_run_id c))"
  have rep: "replay ?es = Ok (Some (cp_state c))"
    and len: "unat (version_value (cp_sequence c)) = length ?es"
    using assms by (auto simp: checkpoint_ok_def Let_def)
  have keys: "e \<in> set ?es \<Longrightarrow> (ee_workspace_id e, ee_run_id e) = (cp_workspace_id c, cp_run_id c)" for e
    by (rule stream_events_keys [of _ db]) (rule in_set_takeD)
  note idn = replay_identity [OF rep keys]
  show "rs_version (cp_state c) = cp_sequence c"
    using idn(2) len by (cases "rs_version (cp_state c)"; cases "cp_sequence c") (simp add: word_unat_eq_iff)
  then show "cp_sequence c \<noteq> run_version_zero"
    using idn(3) by (auto simp: run_state_ok_def run_version_zero_def)
  show "rs_id (cp_state c) = cp_run_id c" "rs_workspace_id (cp_state c) = cp_workspace_id c"
    using idn(1) by simp_all
qed

lemma checkpoint_ok_loads:
  assumes ok: "store_ok db" and c: "checkpoint_ok hash db c"
    and key: "cp_workspace_id c = rc_workspace_id ctx" "cp_run_id c = run_id"
    and small: "unat (version_value (cp_sequence c)) < 2 ^ 63"
  shows "checkpoint_from_row hash c = Ok c"
    and "validate_loaded_checkpoint env hash db ctx run_id c = Ok c"
proof -
  note st = checkpoint_ok_state [OF c]
  have h: "hash (cp_state c) = Ok (cp_state_hash c)"
    and f: "cp_format_version c = run_checkpoint_format_version"
    and rep: "replay (take (unat (version_value (cp_sequence c)))
      (stream_events db (rc_workspace_id ctx, run_id))) = Ok (Some (cp_state c))"
    using c by (simp_all add: checkpoint_ok_def Let_def key)
  show "checkpoint_from_row hash c = Ok c"
    by (simp add: checkpoint_from_row_def validate_checkpoint_identity_def st h f)
  have "recovery_replay env m (map recovered_envelope (take (unat (version_value (cp_sequence c)))
      (row_list db (rc_workspace_id ctx, run_id)))) = Ok (cp_state c)" for m
    using rep by (simp add: recovery_replay_Ok_iff replay_recovered_rows stream_events_rows take_map)
  then show "validate_loaded_checkpoint env hash db ctx run_id c = Ok c"
    using load_events_through_ok [OF store_okD [OF ok] small]
    by (simp add: validate_loaded_checkpoint_def validate_checkpoint_structure_def st h f key)
qed

lemma restore_sound_lemma:
  assumes ok: "store_ok db" and res: "restore env hash db ctx run_id = Ok s"
  shows "replay (stream_events db (rc_workspace_id ctx, run_id)) = Ok (Some s)"
proof -
  obtain head found where head: "stream_head db ctx run_id = Ok head"
    and found: "load_latest_checkpoint hash db ctx run_id = Ok found"
    and rest: "(case found of
        Some c \<Rightarrow> if version_value (cp_sequence c) \<le> version_value head
          then restore_from_checkpoint env hash db ctx run_id head c
          else restore_full env db ctx run_id head
      | None \<Rightarrow> restore_full env db ctx run_id head) = Ok s"
    using res by (auto simp: restore_def and_then_Ok_iff)
  show ?thesis
  proof (cases "\<exists>c. found = Some c \<and> version_value (cp_sequence c) \<le> version_value head")
    case True
    then obtain c where c: "version_value (cp_sequence c) \<le> version_value head"
        "restore_from_checkpoint env hash db ctx run_id head c = Ok s"
      using rest by auto
    then have "is_ok (validate_loaded_checkpoint env hash db ctx run_id c)"
      by (auto simp: restore_from_checkpoint_def and_then_Ok_iff is_ok_iff split: if_splits)
    then show ?thesis
      using restore_from_checkpoint_Ok_iff [OF ok head c(1)] c(2) by blast
  next
    case False
    then have "restore_full env db ctx run_id head = Ok s"
      using rest by (auto split: option.splits if_splits)
    then show ?thesis
      using restore_full_Ok_iff [OF ok head] by blast
  qed
qed

lemma stream_head_exists:
  assumes ok: "store_ok db" and rep: "replay (stream_events db (rc_workspace_id ctx, run_id)) = Ok (Some s)"
  shows "stream_head db ctx run_id = Ok (rs_version s)"
proof -
  let ?k = "(rc_workspace_id ctx, run_id)"
  note idn = stream_replay_identity [OF rep]
  have "stream_events db ?k \<noteq> []"
    using rep by (auto simp: replay_def)
  then obtain v where v: "tb_run_streams db ?k = Some v" "v = int (length (stream_events db ?k))"
    using store_okD [OF ok, of ?k] by (auto simp: stream_ok_def split: option.splits)
  then have "version_from_database v = Ok (rs_version s)"
    using idn(2) by (intro version_to_from_database) simp
  then show ?thesis
    by (simp add: stream_head_def load_stream_head_def v(1))
qed

lemma checkpoint_ok_extend:
  assumes "checkpoint_ok hash db c" "\<And>k. \<exists>more. stream_events db' k = stream_events db k @ more"
  shows "checkpoint_ok hash db' c"
proof -
  obtain more where "stream_events db' (cp_workspace_id c, cp_run_id c) =
      stream_events db (cp_workspace_id c, cp_run_id c) @ more"
    using assms(2) by blast
  then show ?thesis
    using assms(1) by (simp add: checkpoint_ok_def Let_def)
qed

lemma create_checkpoint_effect:
  assumes ok: "store_ok db" and create: "create_checkpoint env hash db ctx run_id = Ok (c, db')"
    and cps: "\<And>d. d \<in> set (tb_run_checkpoints db) \<Longrightarrow> checkpoint_ok hash db d"
  shows "d \<in> set (tb_run_checkpoints db') \<Longrightarrow> checkpoint_ok hash db' d"
    and "store_ok db'" and "stream_events db' k = stream_events db k"
    and "replay (stream_events db (rc_workspace_id ctx, run_id)) = Ok (Some (cp_state c))"
proof -
  obtain head s h where head: "stream_head db ctx run_id = Ok head"
    and full: "restore_full env db ctx run_id head = Ok s" and h: "hash s = Ok h"
    and c: "c = \<lparr> cp_workspace_id = rc_workspace_id ctx, cp_run_id = run_id, cp_sequence = rs_version s,
      cp_format_version = run_checkpoint_format_version, cp_state_hash = h, cp_state = s,
      cp_created_at = database_timestamp (env_now env) \<rparr>"
    and save: "save_checkpoint (env_database env) hash db ctx c = Ok db'"
    using create by (auto simp: create_checkpoint_def and_then_Ok_iff Let_def)
  have rep: "replay (stream_events db (rc_workspace_id ctx, run_id)) = Ok (Some s)"
    using restore_full_Ok_iff [OF ok head] full by blast
  have db': "db' = db \<or> db' = db\<lparr>tb_run_checkpoints := tb_run_checkpoints db @ [c]\<rparr>"
    using save by (auto simp: save_checkpoint_def and_then_Ok_iff split: if_splits option.splits)
  then have ev: "stream_events db' k = stream_events db k" for k
    by (auto simp: stream_events_def)
  have new: "checkpoint_ok hash db c"
    using rep h stream_replay_identity(2) [OF rep] by (simp add: c checkpoint_ok_def Let_def)
  show "d \<in> set (tb_run_checkpoints db') \<Longrightarrow> checkpoint_ok hash db' d"
    using db' cps new ev by (auto simp: checkpoint_ok_def Let_def)
  show "store_ok db'"
  proof -
    have "tb_run_streams db' = tb_run_streams db"
      using db' by auto
    then show ?thesis
      using ok unfolding store_ok_def stream_ok_def ev by simp
  qed
  show "stream_events db' k = stream_events db k" by (rule ev)
  show "replay (stream_events db (rc_workspace_id ctx, run_id)) = Ok (Some (cp_state c))"
    using rep c by simp
qed



section \<open>Progress\<close>



lemma pg_time_database [simp]: "pg_time (database_timestamp t) = pg_time t"
proof -
  have "(t - t mod 1000) div 1000 = t div 1000"
    by (simp add: minus_mod_eq_mult_div)
  then show ?thesis by (simp add: pg_time_def database_timestamp_def)
qed






section \<open>A concrete installation\<close>

definition sample_event :: "u64 \<Rightarrow> legacy_run_event \<Rightarrow> legacy_run_event_envelope"
  where "sample_event v p =
    \<lparr> ee_event_id = 10 + ucast v, ee_workspace_id = 3, ee_run_id = 6, ee_sequence = RunVersion v,
      ee_event_type = event_type p, ee_event_version = 1, ee_actor = Actor_Principal 4,
      ee_causation_id = 5, ee_correlation_id = 2, ee_payload = p, ee_occurred_at = 7000,
      ee_recorded_at = 7000 \<rparr>"

definition sample_store :: "legacy_run_event_envelope list \<Rightarrow> run_store"
  where "sample_store es =
    \<lparr> tb_run_streams = (\<lambda>k. if k = (3, 6) \<and> es \<noteq> [] then Some (int (length es)) else None),
      tb_run_events = map (\<lambda>e. \<lparr> ev_envelope = e, ev_created_at = 7000 \<rparr>) es,
      tb_agent_runs = (\<lambda>_. None), tb_run_checkpoints = [] \<rparr>"

definition sample_environment :: environment
  where "sample_environment =
    \<lparr> env_database = \<lparr> db_message = id, db_now = 0,
        db_fits = (\<lambda>texts. int (sum_list (map length texts)) < 2 ^ 28),
        db_workspaces = {3}, db_principals = {4}, db_results_prepared = {} \<rparr>,
      env_show_replay = (\<lambda>_. []), env_show_reduce = (\<lambda>_. []),
      env_resolve = (\<lambda>_ _. Ok ()), env_ids = (\<lambda>i. 100 + of_nat i), env_now = 7500 \<rparr>"

definition sample_context :: request_context
  where "sample_context =
    \<lparr> rc_request_id = 1, rc_correlation_id = 2, rc_workspace_id = 3, rc_principal_id = 4 \<rparr>"

definition sample_command :: "u64 \<Rightarrow> run_command \<Rightarrow> run_command_envelope"
  where "sample_command v c =
    \<lparr> ce_command_id = 5, ce_idempotency_key = None, ce_workspace_id = 3, ce_run_id = 6,
      ce_actor = Actor_Principal 4, ce_expected_version = RunVersion v, ce_correlation_id = 2,
      ce_issued_at = 7000, ce_command = c \<rparr>"

lemma sample_stream_events:
  assumes "\<And>e. e \<in> set es \<Longrightarrow> (ee_workspace_id e, ee_run_id e) = (3, 6)"
  shows "stream_events (sample_store es) k = (if k = (3, 6) then es else [])"
  using assms
  by (induction es) (auto simp: stream_events_def sample_store_def row_key_def)

lemma sample_store_ok:
  assumes "\<And>e. e \<in> set es \<Longrightarrow> (ee_workspace_id e, ee_run_id e) = (3, 6)"
    and "numbered_from 0 es" "length es < 2 ^ 63"
  shows "store_ok (sample_store es)"
proof -
  have "tb_run_streams (sample_store es) k = (if k = (3, 6) \<and> es \<noteq> [] then Some (int (length es)) else None)"
    for k by (simp add: sample_store_def)
  then show ?thesis
    using assms(2,3) sample_stream_events [OF assms(1)] by (auto simp: store_ok_def stream_ok_def)
qed

lemmas sample_defs = sample_store_def sample_environment_def sample_context_def sample_command_def
  sample_event_def

lemmas execute_defs = execute_def validate_command_context_def pg_load_stream_def load_events_def
  stream_rows_def row_key_def row_sequence_def event_from_row_def plan_command_def replay_def
  apply_event_def validate_envelope_def apply_first_def apply_existing_def decide_def
  decide_existing_def one_def event_envelope_def run_version_next_def checked_add_def
  run_version_initial_def run_version_zero_def event_version_def pg_commit_def validate_batch_def
  lock_or_create_stream_def version_from_database_def run_version_new_def validate_stream_head_def
  becomes_executable_def insert_event_def version_to_database_def advance_stream_def
  upsert_projection_def upsert_agent_run_def projection_row_def agent_runs_checks_def
  agent_run_values_stored_def agent_run_references_def commit_projection_def create_stream_def
  stored_values_defs project_run_def run_status_flags database_timestamp_def




section \<open>Properties\<close>

text \<open>
  C1: a successful \<^verbatim>\<open>execute\<close> appends exactly one event to the stream of its run and
  touches no other stream.  It was decided at the head of the stream; the new history
  replays to a well-formed state whose version is the number of the event; that state's
  projection is returned and is what \<^verbatim>\<open>agent_runs\<close> stores; and the store stays
  consistent.
\<close>

theorem execute_appends_one_event:
  assumes ok: "store_ok db" and run: "execute env db ctx command = Ok ((projection, envelopes), db')"
  defines "k \<equiv> (rc_workspace_id ctx, ce_run_id command)"
  shows "\<exists>s e owner. replay (stream_events db' k) = Ok (Some s) \<and> projection = project_run s \<and>
     envelopes = [e] \<and> stream_events db' k = stream_events db k @ [e] \<and>
     rs_version s = ee_sequence e \<and> run_state_ok s \<and>
     unat (version_value (ce_expected_version command)) = length (stream_events db k) \<and>
     (\<forall>k'. k' \<noteq> k \<longrightarrow> stream_events db' k' = stream_events db k') \<and> store_ok db' \<and>
     tb_agent_runs db' (ce_run_id command) =
       Some (projection_row owner projection (int (unat (version_value (rs_version s)))))"
proof -
  obtain es v where es: "load_events db ctx (ce_run_id command) = Ok es"
      "plan_command env es command = Ok (envelopes, projection)"
      "pg_commit (env_database env) (env_show_replay env) (env_resolve env) db ctx
        (ce_run_id command) (ce_expected_version command) envelopes projection = Ok (v, db')"
    using execute_Ok(2) [OF run] by blast
  obtain e where e: "envelopes = [e]"
    using plan_command_Ok [OF es(2)] by metis
  obtain s where s: "replay (stream_events db k @ envelopes) = Ok (Some s)"
      "projection = project_run s"
      "unat (version_value (ce_expected_version command)) = length (stream_events db k)"
      "\<And>k'. stream_events db' k' = stream_events db k' @ (if k' = k then envelopes else [])"
      "store_ok db'"
    by (rule pg_commit_Ok [OF ok es(3), folded k_def]) blast
  obtain owner where owner: "tb_agent_runs db' (ar_id projection) =
      Some (projection_row owner projection (int (unat (version_value (ar_version projection)))))"
    using pg_commit_row [OF es(3)] by blast
  have rep: "replay (stream_events db' k) = Ok (Some s)"
    using s(1,4) by simp
  obtain st where st: "replay_from None (stream_events db k) = Ok st" "apply_event st e = Ok s"
    using s(1) e by (auto simp: replay_Ok_iff replay_from_append and_then_Ok_iff)
  have "log_ok (Some s)"
    using run_log.fold_inv_count [of None "stream_events db' k" "Some s"] rep
    by (simp add: replay_Ok_iff replay_from_try_fold log_ok_def)
  then have wf: "run_state_ok s" by (simp add: log_ok_def)
  have ver: "rs_version s = ee_sequence e" and ident: "rs_id s = ee_run_id e"
    using st(2) by (cases st; auto simp: apply_event_Some_Ok_iff apply_event_None_Ok_iff
      validate_envelope_Ok_iff validate_envelope_None_Ok_iff apply_first_Ok_iff first_state_def
      dest: apply_payload_identity)+
  have "ar_id projection = ce_run_id command"
  proof -
    have "validate_batch ctx (ce_run_id command) (ce_expected_version command) envelopes projection = Ok ()"
      using es(3) by (auto simp: pg_commit_def and_then_Ok_iff)
    then show ?thesis
      by (auto simp: validate_batch_def split: if_splits)
  qed
  then have row: "tb_agent_runs db' (ce_run_id command) =
      Some (projection_row owner projection (int (unat (version_value (rs_version s)))))"
    using owner s(2) by (simp add: project_run_def)
  show ?thesis
    using rep s(2) e s(4,5) ver wf s(3) row by auto
qed

lemma sample_created_ok:
  "store_ok (sample_store [sample_event 1 (Ev_Created 4 ''Nightly report'')])"
  by (rule sample_store_ok) (simp_all add: sample_event_def metadata_fits_def event_version_def)

lemma sample_execute:
  "is_ok (execute sample_environment (sample_store [sample_event 1 (Ev_Created 4 ''Nightly report'')])
     sample_context (sample_command 1 Cmd_Prepare))"
  by (simp add: sample_defs execute_defs Let_def)

theorem execute_appends_one_event_witness:
  "\<exists>projection envelopes db' s.
     execute sample_environment (sample_store [sample_event 1 (Ev_Created 4 ''Nightly report'')])
       sample_context (sample_command 1 Cmd_Prepare) = Ok ((projection, envelopes), db') \<and>
     replay (stream_events db' (3, 6)) = Ok (Some s)"
proof -
  obtain projection envelopes db' where run:
    "execute sample_environment (sample_store [sample_event 1 (Ev_Created 4 ''Nightly report'')])
       sample_context (sample_command 1 Cmd_Prepare) = Ok ((projection, envelopes), db')"
    using sample_execute by (auto simp: is_ok_iff)
  have "rc_workspace_id sample_context = 3" "ce_run_id (sample_command 1 Cmd_Prepare) = 6"
    by (simp_all add: sample_context_def sample_command_def)
  then show ?thesis
    using execute_appends_one_event [OF sample_created_ok run] run by auto
qed





text \<open>
  C3: optimistic concurrency.  After one writer has committed a batch at an expected
  version, every other commit to the same run at that version is refused, whatever it
  read before, whatever it planned and whatever request it serves.
\<close>

theorem commit_at_most_once:
  assumes ok: "store_ok db"
    and "pg_commit dbe shw res db ctx run_id expected events p = Ok (v, db1)"
    and "rc_workspace_id ctx' = rc_workspace_id ctx"
  shows "\<not> is_ok (pg_commit dbe' shw' res' db1 ctx' run_id expected events' p')"
proof
  assume "is_ok (pg_commit dbe' shw' res' db1 ctx' run_id expected events' p')"
  then obtain v2 db2 where c2: "pg_commit dbe' shw' res' db1 ctx' run_id expected events' p' = Ok (v2, db2)"
    by (auto simp: is_ok_iff)
  obtain s1 where c1: "events \<noteq> []"
      "unat (version_value expected) = length (stream_events db (rc_workspace_id ctx, run_id))"
      "\<And>k'. stream_events db1 k' = stream_events db k' @
        (if k' = (rc_workspace_id ctx, run_id) then events else [])" "store_ok db1"
    by (rule pg_commit_Ok [OF ok assms(2)]) blast
  have "unat (version_value expected) = length (stream_events db1 (rc_workspace_id ctx, run_id))"
    by (rule pg_commit_Ok [OF c1(4) c2]) (simp add: assms(3))
  then show False
    using c1 by simp
qed

theorem commit_at_most_once_witness:
  "\<exists>events p v db1.
     pg_commit (env_database sample_environment) (\<lambda>_. []) (\<lambda>_ _. Ok ())
       (sample_store [sample_event 1 (Ev_Created 4 ''Nightly report'')]) sample_context 6
       (RunVersion 1) events p = Ok (v, db1) \<and>
     \<not> is_ok (pg_commit (env_database sample_environment) (\<lambda>_. []) (\<lambda>_ _. Ok ()) db1
       sample_context 6 (RunVersion 1) events p)"
proof -
  obtain events p db1 where
    "execute sample_environment (sample_store [sample_event 1 (Ev_Created 4 ''Nightly report'')])
       sample_context (sample_command 1 Cmd_Prepare) = Ok ((p, events), db1)"
    using sample_execute by (auto simp: is_ok_iff)
  then obtain v where "pg_commit (env_database sample_environment) (env_show_replay sample_environment)
      (env_resolve sample_environment) (sample_store [sample_event 1 (Ev_Created 4 ''Nightly report'')])
      sample_context 6 (RunVersion 1) events p = Ok (v, db1)"
    using execute_Ok(2) by (fastforce simp: sample_command_def)
  then have "pg_commit (env_database sample_environment) (\<lambda>_. []) (\<lambda>_ _. Ok ())
      (sample_store [sample_event 1 (Ev_Created 4 ''Nightly report'')])
      sample_context 6 (RunVersion 1) events p = Ok (v, db1)"
    by (simp add: sample_environment_def)
  then show ?thesis
    using commit_at_most_once [OF sample_created_ok] by blast
qed

text \<open>
  C2: recovery is sound whatever the checkpoint table holds: a state that \<^verbatim>\<open>restore\<close> hands
  out, from a checkpoint or not, is the replay of the complete stored history.
\<close>

theorem restore_sound:
  assumes "store_ok db" "restore env hash db ctx run_id = Ok s"
  shows "replay (stream_events db (rc_workspace_id ctx, run_id)) = Ok (Some s)"
  by (rule restore_sound_lemma [OF assms])

lemma sample_created_events:
  "stream_events (sample_store [sample_event 1 (Ev_Created 4 ''Nightly report'')]) (3, 6) =
     [sample_event 1 (Ev_Created 4 ''Nightly report'')]"
  by (subst sample_stream_events) (auto simp: sample_event_def)

lemma sample_created_replay:
  "replay [sample_event 1 (Ev_Created 4 ''Nightly report'')] =
     Ok (Some (first_state (sample_event 1 (Ev_Created 4 ''Nightly report'')) 4 ''Nightly report''))"
  by (simp add: sample_event_def execute_defs first_state_def Let_def)

lemma sample_restore:
  "restore sample_environment (\<lambda>_. Ok []) (sample_store [sample_event 1 (Ev_Created 4 ''Nightly report'')])
     sample_context 6 =
     Ok (first_state (sample_event 1 (Ev_Created 4 ''Nightly report'')) 4 ''Nightly report'')"
  by (simp add: sample_defs restore_def stream_head_def load_stream_head_def version_from_database_def
      run_version_new_def load_latest_checkpoint_def stored_checkpoints_def restore_full_def
      load_events_through_def version_to_database_def stream_rows_def row_key_def row_sequence_def
      event_from_row_def recovered_envelope_def recovery_replay_def verify_restored_head_def
      replay_def apply_event_def validate_envelope_def apply_first_def first_state_def
      run_version_initial_def run_version_zero_def event_version_def Let_def)

theorem restore_sound_witness:
  "restore sample_environment (\<lambda>_. Ok []) (sample_store [sample_event 1 (Ev_Created 4 ''Nightly report'')])
     sample_context 6 =
     Ok (first_state (sample_event 1 (Ev_Created 4 ''Nightly report'')) 4 ''Nightly report'') \<and>
   replay (stream_events (sample_store [sample_event 1 (Ev_Created 4 ''Nightly report'')]) (3, 6)) =
     Ok (Some (first_state (sample_event 1 (Ev_Created 4 ''Nightly report'')) 4 ''Nightly report''))"
  using restore_sound [OF sample_created_ok sample_restore] sample_restore
  by (simp add: sample_context_def)

text \<open>
  C10: with checkpoints that were created from the history, recovery returns: \<^verbatim>\<open>restore\<close>
  hands out the replay of the stored history whenever that history replays, so starting
  from a checkpoint changes nothing but the work done.
\<close>

theorem restore_complete:
  assumes ok: "store_ok db"
    and rep: "replay (stream_events db (rc_workspace_id ctx, run_id)) = Ok (Some s)"
    and cps: "\<And>c. c \<in> set (tb_run_checkpoints db) \<Longrightarrow> checkpoint_ok hash db c"
  shows "restore env hash db ctx run_id = Ok s"
proof -
  let ?k = "(rc_workspace_id ctx, run_id)"
  have head: "stream_head db ctx run_id = Ok (rs_version s)"
    by (rule stream_head_exists [OF ok rep])
  have full: "restore_full env db ctx run_id (rs_version s) = Ok s"
    using restore_full_Ok_iff [OF ok head] rep by blast
  show ?thesis
  proof (cases "latest_checkpoint (stored_checkpoints db ?k)")
    case None
    then show ?thesis
      using full by (simp add: restore_def head load_latest_checkpoint_def)
  next
    case (Some c)
    then have c: "c \<in> set (tb_run_checkpoints db)" "cp_workspace_id c = rc_workspace_id ctx" "cp_run_id c = run_id"
      using latest_checkpoint_in [OF Some] by (auto simp: stored_checkpoints_def)
    have cok: "checkpoint_ok hash db c"
      by (rule cps [OF c(1)])
    have le: "unat (version_value (cp_sequence c)) \<le> unat (version_value (rs_version s))"
      using cok stream_replay_identity(2) [OF rep] by (simp add: checkpoint_ok_def Let_def c)
    then have small: "unat (version_value (cp_sequence c)) < 2 ^ 63"
      using stream_head_Ok(2) [OF ok head] by linarith
    note loads = checkpoint_ok_loads [OF ok cok c(2,3) small]
    have "restore_from_checkpoint env hash db ctx run_id (rs_version s) c = Ok s"
      using restore_from_checkpoint_Ok_iff [OF ok head] le loads(2) [of env] rep
      by (simp add: word_le_nat_alt)
    then show ?thesis
      using Some le loads(1) by (simp add: restore_def head load_latest_checkpoint_def word_le_nat_alt)
  qed
qed

text \<open>A store with a checkpoint of its own history.\<close>

definition sample_checkpoint :: run_checkpoint
  where "sample_checkpoint =
    \<lparr> cp_workspace_id = 3, cp_run_id = 6, cp_sequence = RunVersion 1, cp_format_version = 1,
      cp_state_hash = ''digest'',
      cp_state = first_state (sample_event 1 (Ev_Created 4 ''Nightly report'')) 4 ''Nightly report'',
      cp_created_at = 8000 \<rparr>"

definition checkpointed_store :: run_store
  where "checkpointed_store =
    (sample_store [sample_event 1 (Ev_Created 4 ''Nightly report'')])
      \<lparr>tb_run_checkpoints := [sample_checkpoint]\<rparr>"

theorem restore_complete_witness:
  "restore sample_environment (\<lambda>_. Ok ''digest'') checkpointed_store sample_context 6 =
     Ok (first_state (sample_event 1 (Ev_Created 4 ''Nightly report'')) 4 ''Nightly report'')"
proof -
  have events: "stream_events checkpointed_store k =
      stream_events (sample_store [sample_event 1 (Ev_Created 4 ''Nightly report'')]) k" for k
    by (simp add: checkpointed_store_def stream_events_def)
  have "tb_run_streams checkpointed_store =
      tb_run_streams (sample_store [sample_event 1 (Ev_Created 4 ''Nightly report'')])"
    by (simp add: checkpointed_store_def)
  then have ok: "store_ok checkpointed_store"
    using sample_created_ok unfolding store_ok_def stream_ok_def events by simp
  have rep: "replay (stream_events checkpointed_store (3, 6)) =
      Ok (Some (first_state (sample_event 1 (Ev_Created 4 ''Nightly report'')) 4 ''Nightly report''))"
    by (simp add: events sample_created_events sample_created_replay)
  have "checkpoint_ok (\<lambda>_. Ok ''digest'') checkpointed_store sample_checkpoint"
    by (simp add: checkpoint_ok_def sample_checkpoint_def events sample_created_events
        sample_created_replay run_checkpoint_format_version_def)
  then have "c \<in> set (tb_run_checkpoints checkpointed_store) \<Longrightarrow>
      checkpoint_ok (\<lambda>_. Ok ''digest'') checkpointed_store c" for c
    by (simp add: checkpointed_store_def)
  then show ?thesis
    using rep by (intro restore_complete [OF ok]) (simp_all add: sample_context_def)
qed

text \<open>
  C12: delivering an effect outcome to a run that has finished makes its history
  unreadable.  The append succeeds and the outcome counts as delivered, but the reducer
  refuses every event after a terminal status, so from then on the stream does not
  replay, no command executes and recovery fails for that run.
\<close>

theorem delivery_after_terminal_breaks_run:
  assumes ok: "store_ok db"
    and app: "append_to_run dbe shw db ctx run_id outcome i c at = Ok db'"
    and rep: "replay (stream_events db (rc_workspace_id ctx, run_id)) = Ok (Some s)"
    and terminal: "run_status_is_terminal (rs_status s)"
  shows "replay (stream_events db' (rc_workspace_id ctx, run_id)) =
      Err (Replay_Reduce (Red_EventAfterTerminal (rs_status s))) \<and>
    (\<forall>env ctx' command. rc_workspace_id ctx' = rc_workspace_id ctx \<and> ce_run_id command = run_id \<longrightarrow>
      \<not> is_ok (execute env db' ctx' command)) \<and>
    (\<forall>env hash. \<not> is_ok (restore env hash db' ctx run_id))"
proof -
  have broken: "replay (stream_events db' (rc_workspace_id ctx, run_id)) =
      Err (Replay_Reduce (Red_EventAfterTerminal (rs_status s)))"
    using append_to_run_replay [OF ok app rep] terminal by simp
  have ok': "store_ok db'"
    by (rule append_to_run_Ok [OF ok app])
  have "\<not> is_ok (execute env db' ctx' command)"
    if "rc_workspace_id ctx' = rc_workspace_id ctx \<and> ce_run_id command = run_id" for env ctx' command
    using execute_needs_replay [OF ok'] broken that by simp
  moreover have "\<not> is_ok (restore env hash db' ctx run_id)" for env hash
    using restore_sound_lemma [OF ok'] broken by (fastforce simp: is_ok_iff)
  ultimately show ?thesis
    using broken by blast
qed

definition sample_outcome :: undelivered_outcome
  where "sample_outcome =
    \<lparr> uo_reconciliation_id = 20, uo_effect_id = 21, uo_receipt_id = None,
      uo_outcome = Outcome_NotApplied, uo_evidence_strength = ProviderIdempotencyLookup,
      uo_reconciled_at = 9000, uo_run_id = Some 6 \<rparr>"

definition finished_history :: "legacy_run_event_envelope list"
  where "finished_history =
    [sample_event 1 (Ev_Created 4 ''Nightly report''), sample_event 2 (Ev_Cancelled None)]"

lemma finished_history_ok: "store_ok (sample_store finished_history)"
  by (rule sample_store_ok)
    (auto simp: finished_history_def sample_event_def metadata_fits_def event_version_def)

lemma finished_stream: "stream_events (sample_store finished_history) (3, 6) = finished_history"
  by (subst sample_stream_events) (auto simp: finished_history_def sample_event_def)

lemma finished_delivery:
  "is_ok (append_to_run (env_database sample_environment) (\<lambda>_. []) (sample_store finished_history)
     sample_context 6 sample_outcome 200 201 9500)"
  by (simp add: sample_defs finished_history_def append_to_run_def load_stream_head_def
      version_from_database_def run_version_new_def pg_append_def validate_event_batch_def
      settled_envelope_def append_lock_or_create_stream_def stored_head_def row_key_def
      row_sequence_def run_version_next_def checked_add_def event_version_def insert_event_def
      version_to_database_def advance_stream_def run_version_zero_def stored_values_defs sample_outcome_def
      database_timestamp_def Let_def)

lemma finished_replay:
  "\<exists>s. replay finished_history = Ok (Some s) \<and> rs_status s = Run_Cancelled"
  by (simp add: finished_history_def sample_event_def execute_defs finish_def Let_def)

theorem delivery_after_terminal_breaks_run_witness:
  "\<exists>db'. append_to_run (env_database sample_environment) (\<lambda>_. []) (sample_store finished_history)
       sample_context 6 sample_outcome 200 201 9500 = Ok db' \<and>
     replay (stream_events db' (3, 6)) = Err (Replay_Reduce (Red_EventAfterTerminal Run_Cancelled))"
proof -
  obtain db' where app: "append_to_run (env_database sample_environment) (\<lambda>_. [])
      (sample_store finished_history) sample_context 6 sample_outcome 200 201 9500 = Ok db'"
    using finished_delivery by (auto simp: is_ok_iff)
  obtain s where s: "replay finished_history = Ok (Some s)" "rs_status s = Run_Cancelled"
    using finished_replay by blast
  have ws: "rc_workspace_id sample_context = 3" by (simp add: sample_context_def)
  show ?thesis
    using delivery_after_terminal_breaks_run [OF finished_history_ok app] s app
    by (auto simp: ws finished_stream run_status_is_terminal_def)
qed

text \<open>
  C11: a rebuilt projection is the projection of the complete history: whatever row was
  there, afterwards \<^verbatim>\<open>agent_runs\<close> holds for the run the row of the replayed state, owned by
  the principal that created the run, and no event, stream or checkpoint has changed.
\<close>

theorem rebuild_projection_from_history:
  assumes "store_ok db" "rebuild_projection env hash db ctx run_id = Ok (projection, db')"
  shows "\<exists>s. replay (stream_events db (rc_workspace_id ctx, run_id)) = Ok (Some s) \<and>
     projection = project_run s \<and>
     tb_agent_runs db' run_id = Some (projection_row (rs_principal_id s) projection
       (int (unat (version_value (rs_version s))))) \<and>
     db' = db\<lparr>tb_agent_runs := tb_agent_runs db'\<rparr> \<and>
     (\<forall>run. run \<noteq> run_id \<longrightarrow> tb_agent_runs db' run = tb_agent_runs db run)"
proof -
  obtain s head where s: "restore env hash db ctx run_id = Ok s" "projection = project_run s"
      "replace_projection (env_database env) db ctx head projection = Ok db'"
    using assms(2) by (auto simp: rebuild_projection_def and_then_Ok_iff)
  have rep: "replay (stream_events db (rc_workspace_id ctx, run_id)) = Ok (Some s)"
    by (rule restore_sound_lemma [OF assms(1) s(1)])
  then have ident: "rs_id s = run_id"
    using stream_replay_identity by blast
  have "upsert_agent_run (env_database env) True
      (App_Storage (db_message (env_database env) ''agent_runs_pkey'')) db
      (projection_row (rs_principal_id s) projection (int (unat (version_value (rs_version s))))) = Ok db'"
    using s(2,3) by (auto simp: replace_projection_def and_then_Ok_iff version_to_database_def
        commit_projection_Ok_iff project_run_def split: if_splits)
  then have "db' = db\<lparr>tb_agent_runs := (tb_agent_runs db)(run_id \<mapsto>
      projection_row (rs_principal_id s) projection (int (unat (version_value (rs_version s)))))\<rparr>"
    using ident s(2)
    by (auto simp: upsert_agent_run_def projection_row_def project_run_def Let_def
        split: if_splits option.splits)
  then show ?thesis
    using rep s(2) by auto
qed

lemma sample_rebuild:
  "is_ok (rebuild_projection sample_environment (\<lambda>_. Ok [])
     (sample_store [sample_event 1 (Ev_Created 4 ''Nightly report'')]) sample_context 6)"
  unfolding rebuild_projection_def sample_restore
  by (simp add: sample_defs execute_defs stream_head_def load_stream_head_def version_from_database_def
      run_version_new_def verify_restored_head_def replace_projection_def version_to_database_def
      first_state_def project_run_def upsert_agent_run_def projection_row_def agent_runs_checks_def
      run_version_initial_def Let_def)

theorem rebuild_projection_from_history_witness:
  "\<exists>projection db' s. rebuild_projection sample_environment (\<lambda>_. Ok [])
     (sample_store [sample_event 1 (Ev_Created 4 ''Nightly report'')]) sample_context 6 = Ok (projection, db') \<and>
     projection = project_run s \<and> tb_agent_runs db' 6 \<noteq> None"
proof -
  obtain projection db' where run: "rebuild_projection sample_environment (\<lambda>_. Ok [])
     (sample_store [sample_event 1 (Ev_Created 4 ''Nightly report'')]) sample_context 6 = Ok (projection, db')"
    using sample_rebuild by (auto simp: is_ok_iff)
  show ?thesis
    using rebuild_projection_from_history [OF sample_created_ok run] run by auto
qed

end
