(* ===== verification/Effect_Service.thy ===== *)
theory Effect_Service
  imports Effect_Store Async_Task Policy_Engine Run_Service
begin

text \<open>
  The services that perform external effects (\<^verbatim>\<open>external_effects.rs\<close>), recover those whose outcome
  nobody knows (\<^verbatim>\<open>effect_recovery.rs\<close>, \<^verbatim>\<open>recovery_reconciliation.rs\<close>) and tell runs what became of
  them (\<^verbatim>\<open>effect_outcome_delivery.rs\<close>), as tasks over one world: the effect tables, the run tables,
  the grants, and the calls that have reached an adapter.  The adapters are not part of the repository: what
  they answer is an input of the step that calls them.  Additions of a \<^verbatim>\<open>chrono::Duration\<close> to a time
  are unbounded.
\<close>

section \<open>The world and its steps\<close>

record effect_world =
  ew_effects :: effect_store
  ew_runs :: run_store
  ew_grants :: "grant_row list"
  ew_calls :: "external_effect_intent list"

record effect_input =
  in_fault :: db_fault
  in_random_uuid :: uuid
  in_now :: timestamp
  in_id :: uuid
  in_second_id :: uuid
  in_reply :: "(adapter_error, adapter_dispatch_result) result"
  in_observed :: "(application_error, observed_effect_state list) result"

type_synonym 'a step = "(effect_input, effect_world, (application_error, 'a) result) task"

text \<open>
  What a deployment composes the services from.  The engine decides on the grants in the table;
  \<^verbatim>\<open>read_backs\<close> is the registry of adapters that recovery may ask.
\<close>

record effect_service =
  sv_postgres :: postgres
  sv_environment :: environment
  sv_workspaces :: "uuid set"
  sv_show_uuid :: "uuid \<Rightarrow> string"
  sv_parse_uuid :: "string \<Rightarrow> uuid option"
  sv_engine :: "grant_row list \<Rightarrow> decider"
  sv_dispatch_owner :: uuid
  sv_read_backs :: "string \<rightharpoonup> external_effect_adapter_descriptor"

definition on_effects ::
    "effect_service \<Rightarrow> (transaction \<Rightarrow> effect_store \<Rightarrow> (application_error, 'a \<times> effect_store) result) \<Rightarrow> 'a step"
  where "on_effects sv op = atomic (\<lambda>i w.
    let tx = \<lparr> tx_postgres = sv_postgres sv, tx_random_uuid = in_random_uuid i, tx_now = in_now i \<rparr> in
    map_prod (\<lambda>es. w\<lparr>ew_effects := es\<rparr>) id (faulty (in_fault i) (op tx) (ew_effects w)))"

definition on_runs ::
    "effect_service \<Rightarrow> (effect_input \<Rightarrow> database \<Rightarrow> run_store \<Rightarrow> (application_error, 'a \<times> run_store) result) \<Rightarrow> 'a step"
  where "on_runs sv op = atomic (\<lambda>i w.
    map_prod (\<lambda>db. w\<lparr>ew_runs := db\<rparr>) id
      (faulty (in_fault i) (op i ((env_database (sv_environment sv))\<lparr>db_now := in_now i\<rparr>)) (ew_runs w)))"

section \<open>Performing an effect\<close>

fun adapter_contract_error_debug :: "adapter_contract_error \<Rightarrow> string"
  where
    "adapter_contract_error_debug EffectivelyOnceRequiresProviderIdempotency = ''EffectivelyOnceRequiresProviderIdempotency''"
  | "adapter_contract_error_debug ReconciliationNotDeclared = ''ReconciliationNotDeclared''"

fun adapter_error_debug :: "adapter_error \<Rightarrow> string"
  where
    "adapter_error_debug Adapter_Timeout = ''Timeout''"
  | "adapter_error_debug (Adapter_Unavailable m) = ''Unavailable('' @ str_debug m @ '')''"
  | "adapter_error_debug (Adapter_Rejected m) = ''Rejected('' @ str_debug m @ '')''"

fun map_dispatch_error :: "dispatch_error \<Rightarrow> application_error"
  where
    "map_dispatch_error StaleIntent = App_Conflict ''STALE_INTENT''"
  | "map_dispatch_error AdapterDoesNotMatchIntent =
       App_Policy ''external adapter contract rejected: AdapterDoesNotMatchIntent''"
  | "map_dispatch_error (AdapterContractViolation e) =
       App_Policy (''external adapter contract rejected: AdapterContractViolation(''
         @ adapter_contract_error_debug e @ '')'')"
  | "map_dispatch_error (AdapterFailure e) = App_Unavailable (''external adapter failed: '' @ adapter_error_debug e)"

definition default_dispatch_allowance :: int
  where "default_dispatch_allowance = 5 * 60 * 1000000000"

definition dispatch_receipt_commit_margin :: int
  where "dispatch_receipt_commit_margin = 5 * 1000000000"

text \<open>\<^verbatim>\<open>AuthorizationBoundary::evaluate\<close>: one question to the engine.\<close>

definition boundary_evaluate :: "effect_service \<Rightarrow> request_context \<Rightarrow> authorization_request \<Rightarrow> policy_decision step"
  where "boundary_evaluate sv ctx request = atomic (\<lambda>i w.
    (w, case in_fault i of
          Db_Works \<Rightarrow> sv_engine sv (ew_grants w) (in_id i) (in_now i) ctx request
        | Db_Fails m \<Rightarrow> Err (App_Storage m)
        | Db_Reply_Lost m \<Rightarrow> Err (App_Storage m)))"

definition service_authorize ::
    "effect_service \<Rightarrow> request_context \<Rightarrow> external_effect_intent \<Rightarrow> authorization_request \<Rightarrow> authorized_external_effect step"
  where "service_authorize sv ctx intent request =
    try_await (boundary_evaluate sv ctx request) (\<lambda>decision.
    case (if is_allowed decision
          then and_then (map_err App_Domain (intent_authorize intent (from_policy_decision (sv_show_uuid sv) decision)))
                 (\<lambda>authorized. Ok (Some authorized))
          else Ok None) of
      Inl e \<Rightarrow> Done (Err e)
    | Inr authorized \<Rightarrow>
        try_await (on_effects sv (\<lambda>tx es. written (record_authorization_on tx es ctx (ei_id intent) decision))) (\<lambda>_.
        Done (ok_or (App_Policy (''authorization denied: '' @ policy_decision_reason_debug (pd_reason decision)))
                authorized)))"

definition adapter_call ::
    "authorized_external_effect \<Rightarrow> external_effect_adapter_descriptor \<Rightarrow> string \<Rightarrow> timestamp \<Rightarrow> external_effect_receipt step"
  where "adapter_call authorized descriptor digest recorded_at = atomic (\<lambda>i w.
    (if is_ok (validate_dispatch authorized descriptor digest)
     then w\<lparr>ew_calls := ew_calls w @ [ae_intent authorized]\<rparr> else w,
     map_err map_dispatch_error
       (effect_dispatch authorized descriptor (\<lambda>_. in_reply i) digest (in_id i) recorded_at)))"

definition service_dispatch ::
    "effect_service \<Rightarrow> request_context \<Rightarrow> authorized_external_effect \<Rightarrow> external_effect_adapter_descriptor \<Rightarrow> string
     \<Rightarrow> timestamp \<Rightarrow> external_effect_receipt step"
  where "service_dispatch sv ctx authorized descriptor digest recorded_at =
    (case map_err map_dispatch_error (validate_dispatch authorized descriptor digest) of
       Inl e \<Rightarrow> Done (Err e)
     | Inr _ \<Rightarrow>
         (let dispatch_timeout = (case ad_dispatch_timeout descriptor of
                Some timeout \<Rightarrow> timeout | None \<Rightarrow> default_dispatch_allowance);
              dispatch_expires_at = recorded_at + dispatch_timeout + dispatch_receipt_commit_margin
          in try_await (on_effects sv (\<lambda>tx es. record_dispatch_started_on tx es ctx (ei_id (ae_intent authorized))
                (sv_dispatch_owner sv) dispatch_expires_at recorded_at)) (\<lambda>_.
             adapter_call authorized descriptor digest recorded_at)))"

definition perform ::
    "effect_service \<Rightarrow> request_context \<Rightarrow> external_effect_intent \<Rightarrow> external_effect_adapter_descriptor \<Rightarrow> timestamp
     \<Rightarrow> external_effect_receipt step"
  where "perform sv ctx intent descriptor at =
    try_await (on_effects sv (\<lambda>tx es. written (insert_intent_on tx (sv_show_uuid sv) es ctx intent))) (\<lambda>_.
    try_await (service_authorize sv ctx intent
        (authorization_request_new (ei_required_capability intent) (ei_operation intent) (ei_target intent) (ei_risk intent)))
      (\<lambda>authorized.
    try_await (service_dispatch sv ctx authorized descriptor (ei_precondition_digest (ae_intent authorized)) at) (\<lambda>receipt.
    try_await (on_effects sv (\<lambda>tx es. written (insert_receipt_on tx (sv_show_uuid sv) es ctx receipt None))) (\<lambda>_.
    Done (Ok receipt)))))"

section \<open>Recovery\<close>

datatype external_effect_recovery_error =
    MissingReadBackRoute string
  | ReadBackUnsupported string
  | Recovery_ReadBack application_error
  | Recovery_Reconciliation application_error
  | Recovery_Application application_error

fun recovery_error_display :: "external_effect_recovery_error \<Rightarrow> string"
  where
    "recovery_error_display (MissingReadBackRoute adapter) =
       ''no external effect read-back route is registered for adapter `'' @ adapter @ ''`''"
  | "recovery_error_display (ReadBackUnsupported adapter) =
       ''external effect read-back route for adapter `'' @ adapter @ ''` does not support read-back''"
  | "recovery_error_display (Recovery_ReadBack e) = application_error_display e"
  | "recovery_error_display (Recovery_Reconciliation e) = application_error_display e"
  | "recovery_error_display (Recovery_Application e) = application_error_display e"

type_synonym read_back_registry = "string \<rightharpoonup> external_effect_adapter_descriptor"

definition registry_register ::
    "read_back_registry \<Rightarrow> string \<times> external_effect_adapter_descriptor \<Rightarrow> (application_error, read_back_registry) result"
  where "registry_register registry route =
    (case route of (name, descriptor) \<Rightarrow>
     if registry name \<noteq> None
     then Err (App_InvalidConfiguration (''external effect read-back adapter name `'' @ name
            @ ''` is registered more than once''))
     else if ad_name descriptor \<noteq> name
     then Err (App_InvalidConfiguration (''external effect read-back route name `'' @ name
            @ ''` does not match descriptor `'' @ ad_name descriptor @ ''`''))
     else Ok (registry(name \<mapsto> descriptor)))"

definition registry_new ::
    "(string \<times> external_effect_adapter_descriptor) list \<Rightarrow> (application_error, read_back_registry) result"
  where "registry_new routes = try_fold registry_register Map.empty routes"

definition is_actionable :: "read_back_registry \<Rightarrow> string \<Rightarrow> bool"
  where "is_actionable registry adapter =
    (case registry adapter of None \<Rightarrow> False | Some descriptor \<Rightarrow> ad_supports_read_back descriptor)"

definition registry_resolve :: "read_back_registry \<Rightarrow> string \<Rightarrow> (external_effect_recovery_error, unit) result"
  where "registry_resolve registry adapter =
    (case registry adapter of
       None \<Rightarrow> Err (MissingReadBackRoute adapter)
     | Some descriptor \<Rightarrow>
         if ad_supports_read_back descriptor then Ok () else Err (ReadBackUnsupported adapter))"

definition service_reconcile ::
    "uuid \<Rightarrow> request_context \<Rightarrow> external_effect_intent \<Rightarrow> external_effect_receipt option \<Rightarrow> observed_effect_state list
     \<Rightarrow> timestamp \<Rightarrow> (application_error, external_reconciliation) result"
  where "service_reconcile fresh_id ctx intent receipt observations reconciled_at =
    (if ei_workspace_id intent \<noteq> rc_workspace_id ctx
     then Err (App_Domain (PolicyViolation ''external effect recovery workspace mismatch''))
     else if (case receipt of Some r \<Rightarrow> \<not> requires_reconciliation r | None \<Rightarrow> False)
     then Err (App_Domain (PolicyViolation
            ''external effect reconciliation requires an acknowledged or unknown receipt''))
     else map_err App_Domain (reconcile_effect fresh_id intent receipt observations reconciled_at))"

type_synonym recovery_step =
  "(effect_input, effect_world, (external_effect_recovery_error, external_reconciliation option) result) task"

definition ask_adapter ::
    "effect_service \<Rightarrow> request_context \<Rightarrow> external_effect_recovery_candidate \<Rightarrow> timestamp \<Rightarrow> recovery_step"
  where "ask_adapter sv ctx candidate reconciled_at =
    (case registry_resolve (sv_read_backs sv) (ei_adapter (rv_intent candidate)) of
       Inl e \<Rightarrow> Done (Err e)
     | Inr _ \<Rightarrow>
         task_bind (atomic (\<lambda>i w. (w, (in_observed i, in_id i)))) (\<lambda>(observed, fresh_id).
         case observed of
           Inl e \<Rightarrow> Done (Err (Recovery_ReadBack e))
         | Inr observations \<Rightarrow>
             (case service_reconcile fresh_id ctx (rv_intent candidate) (rv_receipt candidate) observations reconciled_at of
                Inl e \<Rightarrow> Done (Err (if observations \<noteq> [] then Recovery_Reconciliation e else Recovery_ReadBack e))
              | Inr reconciliation \<Rightarrow>
                  task_bind (on_effects sv (\<lambda>tx es.
                      written (insert_reconciliation tx (sv_show_uuid sv) es ctx reconciliation))) (\<lambda>inserted.
                  case inserted of
                    Inl e \<Rightarrow> Done (Err (Recovery_Application e))
                  | Inr _ \<Rightarrow> Done (Ok (Some reconciliation))))))"

definition reconcile_candidate ::
    "effect_service \<Rightarrow> request_context \<Rightarrow> external_effect_recovery_candidate \<Rightarrow> timestamp \<Rightarrow> recovery_step"
  where "reconcile_candidate sv ctx candidate reconciled_at =
    (case rv_lost_dispatch candidate of
       Some (NeedsAdoption transition_id) \<Rightarrow>
         task_bind (on_effects sv (\<lambda>tx es.
             adopt_lost_dispatch_on tx es ctx (ei_id (rv_intent candidate)) transition_id reconciled_at)) (\<lambda>adoption.
         case adoption of
           Inl e \<Rightarrow> Done (Err (Recovery_Application e))
         | Inr Adoption_AlreadyAdopted \<Rightarrow> Done (Ok None)
         | Inr Adoption_Adopted \<Rightarrow> ask_adapter sv ctx candidate reconciled_at)
     | _ \<Rightarrow> ask_adapter sv ctx candidate reconciled_at)"

record recovery_report =
  rr_reconciliations :: "external_reconciliation list"
  rr_runs :: "uuid option list"
  rr_unreachable :: "(uuid \<times> string) list"
  rr_saturated :: bool

fun recovery_loop ::
    "effect_service \<Rightarrow> request_context \<Rightarrow> timestamp \<Rightarrow> recovery_report \<Rightarrow> external_effect_recovery_candidate list
     \<Rightarrow> recovery_report step"
  where
    "recovery_loop sv ctx at report [] = Done (Ok report)"
  | "recovery_loop sv ctx at report (candidate # rest) =
       task_bind (reconcile_candidate sv ctx candidate at) (\<lambda>outcome.
       case outcome of
         Inr (Some reconciliation) \<Rightarrow>
           recovery_loop sv ctx at
             (report\<lparr>rr_reconciliations := rr_reconciliations report @ [reconciliation],
                     rr_runs := rr_runs report @ [execution_run_id (sv_parse_uuid sv) (rv_intent candidate)]\<rparr>) rest
       | Inr None \<Rightarrow> recovery_loop sv ctx at report rest
       | Inl (Recovery_Application e) \<Rightarrow> Done (Err e)
       | Inl (Recovery_Reconciliation e) \<Rightarrow>
           recovery_loop sv ctx at
             (report\<lparr>rr_unreachable := rr_unreachable report @
                [(ei_id (rv_intent candidate), application_error_display e)]\<rparr>) rest
       | Inl e \<Rightarrow>
           try_await (on_effects sv (\<lambda>tx es. written (record_failed_recovery_attempt tx es ctx
               (ei_id (rv_intent candidate)) at (recovery_error_display e)))) (\<lambda>_.
           recovery_loop sv ctx at
             (report\<lparr>rr_unreachable := rr_unreachable report @
                [(ei_id (rv_intent candidate), recovery_error_display e)]\<rparr>) rest))"

definition discover_raw ::
    "effect_service \<Rightarrow> request_context \<Rightarrow> timestamp \<Rightarrow> timestamp \<Rightarrow> timestamp \<Rightarrow> nat
     \<Rightarrow> external_effect_recovery_candidate list step"
  where "discover_raw sv ctx retry_unsettled_before retry_failed_before dispatch_expired_before limit =
    on_effects sv (\<lambda>tx es. read_only (find_reconciliation_candidates tx es ctx retry_unsettled_before
      retry_failed_before dispatch_expired_before limit) es)"

definition discover ::
    "effect_service \<Rightarrow> request_context \<Rightarrow> timestamp \<Rightarrow> timestamp \<Rightarrow> timestamp \<Rightarrow> nat
     \<Rightarrow> external_effect_recovery_candidate list step"
  where "discover sv ctx retry_unsettled_before retry_failed_before dispatch_expired_before limit =
    try_await (discover_raw sv ctx retry_unsettled_before retry_failed_before dispatch_expired_before limit) (\<lambda>candidates.
    Done (Ok (filter (\<lambda>c. is_actionable (sv_read_backs sv) (ei_adapter (rv_intent c))) candidates)))"

definition recovery_run ::
    "effect_service \<Rightarrow> request_context \<Rightarrow> timestamp \<Rightarrow> timestamp \<Rightarrow> timestamp \<Rightarrow> timestamp \<Rightarrow> nat \<Rightarrow> recovery_report step"
  where "recovery_run sv ctx reconciled_at retry_unsettled_before retry_failed_before dispatch_expired_before limit =
    try_await (discover_raw sv ctx retry_unsettled_before retry_failed_before dispatch_expired_before limit) (\<lambda>candidates.
    recovery_loop sv ctx reconciled_at
      \<lparr> rr_reconciliations = [], rr_runs = [], rr_unreachable = [], rr_saturated = (length candidates = limit) \<rparr> candidates)"

definition reconciliation_retry_after :: int
  where "reconciliation_retry_after = 60 * 1000000000"

definition failed_recovery_attempt_retry_after :: int
  where "failed_recovery_attempt_retry_after = 60 * 1000000000"

definition reconciliation_batch :: nat
  where "reconciliation_batch = 8"

definition sweep :: "effect_service \<Rightarrow> request_context \<Rightarrow> timestamp \<Rightarrow> recovery_report step"
  where "sweep sv ctx at =
    recovery_run sv ctx at (at - reconciliation_retry_after) (at - failed_recovery_attempt_retry_after) at
      reconciliation_batch"

section \<open>Delivery of outcomes\<close>

definition owed_outcome :: "effect_service \<Rightarrow> undelivered_row \<Rightarrow> undelivered_outcome"
  where "owed_outcome sv owed =
    (let x = uw_reconciliation owed in
     \<lparr> uo_reconciliation_id = xr_id x, uo_effect_id = xr_effect_id x, uo_receipt_id = xr_receipt_id x,
       uo_outcome = xr_outcome x, uo_evidence_strength = xr_evidence_strength x,
       uo_reconciled_at = xr_reconciled_at x,
       uo_run_id = execution_run_id (sv_parse_uuid sv) (uw_intent owed) \<rparr>)"

definition append_outcome ::
    "effect_service \<Rightarrow> request_context \<Rightarrow> uuid \<Rightarrow> undelivered_outcome \<Rightarrow> timestamp \<Rightarrow> unit step"
  where "append_outcome sv ctx run_id outcome at =
    try_await (on_runs sv (\<lambda>i dbe db. read_only (load_stream_head db ctx run_id) db)) (\<lambda>found.
    case and_then (ok_or (App_Domain (NotFound (''run '' @ sv_show_uuid sv run_id
                     @ '' has no event stream to record an effect outcome in''))) found) (\<lambda>head.
         and_then (map_err App_Domain (run_version_new (version_value head + 1))) (\<lambda>sequence.
         Ok (head, sequence))) of
      Inl e \<Rightarrow> Done (Err e)
    | Inr (head, sequence) \<Rightarrow>
        on_runs sv (\<lambda>i dbe db. and_then (pg_append dbe db ctx run_id head
            [settled_envelope ctx run_id outcome (in_id i) (in_second_id i) sequence at]) (\<lambda>(_, db'). Ok ((), db'))))"

definition delivery_batch :: nat
  where "delivery_batch = 32"

fun delivery_loop ::
    "effect_service \<Rightarrow> request_context \<Rightarrow> timestamp \<Rightarrow> outcome_delivery_report \<Rightarrow> undelivered_row list
     \<Rightarrow> outcome_delivery_report step"
  where
    "delivery_loop sv ctx at report [] = Done (Ok report)"
  | "delivery_loop sv ctx at report (owed # rest) =
       (let outcome = owed_outcome sv owed;
            mark = on_effects sv (\<lambda>tx es. written (mark_outcome_delivered tx es ctx (uo_reconciliation_id outcome) at))
        in case uo_run_id outcome of
             None \<Rightarrow>
               try_await mark (\<lambda>_.
               delivery_loop sv ctx at (report\<lparr>od_unattributable := od_unattributable report + 1\<rparr>) rest)
           | Some run_id \<Rightarrow>
               task_bind (append_outcome sv ctx run_id outcome at) (\<lambda>appended.
               case appended of
                 Inr _ \<Rightarrow>
                   try_await mark (\<lambda>_.
                   delivery_loop sv ctx at (report\<lparr>od_delivered := od_delivered report + 1\<rparr>) rest)
               | Inl _ \<Rightarrow> delivery_loop sv ctx at (report\<lparr>od_deferred := od_deferred report + 1\<rparr>) rest))"

definition deliver_once :: "effect_service \<Rightarrow> request_context \<Rightarrow> timestamp \<Rightarrow> outcome_delivery_report step"
  where "deliver_once sv ctx at =
    try_await (on_effects sv (\<lambda>tx es. Ok (find_undelivered_outcomes es ctx delivery_batch, es))) (\<lambda>owed.
    delivery_loop sv ctx at \<lparr> od_delivered = 0, od_unattributable = 0, od_deferred = 0 \<rparr> owed)"

section \<open>Everything at once\<close>

text \<open>\<^verbatim>\<open>RunCommandService::execute\<close> with its two database calls as steps of their own.\<close>

definition execute_task ::
    "effect_service \<Rightarrow> request_context \<Rightarrow> run_command_envelope \<Rightarrow> (agent_run \<times> legacy_run_event_envelope list) step"
  where "execute_task sv ctx command =
    (case validate_command_context ctx command of
       Inl e \<Rightarrow> Done (Err e)
     | Inr _ \<Rightarrow>
         try_await (on_runs sv (\<lambda>i dbe db. read_only (pg_load_stream db ctx (ce_run_id command)) db)) (\<lambda>stored_events.
         case plan_command (sv_environment sv) stored_events command of
           Inl e \<Rightarrow> Done (Err e)
         | Inr (envelopes, projection) \<Rightarrow>
             try_await (on_runs sv (\<lambda>i dbe db. pg_commit dbe (env_show_replay (sv_environment sv))
                 (env_resolve (sv_environment sv)) db ctx (ce_run_id command) (ce_expected_version command)
                 envelopes projection)) (\<lambda>committed_version.
             Done (if committed_version \<noteq> ar_version projection
                   then Err (App_Internal (''committer returned run version ''
                          @ show_u64 (version_value committed_version) @ '', expected ''
                          @ show_u64 (version_value (ar_version projection))))
                   else Ok (projection, envelopes)))))"

text \<open>
  The requests and background passes that run side by side.  Each is one task; the result is
  discarded, since what matters here is what they leave in the world.
\<close>

datatype effect_job =
    Job_Perform request_context external_effect_intent external_effect_adapter_descriptor timestamp
  | Job_Sweep request_context timestamp
  | Job_Deliver request_context timestamp
  | Job_Command request_context run_command_envelope
  | Job_Presence request_context uuid timestamp timestamp
  | Job_Stop request_context uuid timestamp
  | Job_Grant grant_call

definition grant_step :: "effect_service \<Rightarrow> grant_call \<Rightarrow> unit step"
  where "grant_step sv call = atomic (\<lambda>i w.
    map_prod (\<lambda>rows. w\<lparr>ew_grants := rows\<rparr>) id
      (faulty (in_fault i) (\<lambda>rows. written (grant_perform (sv_postgres sv) (sv_workspaces sv) rows call)) (ew_grants w)))"

abbreviation forget :: "('i, 'w, 'a) task \<Rightarrow> ('i, 'w, unit) task"
  where "forget t \<equiv> task_bind t (\<lambda>_. Done ())"

fun job_task :: "effect_service \<Rightarrow> effect_job \<Rightarrow> (effect_input, effect_world, unit) task"
  where
    "job_task sv (Job_Perform ctx intent descriptor at) = forget (perform sv ctx intent descriptor at)"
  | "job_task sv (Job_Sweep ctx at) = forget (sweep sv ctx at)"
  | "job_task sv (Job_Deliver ctx at) = forget (deliver_once sv ctx at)"
  | "job_task sv (Job_Command ctx command) = forget (execute_task sv ctx command)"
  | "job_task sv (Job_Presence ctx worker started reported) =
       forget (on_effects sv (\<lambda>tx es. written (record_worker_presence tx es ctx worker started reported)))"
  | "job_task sv (Job_Stop ctx worker stopped) =
       forget (on_effects sv (\<lambda>tx es. written (clear_worker_presence tx es ctx worker stopped)))"
  | "job_task sv (Job_Grant call) = forget (grant_step sv call)"

text \<open>A performing job works on its effect alone; the others share what they do.\<close>

fun job_label :: "effect_job \<Rightarrow> uuid option"
  where
    "job_label (Job_Perform ctx intent descriptor at) = Some (ei_id intent)"
  | "job_label _ = None"

section \<open>Every request ends\<close>

text \<open>The number of steps that each job takes at most.\<close>

fun job_steps :: "effect_job \<Rightarrow> nat"
  where
    "job_steps (Job_Perform ctx intent descriptor at) = 6"
  | "job_steps (Job_Sweep ctx at) = 1 + 4 * reconciliation_batch"
  | "job_steps (Job_Deliver ctx at) = 1 + 3 * delivery_batch"
  | "job_steps (Job_Command ctx command) = 2"
  | "job_steps _ = 1"

abbreviation ends :: "nat \<Rightarrow> ('i, 'w, 'a) task \<Rightarrow> bool"
  where "ends n t \<equiv> task_ends (\<lambda>_. True) n t"

lemma ends_bind: "ends n t \<Longrightarrow> (\<And>x. ends m (k x)) \<Longrightarrow> ends (n + m) (task_bind t k)"
  by (rule task_ends_bind) auto

lemma ends_try_await: "ends n t \<Longrightarrow> (\<And>x. ends m (k x)) \<Longrightarrow> ends (n + m) (try_await t k)"
  by (rule task_ends_try_await) auto

lemma ends_forget: "ends n t \<Longrightarrow> ends n (forget t)"
  using ends_bind [of n t 0 "\<lambda>_. Done ()"] by simp

text \<open>One step, and one step followed by the rest.\<close>

lemma ends_step:
  "ends (Suc n) (atomic f)" "ends (Suc n) (on_effects sv op)" "ends (Suc n) (on_runs sv op')"
  by (simp_all add: atomic_def on_effects_def on_runs_def)

lemma ends_bind_step:
  "(\<And>x. ends n (k x)) \<Longrightarrow> ends (Suc n) (task_bind (atomic f) k)"
  "(\<And>x. ends n (l x)) \<Longrightarrow> ends (Suc n) (task_bind (on_effects sv op) l)"
  by (simp_all add: atomic_def on_effects_def)

lemma ends_try_await_step:
  "(\<And>x. ends n (k x)) \<Longrightarrow> ends (Suc n) (try_await (atomic f) k)"
  "(\<And>x. ends n (l x)) \<Longrightarrow> ends (Suc n) (try_await (on_effects sv op) l)"
  "(\<And>x. ends n (m x)) \<Longrightarrow> ends (Suc n) (try_await (on_runs sv op') m)"
  by (auto simp: atomic_def on_effects_def on_runs_def try_await_def split: sum.split)

lemmas ends_intros = ends_step ends_bind_step ends_try_await_step

lemma ends_authorize: "ends (Suc (Suc 0)) (service_authorize sv ctx intent request)"
  unfolding service_authorize_def boundary_evaluate_def
  by (intro ends_intros) (auto split: sum.split intro!: ends_intros)

lemma ends_dispatch: "ends (Suc (Suc 0)) (service_dispatch sv ctx authorized descriptor digest at)"
  unfolding service_dispatch_def adapter_call_def by (auto simp: Let_def split: sum.split intro!: ends_intros)

lemma ends_perform: "ends 6 (perform sv ctx intent descriptor at)"
proof -
  have "ends (Suc (Suc (Suc 0) + (Suc (Suc 0) + Suc 0))) (perform sv ctx intent descriptor at)"
    unfolding perform_def
    by (intro ends_intros ends_try_await [OF ends_authorize] ends_try_await [OF ends_dispatch]) simp
  then show ?thesis
    by (simp add: numeral_eq_Suc)
qed

lemma ends_ask: "ends (Suc (Suc 0)) (ask_adapter sv ctx candidate at)"
  unfolding ask_adapter_def
  by (auto split: sum.split prod.split intro!: ends_bind_step)

lemma ends_reconcile_candidate: "ends (Suc (Suc (Suc 0))) (reconcile_candidate sv ctx candidate at)"
  unfolding reconcile_candidate_def
  by (auto split: option.split lost_dispatch_recovery.split sum.split lost_dispatch_adoption.split
        intro!: ends_bind_step ends_ask task_ends_mono [OF ends_ask])


lemma ends_recovery_loop: "ends (4 * length candidates) (recovery_loop sv ctx at report candidates)"
proof (induction candidates arbitrary: report)
  case (Cons candidate candidates)
  have next_one: "ends (Suc (4 * length candidates)) (recovery_loop sv ctx at report' candidates)" for report'
    using task_ends_mono [OF Cons.IH] by simp
  have "ends (Suc (Suc (Suc 0)) + Suc (4 * length candidates)) (recovery_loop sv ctx at report (candidate # candidates))"
    unfolding recovery_loop.simps
    by (rule ends_bind [OF ends_reconcile_candidate])
       (auto split: sum.split option.split external_effect_recovery_error.split intro!: next_one ends_try_await_step Cons.IH)
  moreover have "Suc (Suc (Suc 0)) + Suc (4 * length candidates) = 4 * length (candidate # candidates)"
    by simp
  ultimately show ?case
    by (simp only:)
qed simp

lemma found_within_limit:
  assumes "find_reconciliation_candidates tx es ctx u f d limit = Ok candidates"
  shows "length candidates \<le> limit"
proof -
  have "length candidates = length (candidate_rows es (query_cutoffs tx u f d) (rc_workspace_id ctx) limit)"
    using assms by (simp add: find_reconciliation_candidates_def collect_results_Ok_iff)
      (metis length_map)
  then show ?thesis
    by (simp add: candidate_rows_def)
qed

lemma ends_recovery_run: "ends (1 + 4 * limit) (recovery_run sv ctx at u f d limit)"
  unfolding recovery_run_def
proof (rule task_ends_try_await)
  show "task_ends (\<lambda>r. \<forall>candidates. r = Ok candidates \<longrightarrow> length candidates \<le> limit) 1 (discover_raw sv ctx u f d limit)"
    unfolding discover_raw_def on_effects_def
    by (rule task_ends_atomic)
       (auto simp: faulty_def Let_def and_then_Ok_iff split: db_fault.splits sum.splits dest: found_within_limit)
  show "ends (4 * limit) (recovery_loop sv ctx at
      \<lparr> rr_reconciliations = [], rr_runs = [], rr_unreachable = [], rr_saturated = (length candidates = limit) \<rparr> candidates)"
    if "\<forall>cs. Ok candidates = Ok cs \<longrightarrow> length cs \<le> limit" for candidates
    using that by (intro task_ends_mono [OF ends_recovery_loop]) simp
qed simp

lemma ends_append_outcome: "ends (Suc (Suc 0)) (append_outcome sv ctx run_id outcome at)"
  unfolding append_outcome_def
  by (intro ends_try_await_step) (auto split: sum.split prod.split intro!: ends_step)

lemma ends_delivery_loop: "ends (3 * length owed) (delivery_loop sv ctx at report owed)"
proof (induction owed arbitrary: report)
  case (Cons o1 owed)
  have next_one: "ends (Suc (3 * length owed)) (delivery_loop sv ctx at report' owed)" for report'
    using task_ends_mono [OF Cons.IH] by simp
  have "ends (Suc (Suc 0) + Suc (3 * length owed)) (delivery_loop sv ctx at report (o1 # owed))"
  proof (cases "uo_run_id (owed_outcome sv o1)")
    case None
    show ?thesis
      unfolding delivery_loop.simps Let_def None option.case add_Suc
      by (intro ends_try_await_step task_ends_mono [OF Cons.IH]) simp
  next
    case (Some run_id)
    show ?thesis
      unfolding delivery_loop.simps Let_def Some option.case
      by (rule ends_bind [OF ends_append_outcome]) (auto split: sum.split intro!: next_one ends_try_await_step Cons.IH)
  qed
  moreover have "Suc (Suc 0) + Suc (3 * length owed) = 3 * length (o1 # owed)"
    by simp
  ultimately show ?case
    by (simp only:)
qed simp

lemma ends_deliver_once: "ends (1 + 3 * delivery_batch) (deliver_once sv ctx at)"
  unfolding deliver_once_def
proof (rule task_ends_try_await)
  show "task_ends (\<lambda>r. \<forall>owed. r = Ok owed \<longrightarrow> length owed \<le> delivery_batch) 1
      (on_effects sv (\<lambda>tx es. Ok (find_undelivered_outcomes es ctx delivery_batch, es)))"
    unfolding on_effects_def
    by (rule task_ends_atomic)
       (auto simp: faulty_def Let_def find_undelivered_outcomes_def split: db_fault.splits)
  show "ends (3 * delivery_batch) (delivery_loop sv ctx at
      \<lparr> od_delivered = 0, od_unattributable = 0, od_deferred = 0 \<rparr> owed)"
    if "\<forall>os. Ok owed = Ok os \<longrightarrow> length os \<le> delivery_batch" for owed
    using that by (intro task_ends_mono [OF ends_delivery_loop]) simp
qed simp

lemma ends_execute_task: "ends (Suc (Suc 0)) (execute_task sv ctx command)"
  unfolding execute_task_def by (auto split: sum.split prod.split intro!: ends_try_await_step)

lemma ends_job: "ends (job_steps job) (job_task sv job)"
proof (cases job)
  case (Job_Sweep ctx at)
  then show ?thesis
    using ends_forget [OF ends_recovery_run, of reconciliation_batch] by (simp add: sweep_def)
next
  case (Job_Deliver ctx at)
  then show ?thesis
    using ends_forget [OF ends_deliver_once] by simp
next
  case (Job_Command ctx command)
  then show ?thesis
    using ends_forget [OF ends_execute_task] by (simp add: numeral_2_eq_2)
qed (auto simp: grant_step_def intro!: ends_forget ends_perform ends_step)

text \<open>
  C8: whatever the order in which requests and background passes take their steps, and whatever
  the database and the adapters answer, each of them is finished once it has been resumed as often as its bound
  says: six times for an effect, 33 for a sweep, 97 for a delivery pass.
\<close>

theorem effect_jobs_end:
  assumes "run_schedule schedule (w, map (job_task sv) jobs) = (w', ts)" "n < length jobs"
    and "job_steps (jobs ! n) \<le> length (filter (\<lambda>(m, i). m = n) schedule)"
  shows "ts ! n = Done ()"
  using schedule_ends [OF _ _ assms(1,3)] ends_job assms(2) by force

section \<open>What every step keeps\<close>

text \<open>
  An adapter call is on record when the tables hold its intent, an authorization that allows exactly what
  it does, and the dispatch of its owner with a deadline.
\<close>

definition allows :: "policy_decision \<Rightarrow> external_effect_intent \<Rightarrow> bool"
  where "allows d intent \<longleftrightarrow> is_allowed d \<and> pd_workspace_id d = ei_workspace_id intent \<and>
    pd_subject_id d = ei_actor_id intent \<and> pd_capability d = ei_required_capability intent \<and>
    pd_operation d = ei_operation intent \<and> pd_resource_scope d = ei_target intent"

definition intent_on_record :: "effect_store \<Rightarrow> external_effect_intent \<Rightarrow> bool"
  where "intent_on_record es intent \<longleftrightarrow> (\<exists>i\<in>set (es_intents es). ir_payload i = intent)"

definition allowed_on_record :: "effect_store \<Rightarrow> external_effect_intent \<Rightarrow> bool"
  where "allowed_on_record es intent \<longleftrightarrow>
    (\<exists>a\<in>set (es_authorizations es). az_effect_id a = ei_id intent \<and> allows (az_payload a) intent)"

definition dispatch_on_record :: "effect_service \<Rightarrow> effect_store \<Rightarrow> external_effect_intent \<Rightarrow> bool"
  where "dispatch_on_record sv es intent \<longleftrightarrow>
    (\<exists>t\<in>set (es_transitions es). tr_effect_id t = ei_id intent \<and> tr_workspace_id t = ei_workspace_id intent \<and>
       tr_status t = Effect_Dispatching \<and> tr_dispatch_owner t = Some (sv_dispatch_owner sv) \<and>
       tr_dispatch_expires_at t \<noteq> None)"

definition on_record :: "effect_service \<Rightarrow> effect_store \<Rightarrow> external_effect_intent \<Rightarrow> bool"
  where "on_record sv es intent \<longleftrightarrow>
    intent_on_record es intent \<and> allowed_on_record es intent \<and> dispatch_on_record sv es intent"

text \<open>An outcome that is marked as delivered is in the history of the run that asked for the effect.\<close>

definition settled_event :: "reconciliation_row \<Rightarrow> legacy_run_event"
  where "settled_event x =
    Ev_ExternalEffectSettled (xw_effect_id x) (xw_receipt_id x) (xw_outcome x) (xw_evidence_strength x)"

definition told :: "effect_service \<Rightarrow> effect_world \<Rightarrow> reconciliation_row \<Rightarrow> bool"
  where "told sv w x \<longleftrightarrow>
    (\<forall>i\<in>set (es_intents (ew_effects w)). \<forall>run_id.
       ir_id i = xw_effect_id x \<longrightarrow> execution_run_id (sv_parse_uuid sv) (ir_payload i) = Some run_id \<longrightarrow>
       (\<exists>e\<in>set (stream_events (ew_runs w) (xw_workspace_id x, run_id)). ee_payload e = settled_event x))"

definition world_ok :: "effect_service \<Rightarrow> effect_world \<Rightarrow> bool"
  where "world_ok sv w \<longleftrightarrow>
    effects_ok (ew_effects w) \<and> dispatch_order (ew_effects w) \<and> store_ok (ew_runs w) \<and>
    distinct (map ei_id (ew_calls w)) \<and> (\<forall>c\<in>set (ew_calls w). on_record sv (ew_effects w) c) \<and>
    (\<forall>x\<in>set (es_reconciliations (ew_effects w)). xw_notified_at x \<noteq> None \<longrightarrow> told sv w x)"

text \<open>
  The tables only grow; transitions of the performing path and calls to adapters are added only
  for effects in \<open>A\<close>.
\<close>

definition performing :: "transition_cause \<Rightarrow> bool"
  where "performing c \<longleftrightarrow> c \<in> {IntentRecorded, AuthorizationRecorded, DispatchStarted, ReceiptRecorded}"

definition world_advances :: "(uuid \<Rightarrow> bool) \<Rightarrow> effect_world \<Rightarrow> effect_world \<Rightarrow> bool"
  where "world_advances A w w' \<longleftrightarrow>
    grows (ew_effects w) (ew_effects w') \<and>
    (\<forall>t\<in>set (es_transitions (ew_effects w')). t \<notin> set (es_transitions (ew_effects w)) \<longrightarrow>
       performing (tr_cause t) \<longrightarrow> A (tr_effect_id t)) \<and>
    (\<forall>k. set (stream_events (ew_runs w) k) \<subseteq> set (stream_events (ew_runs w') k)) \<and>
    (\<forall>c\<in>set (ew_calls w'). c \<notin> set (ew_calls w) \<longrightarrow> A (ei_id c))"

definition effect_rely :: "uuid option \<Rightarrow> effect_world \<Rightarrow> effect_world \<Rightarrow> bool"
  where "effect_rely l = world_advances (\<lambda>e. l \<noteq> Some e)"

definition effect_guar :: "uuid option \<Rightarrow> effect_world \<Rightarrow> effect_world \<Rightarrow> bool"
  where "effect_guar l = world_advances (\<lambda>e. l = Some e)"

lemma world_advances_refl [simp]: "world_advances A w w"
  by (simp add: world_advances_def)

lemma world_advances_trans: "world_advances A w w1 \<Longrightarrow> world_advances A w1 w2 \<Longrightarrow> world_advances A w w2"
  unfolding world_advances_def by (blast intro: grows_trans)

lemma world_advances_mono: "world_advances A w w' \<Longrightarrow> (\<And>e. A e \<Longrightarrow> B e) \<Longrightarrow> world_advances B w w'"
  unfolding world_advances_def by blast

interpretation effects: rely_guarantee effect_rely effect_guar "\<lambda>l. l = None" "world_ok sv" for sv
proof unfold_locales
  show "effect_rely l w w" for l w
    by (simp add: effect_rely_def)
  show "effect_rely l w w1 \<Longrightarrow> effect_rely l w1 w2 \<Longrightarrow> effect_rely l w w2" for l w w1 w2
    unfolding effect_rely_def by (rule world_advances_trans)
  show "l \<noteq> m \<or> l = None \<Longrightarrow> world_ok sv w \<Longrightarrow> effect_guar m w w' \<Longrightarrow> effect_rely l w w'" for l m w w'
    unfolding effect_guar_def effect_rely_def by (erule world_advances_mono) auto
qed

text \<open>What was on record stays on record.\<close>

lemma record_grows:
  assumes "grows es es'"
  shows "intent_on_record es intent \<Longrightarrow> intent_on_record es' intent"
    and "allowed_on_record es intent \<Longrightarrow> allowed_on_record es' intent"
    and "dispatch_on_record sv es intent \<Longrightarrow> dispatch_on_record sv es' intent"
    and "on_record sv es intent \<Longrightarrow> on_record sv es' intent"
  using assms unfolding on_record_def intent_on_record_def allowed_on_record_def dispatch_on_record_def grows_def
  by blast+

lemma effect_intent_unique:
  assumes "effects_ok es" "i \<in> set (es_intents es)" "j \<in> set (es_intents es)" "ir_id i = ir_id j"
  shows "i = j"
  using assms by (auto simp: effects_ok_def intents_ok_def distinct_map dest: inj_onD)

lemma reconciliation_has_intent:
  assumes "effects_ok es" "x \<in> set (es_reconciliations es)"
  obtains i where "i \<in> set (es_intents es)" "ir_id i = xw_effect_id x" "ir_workspace_id i = xw_workspace_id x"
  using assms by (auto simp: effects_ok_def reconciliations_ok_def has_intent_iff)

lemma told_advances:
  assumes "told sv w x" "x \<in> set (es_reconciliations (ew_effects w))"
    and "effects_ok (ew_effects w)" "effects_ok (ew_effects w')" "world_advances A w w'"
  shows "told sv w' x"
proof -
  obtain i where i: "i \<in> set (es_intents (ew_effects w))" "ir_id i = xw_effect_id x"
    by (rule reconciliation_has_intent [OF assms(3,2)])
  then have "i \<in> set (es_intents (ew_effects w'))"
    using assms(5) by (auto simp: world_advances_def grows_def)
  then have only: "j = i" if "j \<in> set (es_intents (ew_effects w'))" "ir_id j = xw_effect_id x" for j
    using effect_intent_unique [OF assms(4)] that i(2) by metis
  show ?thesis
    unfolding told_def
  proof (intro ballI allI impI)
    fix j run_id
    assume "j \<in> set (es_intents (ew_effects w'))" "ir_id j = xw_effect_id x"
      "execution_run_id (sv_parse_uuid sv) (ir_payload j) = Some run_id"
    then show "\<exists>e\<in>set (stream_events (ew_runs w') (xw_workspace_id x, run_id)). ee_payload e = settled_event x"
      using only assms(1,5) i unfolding told_def world_advances_def by blast
  qed
qed

lemma reconciliations_unchanged:
  "insert_intent_on tx shw es ctx intent = Ok es' \<Longrightarrow> es_reconciliations es' = es_reconciliations es"
  "record_authorization_on tx es ctx e d = Ok es' \<Longrightarrow> es_reconciliations es' = es_reconciliations es"
  "record_dispatch_started_on tx es ctx e owner expires at = Ok (i, es') \<Longrightarrow> es_reconciliations es' = es_reconciliations es"
  "insert_receipt_on tx shw es ctx r evidence = Ok es' \<Longrightarrow> es_reconciliations es' = es_reconciliations es"
  "adopt_lost_dispatch_on tx es ctx e i at = Ok (a, es') \<Longrightarrow> es_reconciliations es' = es_reconciliations es"
  "record_failed_recovery_attempt tx es ctx e at reason = Ok es' \<Longrightarrow> es_reconciliations es' = es_reconciliations es"
  "record_worker_presence tx es ctx worker started reported = Ok es' \<Longrightarrow> es_reconciliations es' = es_reconciliations es"
  "clear_worker_presence tx es ctx worker stopped = Ok es' \<Longrightarrow> es_reconciliations es' = es_reconciliations es"
  by (auto simp: insert_intent_on_def record_authorization_on_def record_dispatch_started_on_def insert_receipt_on_def
      adopt_lost_dispatch_on_def record_failed_recovery_attempt_def record_worker_presence_def
      clear_worker_presence_def and_then_Ok_iff Let_def split: if_splits elim!: insert_transition_Ok)

lemma order_kept:
  assumes ev: "evolves P es es'" and order: "dispatch_order es"
    and before: "\<And>t u. P t \<Longrightarrow> tr_cause t \<in> {IntentRecorded, AuthorizationRecorded} \<Longrightarrow> u \<in> set (es_transitions es) \<Longrightarrow>
      tr_effect_id u = tr_effect_id t \<Longrightarrow> tr_status u \<noteq> Effect_Dispatching"
    and one_kind: "\<And>t u. P t \<Longrightarrow> P u \<Longrightarrow> tr_cause u = tr_cause t"
  shows "dispatch_order es'"
  unfolding dispatch_order_def
proof (intro ballI impI)
  obtain ts where ts: "es_transitions es' = es_transitions es @ ts" "list_all P ts"
    using ev by (auto simp: evolves_def)
  fix t u
  assume t: "t \<in> set (es_transitions es')" and u: "u \<in> set (es_transitions es')" "tr_effect_id u = tr_effect_id t"
    and st: "tr_status t = Effect_Dispatching" "tr_ordinal t < tr_ordinal u"
  have ok: "effects_ok es'"
    using ev by (simp add: evolves_def)
  have "backed es' t"
    using ok t by (simp add: effects_ok_def transitions_ok_def)
  then have cause: "tr_cause t = DispatchStarted"
    using st(1) by (cases "tr_cause t") (auto simp: backed_def)
  consider (old) "t \<in> set (es_transitions es)" "u \<in> set (es_transitions es)"
    | (new) "t \<in> set (es_transitions es)" "u \<in> set ts" | (both) "t \<in> set ts" "u \<in> set ts"
    | (earlier) "t \<in> set ts" "u \<in> set (es_transitions es)"
    using t u(1) ts(1) by auto
  then show "tr_cause u \<notin> {IntentRecorded, AuthorizationRecorded}"
  proof cases
    case old
    then show ?thesis
      using order u(2) st by (simp add: dispatch_order_def)
  next
    case new
    then show ?thesis
      using before [of u t] ts(2) u(2) st(1) by (auto simp: list_all_iff)
  next
    case both
    then have "tr_cause u = tr_cause t"
      using ts(2) one_kind [of t u] by (simp add: list_all_iff)
    then show ?thesis
      using cause by simp
  next
    case earlier
    then have "tr_ordinal u < tr_ordinal t"
      using ok ts(1) by (auto simp: effects_ok_def transitions_ok_def sorted_wrt_append)
    then show ?thesis
      using st(2) by simp
  qed
qed

lemma effects_step_ok:
  assumes ok: "world_ok sv w" and ev: "evolves P (ew_effects w) es'" and order: "dispatch_order es'"
    and owed: "\<And>x. x \<in> set (es_reconciliations es') \<Longrightarrow> xw_notified_at x \<noteq> None \<Longrightarrow>
      x \<in> set (es_reconciliations (ew_effects w))"
    and A: "\<And>t. P t \<Longrightarrow> performing (tr_cause t) \<Longrightarrow> A (tr_effect_id t)"
  shows "world_ok sv (w\<lparr>ew_effects := es'\<rparr>)" "world_advances A w (w\<lparr>ew_effects := es'\<rparr>)"
proof -
  obtain ts where ts: "es_transitions es' = es_transitions (ew_effects w) @ ts" "list_all P ts"
    using ev by (auto simp: evolves_def)
  show adv: "world_advances A w (w\<lparr>ew_effects := es'\<rparr>)"
    using ev A ts by (auto simp: world_advances_def evolves_def list_all_iff)
  have "on_record sv es' c" if "c \<in> set (ew_calls w)" for c
    using ok ev that record_grows(4) by (auto simp: world_ok_def evolves_def)
  moreover have "told sv (w\<lparr>ew_effects := es'\<rparr>) x" if "x \<in> set (es_reconciliations es')" "xw_notified_at x \<noteq> None" for x
  proof -
    have x: "x \<in> set (es_reconciliations (ew_effects w))"
      using owed [OF that] .
    then have "told sv w x"
      using ok that(2) by (simp add: world_ok_def)
    then show ?thesis
      using told_advances [OF _ x _ _ adv] ok ev by (simp add: world_ok_def evolves_def)
  qed
  ultimately show "world_ok sv (w\<lparr>ew_effects := es'\<rparr>)"
    using ok ev order by (simp add: world_ok_def evolves_def)
qed

section \<open>Safe tasks\<close>

abbreviation safely ::
    "uuid option \<Rightarrow> effect_service \<Rightarrow> ('a \<Rightarrow> effect_world \<Rightarrow> bool) \<Rightarrow> (effect_input, effect_world, ('e, 'a) result) task
     \<Rightarrow> effect_world \<Rightarrow> bool"
  where "safely l sv P t w \<equiv>
    task_safe (effect_rely l) (effect_guar l) (world_ok sv) (\<lambda>r w. \<forall>x. r = Ok x \<longrightarrow> P x w) t w"

lemma safely_Done: "(\<And>x. r = Ok x \<Longrightarrow> P x w) \<Longrightarrow> safely l sv P (Done r) w"
  by (simp add: task_safe_simps)

lemma safely_try_await:
  assumes "safely l sv P t w" "\<And>x w'. P x w' \<Longrightarrow> safely l sv Q (k x) w'"
  shows "safely l sv Q (try_await t k) w"
  by (rule task_safe_try_await [OF assms(1)]) (use assms(2) in auto)

lemma safely_forget: "safely l sv P t w \<Longrightarrow> task_safe (effect_rely l) (effect_guar l) (world_ok sv) (\<lambda>_ _. True) (forget t) w"
  by (rule task_safe_bind) (auto simp: task_safe_simps)

lemma on_effects_safe:
  assumes "\<And>tx w' x es'. effect_rely l w w' \<Longrightarrow> world_ok sv w' \<Longrightarrow> op tx (ew_effects w') = Ok (x, es') \<Longrightarrow>
    world_ok sv (w'\<lparr>ew_effects := es'\<rparr>) \<and> effect_guar l w' (w'\<lparr>ew_effects := es'\<rparr>) \<and> P x (w'\<lparr>ew_effects := es'\<rparr>)"
  shows "safely l sv P (on_effects sv op) w"
  unfolding on_effects_def
proof (rule task_safe_atomic)
  fix i w'
  assume w': "effect_rely l w w'" "world_ok sv w'"
  let ?tx = "\<lparr> tx_postgres = sv_postgres sv, tx_random_uuid = in_random_uuid i, tx_now = in_now i \<rparr>"
  obtain es' r where f: "faulty (in_fault i) (op ?tx) (ew_effects w') = (es', r)"
    by (cases "faulty (in_fault i) (op ?tx) (ew_effects w')")
  then show "effect_guar l w' (fst (let tx = ?tx in
        map_prod (\<lambda>es. w'\<lparr>ew_effects := es\<rparr>) id (faulty (in_fault i) (op tx) (ew_effects w')))) \<and>
      world_ok sv (fst (let tx = ?tx in
        map_prod (\<lambda>es. w'\<lparr>ew_effects := es\<rparr>) id (faulty (in_fault i) (op tx) (ew_effects w')))) \<and>
      (\<forall>x. snd (let tx = ?tx in
        map_prod (\<lambda>es. w'\<lparr>ew_effects := es\<rparr>) id (faulty (in_fault i) (op tx) (ew_effects w'))) = Ok x \<longrightarrow>
        P x (fst (let tx = ?tx in
        map_prod (\<lambda>es. w'\<lparr>ew_effects := es\<rparr>) id (faulty (in_fault i) (op tx) (ew_effects w')))))"
    using w' assms by (auto simp: effect_guar_def elim!: faulty_cases)
qed

lemma on_runs_safe:
  assumes "\<And>i dbe w' x db'. effect_rely l w w' \<Longrightarrow> world_ok sv w' \<Longrightarrow> op i dbe (ew_runs w') = Ok (x, db') \<Longrightarrow>
    world_ok sv (w'\<lparr>ew_runs := db'\<rparr>) \<and> effect_guar l w' (w'\<lparr>ew_runs := db'\<rparr>) \<and> P x (w'\<lparr>ew_runs := db'\<rparr>)"
  shows "safely l sv P (on_runs sv op) w"
  unfolding on_runs_def
proof (rule task_safe_atomic)
  fix i w'
  assume w': "effect_rely l w w'" "world_ok sv w'"
  let ?f = "faulty (in_fault i) (op i ((env_database (sv_environment sv))\<lparr>db_now := in_now i\<rparr>)) (ew_runs w')"
  obtain db' r where f: "?f = (db', r)"
    by (cases ?f)
  then show "effect_guar l w' (fst (map_prod (\<lambda>db. w'\<lparr>ew_runs := db\<rparr>) id ?f)) \<and>
      world_ok sv (fst (map_prod (\<lambda>db. w'\<lparr>ew_runs := db\<rparr>) id ?f)) \<and>
      (\<forall>x. snd (map_prod (\<lambda>db. w'\<lparr>ew_runs := db\<rparr>) id ?f) = Ok x \<longrightarrow> P x (fst (map_prod (\<lambda>db. w'\<lparr>ew_runs := db\<rparr>) id ?f)))"
    using w' assms by (auto simp: effect_guar_def elim!: faulty_cases)
qed

text \<open>What a performing task knows of its own effect before it dispatches, and what it knows after.\<close>

definition undispatched :: "uuid \<Rightarrow> effect_world \<Rightarrow> bool"
  where "undispatched e w \<longleftrightarrow>
    (\<forall>t\<in>set (es_transitions (ew_effects w)). tr_effect_id t = e \<longrightarrow> tr_status t \<noteq> Effect_Dispatching)"

definition uncalled :: "uuid \<Rightarrow> effect_world \<Rightarrow> bool"
  where "uncalled e w \<longleftrightarrow> (\<forall>c\<in>set (ew_calls w). ei_id c \<noteq> e)"

lemma backed_dispatching: "backed es t \<Longrightarrow> tr_status t = Effect_Dispatching \<Longrightarrow> tr_cause t = DispatchStarted"
  by (cases "tr_cause t") (auto simp: backed_def)

lemma rely_keeps:
  assumes "effect_rely (Some e) w w'" "world_ok sv w'"
  shows "undispatched e w \<Longrightarrow> undispatched e w'" "uncalled e w \<Longrightarrow> uncalled e w'"
    and "intent_on_record (ew_effects w) intent \<Longrightarrow> intent_on_record (ew_effects w') intent"
    and "allowed_on_record (ew_effects w) intent \<Longrightarrow> allowed_on_record (ew_effects w') intent"
    and "dispatch_on_record sv (ew_effects w) intent \<Longrightarrow> dispatch_on_record sv (ew_effects w') intent"
proof -
  have adv: "world_advances (\<lambda>e'. Some e \<noteq> Some e') w w'"
    using assms(1) by (simp add: effect_rely_def)
  have backing: "backed (ew_effects w') t" if "t \<in> set (es_transitions (ew_effects w'))" for t
    using assms(2) that by (simp add: world_ok_def effects_ok_def transitions_ok_def)
  show "undispatched e w'" if old: "undispatched e w"
    unfolding undispatched_def
  proof (intro ballI impI notI)
    fix t
    assume t: "t \<in> set (es_transitions (ew_effects w'))" "tr_effect_id t = e" "tr_status t = Effect_Dispatching"
    then have "tr_cause t = DispatchStarted"
      using backing backed_dispatching by blast
    moreover have "t \<notin> set (es_transitions (ew_effects w))"
      using old t(2,3) by (auto simp: undispatched_def)
    ultimately show False
      using adv t(1,2) by (auto simp: world_advances_def performing_def)
  qed
  show "uncalled e w \<Longrightarrow> uncalled e w'"
    using adv by (auto simp: uncalled_def world_advances_def)
  have "grows (ew_effects w) (ew_effects w')"
    using adv by (simp add: world_advances_def)
  note record_grows [OF this]
  then show "intent_on_record (ew_effects w) intent \<Longrightarrow> intent_on_record (ew_effects w') intent"
    and "allowed_on_record (ew_effects w) intent \<Longrightarrow> allowed_on_record (ew_effects w') intent"
    and "dispatch_on_record sv (ew_effects w) intent \<Longrightarrow> dispatch_on_record sv (ew_effects w') intent"
    by blast+
qed

lemma undispatched_step:
  assumes "undispatched e w" "evolves P (ew_effects w) es'" "\<And>t. P t \<Longrightarrow> tr_cause t \<noteq> DispatchStarted"
  shows "undispatched e (w\<lparr>ew_effects := es'\<rparr>)"
  unfolding undispatched_def
proof (intro ballI impI notI)
  fix t
  assume t: "t \<in> set (es_transitions (ew_effects (w\<lparr>ew_effects := es'\<rparr>)))" "tr_effect_id t = e" "tr_status t = Effect_Dispatching"
  then have "backed es' t"
    using assms(2) by (simp add: evolves_def effects_ok_def transitions_ok_def)
  then have "tr_cause t = DispatchStarted"
    using t(3) by (rule backed_dispatching)
  moreover have "t \<in> set (es_transitions (ew_effects w)) \<or> P t"
    using t(1) assms(2) by (auto simp: evolves_def list_all_iff)
  ultimately show False
    using assms(1,3) t(2,3) by (auto simp: undispatched_def)
qed

lemma own_step_ok:
  assumes ok: "world_ok sv w" and ev: "evolves P (ew_effects w) es'"
    and P: "\<And>t. P t \<Longrightarrow> tr_effect_id t = e \<and> tr_cause t = c"
    and before: "c \<in> {IntentRecorded, AuthorizationRecorded} \<Longrightarrow> undispatched e w"
    and recs: "es_reconciliations es' = es_reconciliations (ew_effects w)"
  shows "world_ok sv (w\<lparr>ew_effects := es'\<rparr>) \<and> effect_guar (Some e) w (w\<lparr>ew_effects := es'\<rparr>)"
proof -
  have "dispatch_order es'"
    by (rule order_kept [OF ev]) (use ok P before in \<open>auto simp: world_ok_def undispatched_def\<close>)
  then show ?thesis
    using effects_step_ok [OF ok ev, of "\<lambda>e'. Some e = Some e'"] P recs unfolding effect_guar_def by simp
qed

lemma perform_intent_safe:
  assumes "undispatched (ei_id intent) w" "uncalled (ei_id intent) w"
  shows "safely (Some (ei_id intent)) sv
    (\<lambda>_ w. intent_on_record (ew_effects w) intent \<and> undispatched (ei_id intent) w \<and> uncalled (ei_id intent) w \<and>
       ei_workspace_id intent = rc_workspace_id ctx)
    (on_effects sv (\<lambda>tx es. written (insert_intent_on tx shw es ctx intent))) w"
proof (rule on_effects_safe)
  fix tx w' x es'
  assume rely: "effect_rely (Some (ei_id intent)) w w'" and ok: "world_ok sv w'"
    and op: "written (insert_intent_on tx shw (ew_effects w') ctx intent) = Ok (x, es')"
  have ins: "insert_intent_on tx shw (ew_effects w') ctx intent = Ok es'"
    using op by (auto simp: and_then_Ok_iff)
  have eok: "effects_ok (ew_effects w')"
    using ok by (simp add: world_ok_def)
  note ev = insert_intent_Ok [OF eok ins]
  note known = rely_keeps(1,2) [OF rely ok] assms
  have "world_ok sv (w'\<lparr>ew_effects := es'\<rparr>) \<and> effect_guar (Some (ei_id intent)) w' (w'\<lparr>ew_effects := es'\<rparr>)"
    by (rule own_step_ok [OF ok ev(1), of _ IntentRecorded])
       (use known reconciliations_unchanged(1) [OF ins] in auto)
  moreover have "undispatched (ei_id intent) (w'\<lparr>ew_effects := es'\<rparr>)"
    by (rule undispatched_step [OF _ ev(1)]) (use known in auto)
  ultimately show "world_ok sv (w'\<lparr>ew_effects := es'\<rparr>) \<and>
      effect_guar (Some (ei_id intent)) w' (w'\<lparr>ew_effects := es'\<rparr>) \<and>
      intent_on_record (ew_effects (w'\<lparr>ew_effects := es'\<rparr>)) intent \<and> undispatched (ei_id intent) (w'\<lparr>ew_effects := es'\<rparr>) \<and>
      uncalled (ei_id intent) (w'\<lparr>ew_effects := es'\<rparr>) \<and> ei_workspace_id intent = rc_workspace_id ctx"
    using ev(2,3) known by (auto simp: intent_on_record_def uncalled_def)
qed

lemma perform_record_authorization_safe:
  assumes "intent_on_record (ew_effects w) intent" "undispatched (ei_id intent) w" "uncalled (ei_id intent) w"
  shows "safely (Some (ei_id intent)) sv
    (\<lambda>_ w. intent_on_record (ew_effects w) intent \<and> undispatched (ei_id intent) w \<and> uncalled (ei_id intent) w \<and>
       (allows d intent \<longrightarrow> allowed_on_record (ew_effects w) intent))
    (on_effects sv (\<lambda>tx es. written (record_authorization_on tx es ctx (ei_id intent) d))) w"
proof (rule on_effects_safe)
  fix tx w' x es'
  assume rely: "effect_rely (Some (ei_id intent)) w w'" and ok: "world_ok sv w'"
    and op: "written (record_authorization_on tx (ew_effects w') ctx (ei_id intent) d) = Ok (x, es')"
  have ins: "record_authorization_on tx (ew_effects w') ctx (ei_id intent) d = Ok es'"
    using op by (auto simp: and_then_Ok_iff)
  have eok: "effects_ok (ew_effects w')"
    using ok by (simp add: world_ok_def)
  note ev = record_authorization_Ok [OF eok ins]
  note known = rely_keeps [OF rely ok] assms
  have "world_ok sv (w'\<lparr>ew_effects := es'\<rparr>) \<and> effect_guar (Some (ei_id intent)) w' (w'\<lparr>ew_effects := es'\<rparr>)"
    by (rule own_step_ok [OF ok ev(1), of _ AuthorizationRecorded])
       (use known reconciliations_unchanged(2) [OF ins] in auto)
  moreover have "undispatched (ei_id intent) (w'\<lparr>ew_effects := es'\<rparr>)"
    by (rule undispatched_step [OF _ ev(1)]) (use known in auto)
  moreover have "allows d intent \<longrightarrow> allowed_on_record es' intent"
    using ev(2) by (auto simp: allowed_on_record_def authorization_row_of_def intro!: bexI)
  moreover have "intent_on_record es' intent"
    using known ev(1) record_grows(1) by (auto simp: evolves_def)
  ultimately show "world_ok sv (w'\<lparr>ew_effects := es'\<rparr>) \<and>
      effect_guar (Some (ei_id intent)) w' (w'\<lparr>ew_effects := es'\<rparr>) \<and>
      intent_on_record (ew_effects (w'\<lparr>ew_effects := es'\<rparr>)) intent \<and> undispatched (ei_id intent) (w'\<lparr>ew_effects := es'\<rparr>) \<and>
      uncalled (ei_id intent) (w'\<lparr>ew_effects := es'\<rparr>) \<and>
      (allows d intent \<longrightarrow> allowed_on_record (ew_effects (w'\<lparr>ew_effects := es'\<rparr>)) intent)"
    using known by (auto simp: uncalled_def)
qed

lemma unchanged_safe:
  assumes "\<And>i w' x. effect_rely l w w' \<Longrightarrow> world_ok sv w' \<Longrightarrow> f i w' = Ok x \<Longrightarrow> P x w'"
  shows "safely l sv P (atomic (\<lambda>i w. (w, f i w))) w"
  by (rule task_safe_atomic) (use assms in \<open>auto simp: effect_guar_def\<close>)

lemma perform_authorize_safe:
  assumes "intent_on_record (ew_effects w) intent" "undispatched (ei_id intent) w" "uncalled (ei_id intent) w"
  shows "safely (Some (ei_id intent)) sv
    (\<lambda>a w. ae_intent a = intent \<and> intent_on_record (ew_effects w) intent \<and> allowed_on_record (ew_effects w) intent \<and>
       undispatched (ei_id intent) w \<and> uncalled (ei_id intent) w)
    (service_authorize sv ctx intent request) w"
  unfolding service_authorize_def
proof (rule safely_try_await)
  show "safely (Some (ei_id intent)) sv
      (\<lambda>_ w. intent_on_record (ew_effects w) intent \<and> undispatched (ei_id intent) w \<and> uncalled (ei_id intent) w)
      (boundary_evaluate sv ctx request) w"
    unfolding boundary_evaluate_def by (rule unchanged_safe) (use assms rely_keeps in blast)
next
  fix d w1
  let ?decided = "if is_allowed d
    then and_then (map_err App_Domain (intent_authorize intent (from_policy_decision (sv_show_uuid sv) d))) (\<lambda>a. Ok (Some a))
    else Ok None"
  assume w1: "intent_on_record (ew_effects w1) intent \<and> undispatched (ei_id intent) w1 \<and> uncalled (ei_id intent) w1"
  show "safely (Some (ei_id intent)) sv
    (\<lambda>a w. ae_intent a = intent \<and> intent_on_record (ew_effects w) intent \<and> allowed_on_record (ew_effects w) intent \<and>
       undispatched (ei_id intent) w \<and> uncalled (ei_id intent) w)
    (case ?decided of Inl e \<Rightarrow> Done (Err e)
     | Inr authorized \<Rightarrow>
         try_await (on_effects sv (\<lambda>tx es. written (record_authorization_on tx es ctx (ei_id intent) d))) (\<lambda>_.
         Done (ok_or (App_Policy (''authorization denied: '' @ policy_decision_reason_debug (pd_reason d))) authorized))) w1"
  proof (cases ?decided)
    case (Inl e)
    show ?thesis
      unfolding Inl by (auto simp: task_safe_simps)
  next
    case (Inr authorized)
    have ok: "ae_intent a = intent \<and> allows d intent" if "authorized = Some a" for a
      using Inr that
      by (auto simp: and_then_Ok_iff map_err_Ok_iff intent_authorize_Ok_iff from_policy_decision_def allows_def
            split: if_splits)
    show ?thesis
      unfolding Inr sum.case
      by (rule safely_try_await [OF perform_record_authorization_safe [where d = d]])
         (use w1 ok in \<open>auto simp: task_safe_simps ok_or_Ok_iff\<close>)
  qed
qed

lemma perform_record_dispatch_safe:
  assumes "intent_on_record (ew_effects w) intent" "allowed_on_record (ew_effects w) intent" "uncalled (ei_id intent) w"
    and ws: "ei_workspace_id intent = rc_workspace_id ctx"
  shows "safely (Some (ei_id intent)) sv
    (\<lambda>_ w. on_record sv (ew_effects w) intent \<and> uncalled (ei_id intent) w)
    (on_effects sv (\<lambda>tx es. record_dispatch_started_on tx es ctx (ei_id intent) (sv_dispatch_owner sv) expires at)) w"
proof (rule on_effects_safe)
  fix tx w' i es'
  assume rely: "effect_rely (Some (ei_id intent)) w w'" and ok: "world_ok sv w'"
    and ins: "record_dispatch_started_on tx (ew_effects w') ctx (ei_id intent) (sv_dispatch_owner sv) expires at = Ok (i, es')"
  have eok: "effects_ok (ew_effects w')"
    using ok by (simp add: world_ok_def)
  note ev = record_dispatch_started_Ok [OF eok ins]
  note known = rely_keeps(2-4) [OF rely ok] assms
  have "world_ok sv (w'\<lparr>ew_effects := es'\<rparr>) \<and> effect_guar (Some (ei_id intent)) w' (w'\<lparr>ew_effects := es'\<rparr>)"
    by (rule own_step_ok [OF ok ev(1), of _ DispatchStarted])
       (use reconciliations_unchanged(3) [OF ins] in auto)
  moreover have "dispatch_on_record sv es' intent"
    using ev(2) ws by (auto simp: dispatch_on_record_def)
  moreover have "grows (ew_effects w') es'"
    using ev(1) by (simp add: evolves_def)
  ultimately show "world_ok sv (w'\<lparr>ew_effects := es'\<rparr>) \<and>
      effect_guar (Some (ei_id intent)) w' (w'\<lparr>ew_effects := es'\<rparr>) \<and>
      on_record sv (ew_effects (w'\<lparr>ew_effects := es'\<rparr>)) intent \<and> uncalled (ei_id intent) (w'\<lparr>ew_effects := es'\<rparr>)"
    using known record_grows(1,2) by (auto simp: on_record_def uncalled_def)
qed

lemma perform_call_safe:
  assumes "on_record sv (ew_effects w) intent" "uncalled (ei_id intent) w" and intent: "ae_intent a = intent"
  shows "safely (Some (ei_id intent)) sv (\<lambda>r _. rx_effect_id r = ei_id intent) (adapter_call a d digest at) w"
  unfolding adapter_call_def
proof (rule task_safe_atomic)
  fix i w'
  assume rely: "effect_rely (Some (ei_id intent)) w w'" and ok: "world_ok sv w'"
  let ?w = "if is_ok (validate_dispatch a d digest) then w'\<lparr>ew_calls := ew_calls w' @ [ae_intent a]\<rparr> else w'"
  have "uncalled (ei_id intent) w'" "on_record sv (ew_effects w') intent"
    using rely_keeps [OF rely ok] assms by (auto simp: on_record_def)
  then have "world_ok sv ?w" "effect_guar (Some (ei_id intent)) w' ?w"
    using ok intent by (auto simp: world_ok_def told_def uncalled_def effect_guar_def world_advances_def)
  moreover have "rx_effect_id r = ei_id intent" if "effect_dispatch a d (\<lambda>_. in_reply i) digest (in_id i) at = Ok r" for r
    using that intent by (auto simp: effect_dispatch_def and_then_Ok_iff)
  ultimately show "effect_guar (Some (ei_id intent)) w' (fst (?w, map_err map_dispatch_error
        (effect_dispatch a d (\<lambda>_. in_reply i) digest (in_id i) at))) \<and>
      world_ok sv (fst (?w, map_err map_dispatch_error (effect_dispatch a d (\<lambda>_. in_reply i) digest (in_id i) at))) \<and>
      (\<forall>r. snd (?w, map_err map_dispatch_error (effect_dispatch a d (\<lambda>_. in_reply i) digest (in_id i) at)) = Ok r \<longrightarrow>
        rx_effect_id r = ei_id intent)"
    by (simp add: map_err_Ok_iff)
qed

lemma perform_receipt_safe:
  assumes effect: "rx_effect_id r = e"
  shows "safely (Some e) sv (\<lambda>_ _. True) (on_effects sv (\<lambda>tx es. written (insert_receipt_on tx shw es ctx r None))) w"
proof (rule on_effects_safe)
  fix tx w' x es'
  assume ok: "world_ok sv w'" and op: "written (insert_receipt_on tx shw (ew_effects w') ctx r None) = Ok (x, es')"
  have ins: "insert_receipt_on tx shw (ew_effects w') ctx r None = Ok es'"
    using op by (auto simp: and_then_Ok_iff)
  have eok: "effects_ok (ew_effects w')"
    using ok by (simp add: world_ok_def)
  show "world_ok sv (w'\<lparr>ew_effects := es'\<rparr>) \<and> effect_guar (Some e) w' (w'\<lparr>ew_effects := es'\<rparr>) \<and> True"
    using own_step_ok [OF ok insert_receipt_Ok(1) [OF eok ins], of e ReceiptRecorded]
      reconciliations_unchanged(4) [OF ins] effect by simp
qed

lemma perform_dispatch_safe:
  assumes a: "ae_intent a = intent" and ws: "ei_workspace_id intent = rc_workspace_id ctx"
    and w: "intent_on_record (ew_effects w) intent" "allowed_on_record (ew_effects w) intent" "uncalled (ei_id intent) w"
  shows "safely (Some (ei_id intent)) sv (\<lambda>r _. rx_effect_id r = ei_id intent) (service_dispatch sv ctx a d digest at) w"
proof (cases "map_err map_dispatch_error (validate_dispatch a d digest)")
  case (Inl e)
  then show ?thesis
    by (simp add: service_dispatch_def task_safe_simps)
next
  case (Inr v)
  show ?thesis
    unfolding service_dispatch_def Inr sum.case Let_def a
    by (rule safely_try_await [OF perform_record_dispatch_safe [OF w ws]]) (use perform_call_safe a in blast)
qed

lemma perform_safe:
  assumes "undispatched (ei_id intent) w" "uncalled (ei_id intent) w"
  shows "safely (Some (ei_id intent)) sv (\<lambda>_ _. True) (perform sv ctx intent d at) w"
  unfolding perform_def
proof (rule safely_try_await [OF perform_intent_safe [OF assms]], elim conjE)
  fix u w1
  assume w1: "intent_on_record (ew_effects w1) intent" "undispatched (ei_id intent) w1" "uncalled (ei_id intent) w1"
    and ws: "ei_workspace_id intent = rc_workspace_id ctx"
  show "safely (Some (ei_id intent)) sv (\<lambda>_ _. True)
      (try_await (service_authorize sv ctx intent (authorization_request_new (ei_required_capability intent)
          (ei_operation intent) (ei_target intent) (ei_risk intent))) (\<lambda>a.
       try_await (service_dispatch sv ctx a d (ei_precondition_digest (ae_intent a)) at) (\<lambda>r.
       try_await (on_effects sv (\<lambda>tx es. written (insert_receipt_on tx (sv_show_uuid sv) es ctx r None))) (\<lambda>_.
       Done (Ok r))))) w1"
  proof (rule safely_try_await [OF perform_authorize_safe [OF w1]], elim conjE)
    fix a :: authorized_external_effect and w2
    assume a: "ae_intent a = intent" and w2: "intent_on_record (ew_effects w2) intent"
      "allowed_on_record (ew_effects w2) intent" "undispatched (ei_id intent) w2" "uncalled (ei_id intent) w2"
    show "safely (Some (ei_id intent)) sv (\<lambda>_ _. True)
      (try_await (service_dispatch sv ctx a d (ei_precondition_digest (ae_intent a)) at) (\<lambda>r.
       try_await (on_effects sv (\<lambda>tx es. written (insert_receipt_on tx (sv_show_uuid sv) es ctx r None))) (\<lambda>_.
       Done (Ok r)))) w2"
      by (rule safely_try_await [OF perform_dispatch_safe [OF a ws w2(1,2,4)]])
         (rule safely_try_await [OF perform_receipt_safe], auto simp: task_safe_simps)
  qed
qed

abbreviation keeps :: "uuid option \<Rightarrow> effect_service \<Rightarrow> (effect_input, effect_world, 'a) task \<Rightarrow> effect_world \<Rightarrow> bool"
  where "keeps l sv t w \<equiv> task_safe (effect_rely l) (effect_guar l) (world_ok sv) (\<lambda>_ _. True) t w"

lemma keeps_Done [simp]: "keeps l sv (Done x) w"
  by (simp add: task_safe_simps)

lemma keeps_bind:
  assumes "keeps l sv t w" "\<And>x w'. keeps l sv (k x) w'"
  shows "keeps l sv (task_bind t k) w"
  by (rule task_safe_bind [OF assms(1)]) (rule assms(2))

lemma keeps_try_await:
  assumes "keeps l sv t w" "\<And>x w'. keeps l sv (k x) w'"
  shows "keeps l sv (try_await t k) w"
  by (rule task_safe_try_await [OF assms(1)]) (use assms(2) in auto)

lemma shared_step_ok:
  assumes ok: "world_ok sv w" and ev: "evolves P (ew_effects w) es'"
    and P: "\<And>t. P t \<Longrightarrow> tr_cause t = c" and c: "c \<in> {DispatchLost, OutcomeSettled, OutcomeDelivered}"
    and owed: "\<And>x. x \<in> set (es_reconciliations es') \<Longrightarrow> xw_notified_at x \<noteq> None \<Longrightarrow>
      x \<in> set (es_reconciliations (ew_effects w))"
  shows "world_ok sv (w\<lparr>ew_effects := es'\<rparr>) \<and> effect_guar None w (w\<lparr>ew_effects := es'\<rparr>)"
proof -
  have "dispatch_order es'"
    by (rule order_kept [OF ev]) (use ok P c in \<open>auto simp: world_ok_def\<close>)
  then show ?thesis
    using effects_step_ok [OF ok ev _ owed, of "\<lambda>e. None = Some e"] P c
    unfolding effect_guar_def by (auto simp: performing_def)
qed

lemma keeps_on_effects:
  assumes "\<And>tx w' x es'. world_ok sv w' \<Longrightarrow> op tx (ew_effects w') = Ok (x, es') \<Longrightarrow>
    \<exists>P c. evolves P (ew_effects w') es' \<and> (\<forall>t. P t \<longrightarrow> tr_cause t = c) \<and>
      c \<in> {DispatchLost, OutcomeSettled, OutcomeDelivered} \<and>
      (\<forall>x\<in>set (es_reconciliations es'). xw_notified_at x \<noteq> None \<longrightarrow> x \<in> set (es_reconciliations (ew_effects w')))"
  shows "keeps None sv (on_effects sv op) w"
proof -
  have "safely None sv (\<lambda>_ _. True) (on_effects sv op) w"
  proof (rule on_effects_safe)
    fix tx w' x es'
    assume ok: "world_ok sv w'" and op: "op tx (ew_effects w') = Ok (x, es')"
    obtain P c where "evolves P (ew_effects w') es'" "\<forall>t. P t \<longrightarrow> tr_cause t = c"
        "c \<in> {DispatchLost, OutcomeSettled, OutcomeDelivered}"
        "\<forall>x\<in>set (es_reconciliations es'). xw_notified_at x \<noteq> None \<longrightarrow> x \<in> set (es_reconciliations (ew_effects w'))"
      using assms [OF ok op] by blast
    then show "world_ok sv (w'\<lparr>ew_effects := es'\<rparr>) \<and> effect_guar None w' (w'\<lparr>ew_effects := es'\<rparr>) \<and> True"
      using shared_step_ok [OF ok, of P es' c] by blast
  qed
  then show ?thesis
    by (rule task_safe_weaken) simp
qed

lemma world_effects_ok: "world_ok sv w \<Longrightarrow> effects_ok (ew_effects w)"
  by (simp add: world_ok_def)

lemma recovery_steps_keep:
  "keeps None sv (on_effects sv (\<lambda>tx es. adopt_lost_dispatch_on tx es ctx e i at)) w"
  "keeps None sv (on_effects sv (\<lambda>tx es. written (insert_reconciliation tx shw es ctx x))) w"
  "keeps None sv (on_effects sv (\<lambda>tx es. written (record_failed_recovery_attempt tx es ctx e at reason))) w"
  "keeps None sv (on_effects sv (\<lambda>tx es. written (record_worker_presence tx es ctx worker started reported))) w"
  "keeps None sv (on_effects sv (\<lambda>tx es. written (clear_worker_presence tx es ctx worker stopped))) w"
  "keeps None sv (discover_raw sv ctx u f d limit) w"
proof -
  show "keeps None sv (on_effects sv (\<lambda>tx es. adopt_lost_dispatch_on tx es ctx e i at)) w"
  proof (rule keeps_on_effects)
    fix tx w' a es'
    assume ok: "world_ok sv w'" and op: "adopt_lost_dispatch_on tx (ew_effects w') ctx e i at = Ok (a, es')"
    show "\<exists>P c. evolves P (ew_effects w') es' \<and> (\<forall>t. P t \<longrightarrow> tr_cause t = c) \<and>
      c \<in> {DispatchLost, OutcomeSettled, OutcomeDelivered} \<and>
      (\<forall>x\<in>set (es_reconciliations es'). xw_notified_at x \<noteq> None \<longrightarrow> x \<in> set (es_reconciliations (ew_effects w')))"
      using adopt_lost_dispatch_Ok(1) [OF world_effects_ok [OF ok] op] reconciliations_unchanged(5) [OF op] by auto
  qed
  show "keeps None sv (on_effects sv (\<lambda>tx es. written (insert_reconciliation tx shw es ctx x))) w"
  proof (rule keeps_on_effects)
    fix tx w' a es'
    assume ok: "world_ok sv w'" and op: "written (insert_reconciliation tx shw (ew_effects w') ctx x) = Ok (a, es')"
    have ins: "insert_reconciliation tx shw (ew_effects w') ctx x = Ok es'"
      using op by (auto simp: and_then_Ok_iff)
    note rec = insert_reconciliation_Ok [OF world_effects_ok [OF ok] ins]
    show "\<exists>P c. evolves P (ew_effects w') es' \<and> (\<forall>t. P t \<longrightarrow> tr_cause t = c) \<and>
      c \<in> {DispatchLost, OutcomeSettled, OutcomeDelivered} \<and>
      (\<forall>x\<in>set (es_reconciliations es'). xw_notified_at x \<noteq> None \<longrightarrow> x \<in> set (es_reconciliations (ew_effects w')))"
    proof (intro exI conjI ballI impI)
      show "evolves (\<lambda>t. tr_effect_id t = xr_effect_id x \<and> tr_cause t = OutcomeSettled) (ew_effects w') es'"
        by (rule rec(1))
      show "xw_notified_at row \<noteq> None \<Longrightarrow> row \<in> set (es_reconciliations (ew_effects w'))"
        if "row \<in> set (es_reconciliations es')" for row
        using rec(3) [OF that] by argo
      show "OutcomeSettled \<in> {DispatchLost, OutcomeSettled, OutcomeDelivered}"
        by simp
    qed simp
  qed
  have quiet: "keeps None sv (on_effects sv (\<lambda>tx es. written (op tx es))) w"
    if "\<And>tx es es'. effects_ok es \<Longrightarrow> op tx es = Ok es' \<Longrightarrow> evolves (\<lambda>_. False) es es' \<and> es_reconciliations es' = es_reconciliations es"
    for op
    by (rule keeps_on_effects) (use that world_effects_ok in \<open>fastforce simp: and_then_Ok_iff\<close>)
  show "keeps None sv (on_effects sv (\<lambda>tx es. written (record_failed_recovery_attempt tx es ctx e at reason))) w"
    by (rule quiet) (use record_failed_recovery_attempt_Ok reconciliations_unchanged(6) in blast)
  show "keeps None sv (on_effects sv (\<lambda>tx es. written (record_worker_presence tx es ctx worker started reported))) w"
    by (rule quiet) (use presence_Ok(1) reconciliations_unchanged(7) in blast)
  show "keeps None sv (on_effects sv (\<lambda>tx es. written (clear_worker_presence tx es ctx worker stopped))) w"
    by (rule quiet) (use presence_Ok(2) reconciliations_unchanged(8) in blast)
  show "keeps None sv (discover_raw sv ctx u f d limit) w"
    unfolding discover_raw_def
    by (rule keeps_on_effects) (auto simp: and_then_Ok_iff intro!: exI [of _ "\<lambda>_. False"] dest: world_effects_ok)
qed

lemma keeps_observe: "keeps l sv (atomic (\<lambda>i w. (w, g i))) w"
  by (rule task_safe_atomic) (simp add: effect_guar_def)

lemma ask_keeps: "keeps None sv (ask_adapter sv ctx candidate at) w"
  unfolding ask_adapter_def
  by (auto split: sum.split prod.split intro!: keeps_bind keeps_observe recovery_steps_keep)

lemma reconcile_candidate_keeps: "keeps None sv (reconcile_candidate sv ctx candidate at) w"
  unfolding reconcile_candidate_def
  by (auto split: option.split lost_dispatch_recovery.split sum.split lost_dispatch_adoption.split
        intro!: keeps_bind ask_keeps recovery_steps_keep)

lemma recovery_loop_keeps: "keeps None sv (recovery_loop sv ctx at report candidates) w"
  by (induction candidates arbitrary: report w)
     (auto split: option.split sum.split external_effect_recovery_error.split
        intro!: keeps_bind keeps_try_await reconcile_candidate_keeps recovery_steps_keep)

lemma sweep_keeps: "keeps None sv (sweep sv ctx at) w"
  unfolding sweep_def recovery_run_def by (intro keeps_try_await recovery_loop_keeps recovery_steps_keep)

lemma runs_step_ok:
  assumes ok: "world_ok sv w" and "store_ok db" and sub: "\<And>k. set (stream_events (ew_runs w) k) \<subseteq> set (stream_events db k)"
  shows "world_ok sv (w\<lparr>ew_runs := db\<rparr>)" "effect_guar l w (w\<lparr>ew_runs := db\<rparr>)"
proof -
  show adv: "effect_guar l w (w\<lparr>ew_runs := db\<rparr>)"
    using sub by (simp add: effect_guar_def world_advances_def)
  have "told sv (w\<lparr>ew_runs := db\<rparr>) x" if "x \<in> set (es_reconciliations (ew_effects w))" "xw_notified_at x \<noteq> None" for x
    using told_advances [OF _ that(1) _ _ adv [unfolded effect_guar_def]] ok that by (simp add: world_ok_def)
  then show "world_ok sv (w\<lparr>ew_runs := db\<rparr>)"
    using ok assms(2) by (simp add: world_ok_def)
qed

lemma keeps_on_runs:
  assumes "\<And>i dbe db x db'. store_ok db \<Longrightarrow> op i dbe db = Ok (x, db') \<Longrightarrow>
    store_ok db' \<and> (\<forall>k. set (stream_events db k) \<subseteq> set (stream_events db' k))"
  shows "keeps l sv (on_runs sv op) w"
proof -
  have "safely l sv (\<lambda>_ _. True) (on_runs sv op) w"
  proof (rule on_runs_safe)
    fix i dbe w' x db'
    assume ok: "world_ok sv w'" and op: "op i dbe (ew_runs w') = Ok (x, db')"
    have "store_ok (ew_runs w')"
      using ok by (simp add: world_ok_def)
    then show "world_ok sv (w'\<lparr>ew_runs := db'\<rparr>) \<and> effect_guar l w' (w'\<lparr>ew_runs := db'\<rparr>) \<and> True"
      using assms [OF _ op] runs_step_ok [OF ok, of db'] by blast
  qed
  then show ?thesis
    by (rule task_safe_weaken) simp
qed

lemma run_steps_keep:
  "keeps l sv (on_runs sv (\<lambda>i dbe db. read_only (op db) db)) w"
  "keeps l sv (on_runs sv (\<lambda>i dbe db. pg_commit dbe shw res db ctx run_id expected events projection)) w"
proof -
  show "keeps l sv (on_runs sv (\<lambda>i dbe db. read_only (op db) db)) w"
    by (rule keeps_on_runs) (auto simp: and_then_Ok_iff)
  show "keeps l sv (on_runs sv (\<lambda>i dbe db. pg_commit dbe shw res db ctx run_id expected events projection)) w"
  proof (rule keeps_on_runs)
    fix dbe db v db'
    assume "store_ok db" "pg_commit dbe shw res db ctx run_id expected events projection = Ok (v, db')"
    then show "store_ok db' \<and> (\<forall>k. set (stream_events db k) \<subseteq> set (stream_events db' k))"
      by (rule pg_commit_Ok) simp
  qed
qed

lemma execute_task_keeps: "keeps None sv (execute_task sv ctx command) w"
  unfolding execute_task_def
  by (auto split: sum.split prod.split intro!: keeps_try_await run_steps_keep)

lemma grant_step_keeps: "keeps None sv (grant_step sv call) w"
proof -
  have grants: "world_ok sv (w\<lparr>ew_grants := rows\<rparr>) \<longleftrightarrow> world_ok sv w" for w rows
    by (simp add: world_ok_def told_def)
  show ?thesis
    unfolding grant_step_def
    by (rule task_safe_atomic) (auto simp: effect_guar_def world_advances_def grants map_prod_def split: prod.split)
qed

section \<open>Delivering safely\<close>

text \<open>
  What a delivery pass found owed is on record, and stays so while others work.  Before a row is
  marked the event that tells its outcome is in the run's history.
\<close>

definition owes :: "request_context \<Rightarrow> effect_world \<Rightarrow> undelivered_row \<Rightarrow> bool"
  where "owes ctx w owed \<longleftrightarrow>
    (\<exists>x\<in>set (es_reconciliations (ew_effects w)). \<exists>i\<in>set (es_intents (ew_effects w)).
       xw_payload x = uw_reconciliation owed \<and> ir_payload i = uw_intent owed \<and>
       ir_id i = xw_effect_id x \<and> xw_workspace_id x = rc_workspace_id ctx)"

definition recounted :: "effect_service \<Rightarrow> request_context \<Rightarrow> effect_world \<Rightarrow> undelivered_row \<Rightarrow> bool"
  where "recounted sv ctx w owed \<longleftrightarrow>
    (\<forall>run_id. uo_run_id (owed_outcome sv owed) = Some run_id \<longrightarrow>
       (\<exists>e\<in>set (stream_events (ew_runs w) (rc_workspace_id ctx, run_id)).
          ee_payload e = Ev_ExternalEffectSettled (uo_effect_id (owed_outcome sv owed))
            (uo_receipt_id (owed_outcome sv owed)) (uo_outcome (owed_outcome sv owed))
            (uo_evidence_strength (owed_outcome sv owed))))"

lemma found_owes:
  assumes "owed \<in> set (find_undelivered_outcomes (ew_effects w) ctx limit)"
  shows "owes ctx w owed"
  using assms unfolding find_undelivered_outcomes_def owes_def
  by (auto dest!: in_set_takeD split: if_splits) blast

lemma owes_advances:
  assumes "owes ctx w owed" "world_advances A w w'"
  shows "owes ctx w' owed"
proof -
  obtain x i where x: "x \<in> set (es_reconciliations (ew_effects w))" "xw_payload x = uw_reconciliation owed"
      "xw_workspace_id x = rc_workspace_id ctx"
    and i: "i \<in> set (es_intents (ew_effects w))" "ir_payload i = uw_intent owed" "ir_id i = xw_effect_id x"
    using assms(1) unfolding owes_def by blast
  have "grows (ew_effects w) (ew_effects w')"
    using assms(2) by (simp add: world_advances_def)
  then obtain n where "x\<lparr>xw_notified_at := n\<rparr> \<in> set (es_reconciliations (ew_effects w'))" "i \<in> set (es_intents (ew_effects w'))"
    using x(1) i(1) unfolding grows_def by blast
  then show ?thesis
    unfolding owes_def using x i by (intro bexI [of _ "x\<lparr>xw_notified_at := n\<rparr>"] bexI [of _ i]) simp_all
qed

lemma recounted_advances: "recounted sv ctx w owed \<Longrightarrow> world_advances A w w' \<Longrightarrow> recounted sv ctx w' owed"
  unfolding recounted_def world_advances_def by blast


lemma append_outcome_safe:
  "safely None sv (\<lambda>_ w'. uo_run_id (owed_outcome sv owed) = Some run_id \<longrightarrow> recounted sv ctx w' owed)
     (append_outcome sv ctx run_id (owed_outcome sv owed) at) w"
proof -
  have "safely None sv (\<lambda>_ w'. uo_run_id (owed_outcome sv owed) = Some run_id \<longrightarrow> recounted sv ctx w' owed)
      (on_runs sv (\<lambda>i dbe db. and_then (pg_append dbe db ctx run_id head
         [settled_envelope ctx run_id (owed_outcome sv owed) (in_id i) (in_second_id i) sequence at]) (\<lambda>(_, db'). Ok ((), db')))) w"
    for head sequence w
  proof (rule on_runs_safe)
    fix i dbe w' x db'
    let ?e = "settled_envelope ctx run_id (owed_outcome sv owed) (in_id i) (in_second_id i) sequence at"
    assume ok: "world_ok sv w'"
      and op: "and_then (pg_append dbe (ew_runs w') ctx run_id head [?e]) (\<lambda>(_, db'). Ok ((), db')) = Ok (x, db')"
    obtain v where v: "pg_append dbe (ew_runs w') ctx run_id head [?e] = Ok (v, db')"
      using op by (auto simp: and_then_Ok_iff)
    have store: "store_ok (ew_runs w')"
      using ok by (simp add: world_ok_def)
    note app = pg_append_Ok [OF store v]
    have "recounted sv ctx (w'\<lparr>ew_runs := db'\<rparr>) owed" if "uo_run_id (owed_outcome sv owed) = Some run_id"
      unfolding recounted_def using that app(2) by (auto simp: settled_envelope_def Let_def)
    moreover have "set (stream_events (ew_runs w') k) \<subseteq> set (stream_events db' k)" for k
      using app(2) by simp
    ultimately show "world_ok sv (w'\<lparr>ew_runs := db'\<rparr>) \<and> effect_guar None w' (w'\<lparr>ew_runs := db'\<rparr>) \<and>
        (uo_run_id (owed_outcome sv owed) = Some run_id \<longrightarrow> recounted sv ctx (w'\<lparr>ew_runs := db'\<rparr>) owed)"
      using runs_step_ok [OF ok app(1)] by blast
  qed
  then show ?thesis
    unfolding append_outcome_def
    by (intro task_safe_try_await [OF run_steps_keep(1)])
      (auto split: sum.split prod.split simp: task_safe_simps)
qed

lemma owed_row_told:
  assumes eok: "effects_ok (ew_effects w)" "effects_ok es'" and grows: "grows (ew_effects w) es'"
    and y: "y \<in> set (es_reconciliations (ew_effects w))" "xw_id y = uo_reconciliation_id (owed_outcome sv owed)"
      "xw_workspace_id y = rc_workspace_id ctx"
    and owes: "owes ctx w owed" and told: "recounted sv ctx w owed"
  shows "told sv (w\<lparr>ew_effects := es'\<rparr>) (y\<lparr>xw_notified_at := n\<rparr>)"
proof -
  obtain x i where x: "x \<in> set (es_reconciliations (ew_effects w))" "xw_payload x = uw_reconciliation owed"
    and i: "i \<in> set (es_intents (ew_effects w))" "ir_payload i = uw_intent owed" "ir_id i = xw_effect_id x"
    using owes unfolding owes_def by blast
  note rows = eok(1) [unfolded effects_ok_def reconciliations_ok_def, THEN conjunct2, THEN conjunct2, THEN conjunct1]
  have "xw_id x = xw_id y"
    using rows x y(2) by (auto simp: owed_outcome_def Let_def)
  then have "x = y"
    using rows x(1) y(1) by (auto simp: distinct_map dest: inj_onD)
  then have event: "Ev_ExternalEffectSettled (uo_effect_id (owed_outcome sv owed)) (uo_receipt_id (owed_outcome sv owed))
      (uo_outcome (owed_outcome sv owed)) (uo_evidence_strength (owed_outcome sv owed)) = settled_event y"
    and run: "uo_run_id (owed_outcome sv owed) = execution_run_id (sv_parse_uuid sv) (ir_payload i)"
    using rows x i(2) by (auto simp: owed_outcome_def Let_def settled_event_def)
  have "j = i" if "j \<in> set (es_intents es')" "ir_id j = xw_effect_id y" for j
    using effect_intent_unique [OF eok(2) that(1)] grows i \<open>x = y\<close> that(2) by (auto simp: grows_def)
  then show ?thesis
    using told y(3) unfolding told_def recounted_def event run by (auto simp: settled_event_def)
qed

lemma marked_step_ok:
  assumes ok: "world_ok sv w" and ev: "evolves (\<lambda>t. tr_cause t = OutcomeDelivered) (ew_effects w) es'"
    and rows: "es_reconciliations es' =
      map (\<lambda>y. if xw_id y = uo_reconciliation_id (owed_outcome sv owed) \<and> xw_workspace_id y = rc_workspace_id ctx \<and>
                 xw_notified_at y = None
               then y\<lparr>xw_notified_at := Some n\<rparr> else y) (es_reconciliations (ew_effects w))"
    and owes: "owes ctx w owed" and told: "recounted sv ctx w owed"
  shows "world_ok sv (w\<lparr>ew_effects := es'\<rparr>) \<and> effect_guar None w (w\<lparr>ew_effects := es'\<rparr>)"
proof -
  let ?w = "w\<lparr>ew_effects := es'\<rparr>"
  have order: "dispatch_order es'"
    by (rule order_kept [OF ev]) (use ok in \<open>auto simp: world_ok_def\<close>)
  have adv: "effect_guar None w ?w"
    using ev by (auto simp: effect_guar_def world_advances_def evolves_def list_all_iff performing_def)
  have eok: "effects_ok (ew_effects w)" "effects_ok es'"
    using ok ev by (simp_all add: world_ok_def evolves_def)
  have "told sv ?w x" if x: "x \<in> set (es_reconciliations es')" "xw_notified_at x \<noteq> None" for x
  proof (cases "x \<in> set (es_reconciliations (ew_effects w))")
    case True
    then show ?thesis
      using told_advances [OF _ True eok(1) _ adv [unfolded effect_guar_def]] ok eok(2) x(2)
      by (simp add: world_ok_def)
  next
    case False
    obtain y where y: "y \<in> set (es_reconciliations (ew_effects w))" "x = y\<lparr>xw_notified_at := Some n\<rparr>"
        "xw_id y = uo_reconciliation_id (owed_outcome sv owed)" "xw_workspace_id y = rc_workspace_id ctx"
      using x(1) False unfolding rows by (auto split: if_splits)
    have "told sv ?w x"
      using owed_row_told [OF eok _ y(1,3,4) owes told] ev unfolding y(2) by (simp add: evolves_def)
    then show ?thesis .
  qed
  moreover have "on_record sv es' c" if "c \<in> set (ew_calls w)" for c
    using ok ev that record_grows(4) by (auto simp: world_ok_def evolves_def)
  ultimately show ?thesis
    using ok eok(2) order adv by (simp add: world_ok_def)
qed

lemma mark_safe:
  assumes owes: "owes ctx w owed" and told: "recounted sv ctx w owed"
  shows "keeps None sv (on_effects sv (\<lambda>tx es. written (mark_outcome_delivered tx es ctx
           (uo_reconciliation_id (owed_outcome sv owed)) at))) w"
proof -
  let ?id = "uo_reconciliation_id (owed_outcome sv owed)"
  have "safely None sv (\<lambda>_ _. True) (on_effects sv (\<lambda>tx es. written (mark_outcome_delivered tx es ctx ?id at))) w"
  proof (rule on_effects_safe)
    fix tx w' u es'
    assume rely: "effect_rely None w w'" and ok: "world_ok sv w'"
      and op: "written (mark_outcome_delivered tx (ew_effects w') ctx ?id at) = Ok (u, es')"
    have eok: "effects_ok (ew_effects w')"
      using ok by (simp add: world_ok_def)
    have mk: "mark_outcome_delivered tx (ew_effects w') ctx ?id at = Ok es'"
      using op by (auto simp: and_then_Ok_iff)
    note mark = mark_outcome_delivered_Ok [OF eok mk]
    show "world_ok sv (w'\<lparr>ew_effects := es'\<rparr>) \<and> effect_guar None w' (w'\<lparr>ew_effects := es'\<rparr>) \<and> True"
      using marked_step_ok [OF ok mark] owes_advances [OF owes] recounted_advances [OF told] rely
      unfolding effect_rely_def by blast
  qed
  then show ?thesis
    by (rule task_safe_weaken) simp
qed

lemma owes_frame:
  assumes "task_safe (effect_rely None) (effect_guar None) (world_ok sv) Q t w" "list_all (owes ctx w) owed"
  shows "task_safe (effect_rely None) (effect_guar None) (world_ok sv) (\<lambda>x w. Q x w \<and> list_all (owes ctx w) owed) t w"
proof (rule task_safe_frame [where S = "\<lambda>w. list_all (owes ctx w) owed", OF assms])
  show "effect_rely None w w' \<Longrightarrow> list_all (owes ctx w) owed \<Longrightarrow> list_all (owes ctx w') owed"
    "effect_guar None w w' \<Longrightarrow> list_all (owes ctx w) owed \<Longrightarrow> list_all (owes ctx w') owed" for w w'
    unfolding effect_rely_def effect_guar_def list_all_iff by (blast intro: owes_advances)+
qed

lemma delivery_loop_keeps:
  assumes "list_all (owes ctx w) owed"
  shows "keeps None sv (delivery_loop sv ctx at report owed) w"
  using assms
proof (induction owed arbitrary: report w)
  case (Cons o1 owed)
  have marked: "keeps None sv (try_await (on_effects sv (\<lambda>tx es. written (mark_outcome_delivered tx es ctx
      (uo_reconciliation_id (owed_outcome sv o1)) at))) (\<lambda>_. delivery_loop sv ctx at report' owed)) w'"
    if "recounted sv ctx w' o1" "list_all (owes ctx w') (o1 # owed)" for w' report'
    by (rule task_safe_try_await [OF owes_frame [OF mark_safe [OF _ that(1)], of ctx owed]])
      (use that(2) Cons.IH in simp_all)
  show ?case
  proof (cases "uo_run_id (owed_outcome sv o1)")
    case None
    then show ?thesis
      using marked [of w] Cons.prems by (simp add: recounted_def)
  next
    case (Some run_id)
    note append = owes_frame [OF append_outcome_safe [of sv o1 run_id ctx at w] Cons.prems]
    show ?thesis
      unfolding delivery_loop.simps Let_def Some option.case
      by (rule task_safe_bind [OF append])
        (use marked Cons.IH Some in \<open>auto split: sum.split\<close>)
  qed
qed simp

lemma deliver_keeps: "keeps None sv (deliver_once sv ctx at) w"
proof -
  have "safely None sv (\<lambda>owed w'. list_all (owes ctx w') owed)
      (on_effects sv (\<lambda>tx es. Ok (find_undelivered_outcomes es ctx delivery_batch, es))) w"
    by (rule on_effects_safe) (auto simp: effect_guar_def list_all_iff intro: found_owes)
  then show ?thesis
    unfolding deliver_once_def by (rule task_safe_try_await) (auto intro: delivery_loop_keeps)
qed

section \<open>All of them together\<close>

text \<open>
  From tables without effects, any number of tasks may run in any interleaving.  A process that dies is a task that is not
  resumed any more.  The only demand is that each intent is performed by one request.
\<close>

definition fresh_world :: "effect_world \<Rightarrow> bool"
  where "fresh_world w \<longleftrightarrow> ew_effects w = empty_effect_store \<and> ew_calls w = [] \<and> store_ok (ew_runs w)"

definition performed_once :: "effect_job list \<Rightarrow> bool"
  where "performed_once jobs \<longleftrightarrow> distinct (filter (\<lambda>l. l \<noteq> None) (map job_label jobs))"

lemma fresh_world_ok: "fresh_world w \<Longrightarrow> world_ok sv w"
  by (simp add: fresh_world_def world_ok_def dispatch_order_def) (simp add: empty_effect_store_def)

lemma job_keeps:
  assumes "fresh_world w"
  shows "keeps (job_label job) sv (job_task sv job) w"
proof (cases job)
  case (Job_Perform ctx intent descriptor at)
  have "undispatched (ei_id intent) w" "uncalled (ei_id intent) w"
    using assms by (simp_all add: fresh_world_def undispatched_def uncalled_def empty_effect_store_def)
  then show ?thesis
    unfolding Job_Perform job_label.simps job_task.simps by (rule safely_forget [OF perform_safe])
qed (simp_all add: keeps_bind sweep_keeps deliver_keeps execute_task_keeps recovery_steps_keep(4,5) grant_step_keeps)

lemma schedule_world_ok:
  assumes "fresh_world w" "performed_once jobs" "run_schedule schedule (w, map (job_task sv) jobs) = (w', ts)"
  shows "world_ok sv w'"
  using effects.schedule_safe [OF fresh_world_ok [OF assms(1)] _ _ assms(3), of sv "map job_label jobs"] job_keeps [OF assms(1)] assms(2)
  by (simp add: list_all2_conv_all_nth performed_once_def)

text \<open>
  C5: no effect happens off the record.  However requests, recovery sweeps, delivery passes, run
  commands and grant changes interleave, whichever database calls fail or lose their reply and whichever task stops half way:
  every call that reached an adapter has its intent, an authorization that allows exactly that operation on
  that target and the dispatch with its owner and deadline in the tables, and no effect was called twice.
\<close>

theorem every_call_is_on_record:
  assumes "fresh_world w" "performed_once jobs" "run_schedule schedule (w, map (job_task sv) jobs) = (w', ts)"
  shows "distinct (map ei_id (ew_calls w')) \<and>
    (\<forall>c\<in>set (ew_calls w'). intent_on_record (ew_effects w') c \<and> allowed_on_record (ew_effects w') c \<and>
       dispatch_on_record sv (ew_effects w') c)"
  using schedule_world_ok [OF assms] by (simp add: world_ok_def on_record_def)

text \<open>
  C6: no effect is lost.  In every world the services reach, with every request performing an effect
  of its own, an effect of the workspace that was called has a receipt that says it failed, or a
  reconciliation that settled it, or recovery finds it once the cutoffs of its query have passed what
  is on record and its limit is large enough.
\<close>

theorem no_call_is_lost:
  assumes "fresh_world w" "performed_once jobs" "run_schedule schedule (w, map (job_task sv) jobs) = (w', ts)"
    and "c \<in> set (ew_calls w')" "ei_workspace_id c = rc_workspace_id ctx"
    and "after_record (ew_effects w') (query_cutoffs tx u f d)"
    and "length (receipt_candidates (ew_effects w') (query_cutoffs tx u f d) (rc_workspace_id ctx)) +
      length (dispatch_candidates (ew_effects w') (query_cutoffs tx u f d) (rc_workspace_id ctx)) \<le> limit"
  shows "(\<exists>r\<in>set (es_receipts (ew_effects w')). pr_effect_id r = ei_id c \<and> pr_outcome_status r = Effect_Failed) \<or>
    (\<exists>x\<in>set (es_reconciliations (ew_effects w')). xw_effect_id x = ei_id c \<and> reconciliation_outcome_is_settled (xw_outcome x)) \<or>
    (\<exists>cs. find_reconciliation_candidates tx (ew_effects w') ctx u f d limit = Ok cs \<and>
       (\<exists>v\<in>set cs. ei_id (rv_intent v) = ei_id c))"
proof -
  have ok: "effects_ok (ew_effects w')" "dispatch_order (ew_effects w')" "on_record sv (ew_effects w') c"
    using schedule_world_ok [OF assms(1-3)] assms(4) by (simp_all add: world_ok_def)
  then obtain t where "t \<in> set (es_transitions (ew_effects w'))" "tr_effect_id t = ei_id c" "tr_status t = Effect_Dispatching"
      "tr_workspace_id t = rc_workspace_id ctx"
    using assms(5) by (auto simp: on_record_def dispatch_on_record_def)
  then show ?thesis
    using dispatched_is_found [OF ok(1,2) _ _ _ assms(6,7), of t] by simp
qed

text \<open>
  C7: an outcome that is marked as delivered has been told.  In every world the services reach, with
  every request performing an effect of its own, when the effect was asked for by a run, the history
  of that run holds the event with the effect, the receipt, the outcome and the strength of its
  evidence.
\<close>

theorem delivered_outcome_is_told:
  assumes "fresh_world w" "performed_once jobs" "run_schedule schedule (w, map (job_task sv) jobs) = (w', ts)"
    and "x \<in> set (es_reconciliations (ew_effects w'))" "xw_notified_at x \<noteq> None"
    and "i \<in> set (es_intents (ew_effects w'))" "ir_id i = xw_effect_id x"
    and "execution_run_id (sv_parse_uuid sv) (ir_payload i) = Some run_id"
  shows "\<exists>e\<in>set (stream_events (ew_runs w') (xw_workspace_id x, run_id)).
    ee_payload e = Ev_ExternalEffectSettled (xw_effect_id x) (xw_receipt_id x) (xw_outcome x) (xw_evidence_strength x)"
  using schedule_world_ok [OF assms(1-3)] assms(4-8) unfolding world_ok_def told_def settled_event_def by blast

section \<open>A concrete day\<close>

text \<open>
  A request performs an effect for a run and dies after the adapter was called, a sweep finds the lost
  dispatch and asks the adapter, and a delivery pass tells the run.
\<close>

definition run_effect :: external_effect_intent
  where "run_effect = sample_effect\<lparr>ei_execution_ref := ''run://6'', ei_target := ''memory://0198'',
    ei_required_capability := MemoryWrite, ei_operation := ''memory.write''\<rparr>"

definition sample_descriptor :: external_effect_adapter_descriptor
  where "sample_descriptor =
    \<lparr> ad_name = ''mail'', ad_dispatch_timeout = Some 1000, ad_delivery_semantics = AtMostOnce,
      ad_idempotency_profile = Idempotency_None, ad_reversibility = Irreversible, ad_dry_run = Unsupported,
      ad_supports_reconciliation = True, ad_supports_read_back = True, ad_required_capability = MemoryWrite \<rparr>"

definition sample_service :: effect_service
  where "sample_service =
    \<lparr> sv_postgres = sample_postgres, sv_environment = sample_environment, sv_workspaces = {3}, sv_show_uuid = (\<lambda>_. []),
      sv_parse_uuid = (\<lambda>s. if s = ''6'' then Some 6 else None), sv_engine = stored_decide ''v1'', sv_dispatch_owner = 50,
      sv_read_backs = [''mail'' \<mapsto> sample_descriptor] \<rparr>"

definition created_history :: "legacy_run_event_envelope list"
  where "created_history = [sample_event 1 (Ev_Created 4 ''Nightly report'')]"

definition sample_world :: effect_world
  where "sample_world =
    \<lparr> ew_effects = empty_effect_store, ew_runs = sample_store created_history, ew_grants = [grant_row_of sample_grant],
      ew_calls = [] \<rparr>"

definition sample_input :: "uuid \<Rightarrow> timestamp \<Rightarrow> effect_input"
  where "sample_input u now =
    \<lparr> in_fault = Db_Works, in_random_uuid = u, in_now = now, in_id = u, in_second_id = u + 100,
      in_reply = Err Adapter_Timeout,
      in_observed = Ok [\<lparr> os_evidence_strength = ExternalResourceReadBack, os_effect_applied = Some True,
        os_state_ref = ''state'', os_evidence_refs = [''read-back''] \<rparr>] \<rparr>"

definition sample_jobs :: "effect_job list"
  where "sample_jobs =
    [Job_Perform effect_context run_effect sample_descriptor 2000, Job_Sweep effect_context (2 * 10 ^ 11),
     Job_Deliver effect_context (3 * 10 ^ 11)]"

definition sample_schedule :: "(nat \<times> effect_input) list"
  where "sample_schedule =
    [(0, sample_input 60 15), (0, sample_input 61 15), (0, sample_input 62 15), (0, sample_input 63 15),
     (0, sample_input 64 15),
     (1, sample_input 65 16), (1, sample_input 66 16), (1, sample_input 67 16), (1, sample_input 68 16),
     (2, sample_input 69 17), (2, sample_input 70 17), (2, sample_input 71 17), (2, sample_input 72 17)]"



definition sample_day :: "nat \<Rightarrow> effect_world \<times> (effect_input, effect_world, unit) task list"
  where "sample_day n = run_schedule (take n sample_schedule) (sample_world, map (job_task sample_service) sample_jobs)"

lemma sample_world_fresh: "fresh_world sample_world"
proof -
  have "store_ok (sample_store created_history)"
    by (rule sample_store_ok) (auto simp: created_history_def sample_event_def metadata_fits_def event_version_def)
  then show ?thesis
    by (simp add: fresh_world_def sample_world_def)
qed

lemma sample_jobs_once: "performed_once sample_jobs"
  by (simp add: performed_once_def sample_jobs_def)

text \<open>After the adapter was called; the request goes no further.\<close>

definition late_cutoffs :: cutoffs
  where "late_cutoffs = query_cutoffs sample_tx (10 ^ 12) (10 ^ 12) (10 ^ 12)"

lemma sample_called:
  "case sample_day 5 of (w, ts) \<Rightarrow> ew_calls w = [run_effect] \<and> after_record (ew_effects w) late_cutoffs \<and>
     length (receipt_candidates (ew_effects w) late_cutoffs 3) + length (dispatch_candidates (ew_effects w) late_cutoffs 3) \<le> 8 \<and>
     es_receipts (ew_effects w) = [] \<and> es_reconciliations (ew_effects w) = []"
  by code_simp

text \<open>After the delivery pass.\<close>

lemma sample_delivered:
  "case sample_day 13 of (w, ts) \<Rightarrow>
     (case (es_reconciliations (ew_effects w), es_intents (ew_effects w)) of
        ([x], [i]) \<Rightarrow> xw_notified_at x \<noteq> None \<and> ir_id i = xw_effect_id x \<and> xw_workspace_id x = 3 \<and>
          execution_run_id (sv_parse_uuid sample_service) (ir_payload i) = Some 6
      | _ \<Rightarrow> False)"
  by code_simp

theorem effect_jobs_end_witness:
  "snd (run_schedule (replicate 6 (0, sample_input 60 15) @ replicate 33 (1, sample_input 70 16))
     (sample_world, map (job_task sample_service) sample_jobs)) ! 1 = Done ()"
proof -
  let ?schedule = "replicate 6 (0, sample_input 60 15) @ replicate 33 (1, sample_input 70 16)"
  obtain w' ts where run: "run_schedule ?schedule (sample_world, map (job_task sample_service) sample_jobs) = (w', ts)"
    by (meson surj_pair)
  have "job_steps (sample_jobs ! 1) \<le> length (filter (\<lambda>(m, i). m = 1) ?schedule)"
    by (simp add: sample_jobs_def reconciliation_batch_def)
  then show ?thesis
    using effect_jobs_end [OF run, of 1] run by (simp add: sample_jobs_def reconciliation_batch_def)
qed

theorem every_call_is_on_record_witness:
  "\<exists>w ts. sample_day 5 = (w, ts) \<and> ew_calls w = [run_effect] \<and> intent_on_record (ew_effects w) run_effect \<and>
     allowed_on_record (ew_effects w) run_effect \<and> dispatch_on_record sample_service (ew_effects w) run_effect"
proof -
  obtain w ts where day: "sample_day 5 = (w, ts)"
    by (meson surj_pair)
  then show ?thesis
    using sample_called every_call_is_on_record [OF sample_world_fresh sample_jobs_once day [unfolded sample_day_def]] by auto
qed

theorem no_call_is_lost_witness:
  "\<exists>w ts cs. sample_day 5 = (w, ts) \<and>
     find_reconciliation_candidates sample_tx (ew_effects w) effect_context (10 ^ 12) (10 ^ 12) (10 ^ 12) 8 = Ok cs \<and>
     (\<exists>v\<in>set cs. ei_id (rv_intent v) = 20)"
proof -
  obtain w ts where day: "sample_day 5 = (w, ts)"
    by (meson surj_pair)
  have called: "ew_calls w = [run_effect]" "after_record (ew_effects w) late_cutoffs"
      "length (receipt_candidates (ew_effects w) late_cutoffs 3) + length (dispatch_candidates (ew_effects w) late_cutoffs 3) \<le> 8"
      "es_receipts (ew_effects w) = []" "es_reconciliations (ew_effects w) = []"
    using sample_called day by auto
  have ids: "ei_workspace_id run_effect = rc_workspace_id effect_context" "ei_id run_effect = 20" "rc_workspace_id effect_context = 3"
    by (simp_all add: run_effect_def sample_effect_def effect_context_def)
  have "run_effect \<in> set (ew_calls w)"
    using called(1) by simp
  from no_call_is_lost [OF sample_world_fresh sample_jobs_once day [unfolded sample_day_def] this ids(1)
      called(2,3) [unfolded late_cutoffs_def ids(3) [symmetric]]]
  show ?thesis
    using day called(4,5) ids(2) by auto
qed

theorem delivered_outcome_is_told_witness:
  "\<exists>w ts x. sample_day 13 = (w, ts) \<and> es_reconciliations (ew_effects w) = [x] \<and>
     (\<exists>e\<in>set (stream_events (ew_runs w) (3, 6)). ee_payload e = Ev_ExternalEffectSettled (xw_effect_id x) (xw_receipt_id x)
        (xw_outcome x) (xw_evidence_strength x))"
proof -
  obtain w ts where day: "sample_day 13 = (w, ts)"
    by (meson surj_pair)
  then obtain x i where rows: "es_reconciliations (ew_effects w) = [x]" "es_intents (ew_effects w) = [i]"
      "xw_notified_at x \<noteq> None" "ir_id i = xw_effect_id x" "xw_workspace_id x = 3"
      "execution_run_id (sv_parse_uuid sample_service) (ir_payload i) = Some 6"
    using sample_delivered by (auto split: list.splits)
  have mem: "x \<in> set (es_reconciliations (ew_effects w))" "i \<in> set (es_intents (ew_effects w))"
    using rows(1,2) by simp_all
  show ?thesis
    using delivered_outcome_is_told [OF sample_world_fresh sample_jobs_once day [unfolded sample_day_def] mem(1) rows(3) mem(2) rows(4,6)]
      day rows(1,5) by auto
qed

end
