(* ===== verification/Byte_Codec.thy ===== *)
theory Byte_Codec
  imports Rust_Text
begin

text \<open>
  Canonical bytes: big-endian integers, length-prefixed fields, and the cursor over a byte
  slice that the decoders of \<^verbatim>\<open>backup_archive.rs\<close>, \<^verbatim>\<open>restore_cutover.rs\<close> and
  \<^verbatim>\<open>installation_safety.rs\<close> share in shape.  The decoders differ in the error they return,
  which is the first argument here.  An encoder with its decoder is an interface of its own.
\<close>

type_synonym byte = "8 word"
type_synonym digest = "256 word"

section \<open>Big-endian integers\<close>

fun be_bytes :: "nat \<Rightarrow> nat \<Rightarrow> byte list"
  where
    "be_bytes 0 v = []"
  | "be_bytes (Suc n) v = be_bytes n (v div 256) @ [word_of_nat v]"

definition be_value :: "byte list \<Rightarrow> nat"
  where "be_value bs = foldl (\<lambda>v b. v * 256 + unat b) 0 bs"

definition u32_bytes :: "u32 \<Rightarrow> byte list"
  where "u32_bytes w = be_bytes 4 (unat w)"

definition u64_bytes :: "u64 \<Rightarrow> byte list"
  where "u64_bytes w = be_bytes 8 (unat w)"

definition uuid_bytes :: "uuid \<Rightarrow> byte list"
  where "uuid_bytes w = be_bytes 16 (unat w)"

definition digest_bytes :: "digest \<Rightarrow> byte list"
  where "digest_bytes w = be_bytes 32 (unat w)"

definition bool_byte :: "bool \<Rightarrow> byte"
  where "bool_byte b = (if b then 1 else 0)"

definition length_bytes :: "nat \<Rightarrow> byte list"
  where "length_bytes n = u64_bytes (word_of_nat n)"

definition field :: "byte list \<Rightarrow> byte list"
  where "field bs = length_bytes (length bs) @ bs"

definition ascii :: "string \<Rightarrow> byte list"
  where "ascii s = map (\<lambda>c. word_of_nat (of_char c)) s"

section \<open>The cursor\<close>

record decoder =
  dec_bytes :: "byte list"
  dec_offset :: nat

definition decoder_new :: "byte list \<Rightarrow> decoder"
  where "decoder_new bs = \<lparr> dec_bytes = bs, dec_offset = 0 \<rparr>"

text \<open>
  \<^verbatim>\<open>offset.checked_add(length)\<close> and \<^verbatim>\<open>bytes.get(offset..end)\<close> fail with the same error, and a
  slice is shorter than \<^verbatim>\<open>usize::MAX\<close>, so one comparison of unbounded numbers decides both.
\<close>

definition take_bytes :: "'e \<Rightarrow> decoder \<Rightarrow> nat \<Rightarrow> ('e, byte list \<times> decoder) result"
  where "take_bytes malformed d n =
    (if dec_offset d + n \<le> length (dec_bytes d)
     then Ok (take n (drop (dec_offset d) (dec_bytes d)), d\<lparr>dec_offset := dec_offset d + n\<rparr>)
     else Err malformed)"

definition read_word :: "'e \<Rightarrow> nat \<Rightarrow> decoder \<Rightarrow> ('e, 'w::len word \<times> decoder) result"
  where "read_word malformed n d =
    and_then (take_bytes malformed d n) (\<lambda>(bs, d'). Ok (word_of_nat (be_value bs), d'))"

definition read_u8 :: "'e \<Rightarrow> decoder \<Rightarrow> ('e, u8 \<times> decoder) result"
  where "read_u8 malformed d = and_then (take_bytes malformed d 1) (\<lambda>(bs, d'). Ok (hd bs, d'))"

definition read_u32 :: "'e \<Rightarrow> decoder \<Rightarrow> ('e, u32 \<times> decoder) result"
  where "read_u32 malformed d = read_word malformed 4 d"

definition read_u64 :: "'e \<Rightarrow> decoder \<Rightarrow> ('e, u64 \<times> decoder) result"
  where "read_u64 malformed d = read_word malformed 8 d"

definition read_bool :: "'e \<Rightarrow> decoder \<Rightarrow> ('e, bool \<times> decoder) result"
  where "read_bool malformed d =
    and_then (read_u8 malformed d) (\<lambda>(b, d').
    if b = 0 then Ok (False, d') else if b = 1 then Ok (True, d') else Err malformed)"

text \<open>\<^verbatim>\<open>usize\<close> is 64 bits wide, so \<^verbatim>\<open>usize::try_from\<close> accepts every \<^verbatim>\<open>u64\<close>.\<close>

definition read_usize :: "'e \<Rightarrow> decoder \<Rightarrow> ('e, nat \<times> decoder) result"
  where "read_usize malformed d = and_then (read_u64 malformed d) (\<lambda>(w, d'). Ok (unat w, d'))"

definition read_uuid :: "'e \<Rightarrow> decoder \<Rightarrow> ('e, uuid \<times> decoder) result"
  where "read_uuid malformed d = read_word malformed 16 d"

definition read_digest :: "'e \<Rightarrow> decoder \<Rightarrow> ('e, digest \<times> decoder) result"
  where "read_digest malformed d = read_word malformed 32 d"

definition read_field :: "'e \<Rightarrow> decoder \<Rightarrow> ('e, byte list \<times> decoder) result"
  where "read_field malformed d =
    and_then (read_usize malformed d) (\<lambda>(n, d'). take_bytes malformed d' n)"

definition read_domain :: "'e \<Rightarrow> byte list \<Rightarrow> decoder \<Rightarrow> ('e, decoder) result"
  where "read_domain malformed expected d =
    and_then (read_field malformed d) (\<lambda>(bs, d'). if bs = expected then Ok d' else Err malformed)"

definition finish_decoder :: "'e \<Rightarrow> decoder \<Rightarrow> ('e, unit) result"
  where "finish_decoder malformed d =
    (if dec_offset d = length (dec_bytes d) then Ok () else Err malformed)"

text \<open>A fixed-width array read from a length-prefixed field, as \<^verbatim>\<open>restore_cutover.rs\<close> does.\<close>

definition read_field_word :: "'e \<Rightarrow> nat \<Rightarrow> decoder \<Rightarrow> ('e, 'w::len word \<times> decoder) result"
  where "read_field_word malformed n d =
    and_then (read_field malformed d) (\<lambda>(bs, d').
    if length bs = n then Ok (word_of_nat (be_value bs), d') else Err malformed)"

section \<open>Integers, proved\<close>

lemma length_be_bytes [simp]: "length (be_bytes n v) = n"
  by (induction n arbitrary: v) simp_all

lemma be_value_snoc [simp]: "be_value (bs @ [b]) = be_value bs * 256 + unat b"
  by (simp add: be_value_def)

lemma be_value_Nil [simp]: "be_value [] = 0"
  by (simp add: be_value_def)

lemma unat_byte: "unat (word_of_nat v :: byte) = v mod 256"
  by (simp add: unsigned_of_nat take_bit_eq_mod)

lemma be_value_be_bytes: "be_value (be_bytes n v) = v mod 256 ^ n"
proof (induction n arbitrary: v)
  case 0
  then show ?case by simp
next
  case (Suc n)
  then show ?case
    by (simp add: unat_byte mod_mult2_eq)
qed

lemma be_bytes_be_value: "be_bytes (length bs) (be_value bs) = bs"
proof (induction bs rule: rev_induct)
  case Nil
  then show ?case by simp
next
  case (snoc b bs)
  have small: "unat b < 256"
    using unsigned_less [of b, where ?'a = nat] by simp
  have "unat (word_of_nat (be_value bs * 256 + unat b) :: byte) = unat b"
    unfolding unat_byte using small by simp
  then have low: "word_of_nat (be_value bs * 256 + unat b) = b"
    by (simp only: word_unat_eq_iff)
  show ?case
    using snoc small by (simp add: low del: of_nat_add of_nat_mult)
qed

lemma be_word_roundtrip:
  fixes w :: "'w::len word"
  assumes "256 ^ n = (2 :: nat) ^ LENGTH('w)"
  shows "word_of_nat (be_value (be_bytes n (unat w))) = w"
  using assms unsigned_less [of w, where ?'a = nat] by (simp add: be_value_be_bytes)

lemma be_bytes_inj: "v < 256 ^ n \<Longrightarrow> w < 256 ^ n \<Longrightarrow> be_bytes n v = be_bytes n w \<longleftrightarrow> v = w"
  by (metis be_value_be_bytes mod_less)

lemma width_bytes [simp]:
  "length (u32_bytes a) = 4" "length (u64_bytes b) = 8" "length (uuid_bytes c) = 16"
  "length (digest_bytes d) = 32" "length (length_bytes n) = 8"
  by (simp_all add: u32_bytes_def u64_bytes_def uuid_bytes_def digest_bytes_def length_bytes_def)

lemma length_field [simp]: "length (field bs) = 8 + length bs"
  by (simp add: field_def)

section \<open>The cursor, proved\<close>

text \<open>A cursor that has read \<^verbatim>\<open>pre\<close> and has \<^verbatim>\<open>xs\<close> ahead.\<close>

definition reading :: "byte list \<Rightarrow> byte list \<Rightarrow> decoder"
  where "reading pre xs = \<lparr> dec_bytes = pre @ xs, dec_offset = length pre \<rparr>"

lemma decoder_new_reading: "decoder_new bs = reading [] bs"
  by (simp add: decoder_new_def reading_def)

named_theorems codec_simps

lemma take_reading [codec_simps]:
  "length ys = n \<Longrightarrow> take_bytes e (reading pre (ys @ zs)) n = Ok (ys, reading (pre @ ys) zs)"
  by (auto simp: take_bytes_def reading_def)

lemma read_word_reading:
  fixes w :: "'w::len word"
  assumes "256 ^ n = (2 :: nat) ^ LENGTH('w)"
  shows "read_word e n (reading pre (be_bytes n (unat w) @ zs)) = Ok (w, reading (pre @ be_bytes n (unat w)) zs)"
  by (simp add: read_word_def take_reading be_word_roundtrip [OF assms])

lemma read_u8_reading [codec_simps]: "read_u8 e (reading pre (b # zs)) = Ok (b, reading (pre @ [b]) zs)"
  using take_reading [of "[b]" 1 e pre zs] by (simp add: read_u8_def)

lemma read_u32_reading [codec_simps]:
  "read_u32 e (reading pre (u32_bytes w @ zs)) = Ok (w, reading (pre @ u32_bytes w) zs)"
  by (simp add: read_u32_def u32_bytes_def read_word_reading)

lemma read_u64_reading [codec_simps]:
  "read_u64 e (reading pre (u64_bytes w @ zs)) = Ok (w, reading (pre @ u64_bytes w) zs)"
  by (simp add: read_u64_def u64_bytes_def read_word_reading)

lemma read_uuid_reading [codec_simps]:
  "read_uuid e (reading pre (uuid_bytes w @ zs)) = Ok (w, reading (pre @ uuid_bytes w) zs)"
  by (simp add: read_uuid_def uuid_bytes_def read_word_reading)

lemma read_digest_reading [codec_simps]:
  "read_digest e (reading pre (digest_bytes w @ zs)) = Ok (w, reading (pre @ digest_bytes w) zs)"
  by (simp add: read_digest_def digest_bytes_def read_word_reading)

lemma read_bool_reading [codec_simps]:
  "read_bool e (reading pre (bool_byte b # zs)) = Ok (b, reading (pre @ [bool_byte b]) zs)"
  by (simp add: read_bool_def read_u8_reading bool_byte_def)

lemma read_usize_reading [codec_simps]:
  "n < 2 ^ 64 \<Longrightarrow> read_usize e (reading pre (length_bytes n @ zs)) = Ok (n, reading (pre @ length_bytes n) zs)"
  by (simp add: read_usize_def length_bytes_def read_u64_reading unsigned_of_nat take_bit_nat_eq_self)

lemma read_field_reading [codec_simps]:
  assumes "length bs < 2 ^ 64"
  shows "read_field e (reading pre (field bs @ zs)) = Ok (bs, reading (pre @ field bs) zs)"
  using assms by (simp add: read_field_def field_def read_usize_reading take_reading)

lemma read_domain_reading [codec_simps]:
  "length bs < 2 ^ 64 \<Longrightarrow> read_domain e bs (reading pre (field bs @ zs)) = Ok (reading (pre @ field bs) zs)"
  by (simp add: read_domain_def read_field_reading)

lemma finish_reading [codec_simps]: "finish_decoder e (reading pre zs) = (if zs = [] then Ok () else Err e)"
  by (simp add: finish_decoder_def reading_def)

lemma read_field_word_reading:
  fixes w :: "'w::len word"
  assumes "256 ^ n = (2 :: nat) ^ LENGTH('w)" "n < 2 ^ 64"
  shows "read_field_word e n (reading pre (field (be_bytes n (unat w)) @ zs)) =
    Ok (w, reading (pre @ field (be_bytes n (unat w))) zs)"
  using assms by (simp add: read_field_word_def read_field_reading be_word_roundtrip)

section \<open>Readers backwards\<close>

text \<open>
  What a reader accepts is what the encoder writes: each reader succeeds exactly on the encoding of
  its result, followed by whatever is left to read.
\<close>

named_theorems codec_iffs

lemma take_bytes_Ok_iff:
  "take_bytes e (reading pre xs) n = Ok (ys, d) \<longleftrightarrow>
     length ys = n \<and> (\<exists>zs. xs = ys @ zs \<and> d = reading (pre @ ys) zs)"
proof
  assume "take_bytes e (reading pre xs) n = Ok (ys, d)"
  then have "n \<le> length xs" "ys = take n xs" "d = (reading pre xs)\<lparr>dec_offset := length pre + n\<rparr>"
    by (auto simp: take_bytes_def reading_def split: if_splits)
  then show "length ys = n \<and> (\<exists>zs. xs = ys @ zs \<and> d = reading (pre @ ys) zs)"
    by (auto simp: reading_def intro!: exI [of _ "drop n xs"])
qed (auto simp: take_reading)

lemma be_value_bound: "be_value bs < 256 ^ length bs"
proof (induction bs rule: rev_induct)
  case Nil
  then show ?case by simp
next
  case (snoc b bs)
  have "unat b < 256"
    using unsigned_less [of b, where ?'a = nat] by simp
  then show ?case
    using snoc by simp
qed

lemma word_be_value:
  assumes "256 ^ length bs = (2 :: nat) ^ LENGTH('w)"
  shows "be_bytes (length bs) (unat (word_of_nat (be_value bs) :: 'w::len word)) = bs"
proof -
  have "unat (word_of_nat (be_value bs) :: 'w word) = be_value bs"
    using be_value_bound [of bs] assms by (simp add: unsigned_of_nat take_bit_nat_eq_self)
  then show ?thesis
    by (simp add: be_bytes_be_value)
qed

lemma read_word_Ok_iff:
  fixes w :: "'w::len word"
  assumes "256 ^ n = (2 :: nat) ^ LENGTH('w)"
  shows "read_word e n (reading pre xs) = Ok (w, d) \<longleftrightarrow>
    (\<exists>zs. xs = be_bytes n (unat w) @ zs \<and> d = reading (pre @ be_bytes n (unat w)) zs)"
proof
  assume "read_word e n (reading pre xs) = Ok (w, d)"
  then obtain bs zs where bs: "length bs = n" "w = word_of_nat (be_value bs)" "xs = bs @ zs"
      "d = reading (pre @ bs) zs"
    by (auto simp: read_word_def and_then_Ok_iff take_bytes_Ok_iff)
  then have "be_bytes n (unat w) = bs"
    using assms word_be_value [of bs, where 'w = 'w] by simp
  then show "\<exists>zs. xs = be_bytes n (unat w) @ zs \<and> d = reading (pre @ be_bytes n (unat w)) zs"
    using bs by blast
qed (auto simp: read_word_reading [OF assms])

lemma read_u8_Ok_iff [codec_iffs]:
  "read_u8 e (reading pre xs) = Ok (b, d) \<longleftrightarrow> (\<exists>zs. xs = b # zs \<and> d = reading (pre @ [b]) zs)"
  by (auto simp: read_u8_def and_then_Ok_iff take_bytes_Ok_iff length_Suc_conv)

lemma read_u32_Ok_iff [codec_iffs]:
  "read_u32 e (reading pre xs) = Ok (w, d) \<longleftrightarrow> (\<exists>zs. xs = u32_bytes w @ zs \<and> d = reading (pre @ u32_bytes w) zs)"
  by (simp add: read_u32_def u32_bytes_def read_word_Ok_iff)

lemma read_u64_Ok_iff [codec_iffs]:
  "read_u64 e (reading pre xs) = Ok (w, d) \<longleftrightarrow> (\<exists>zs. xs = u64_bytes w @ zs \<and> d = reading (pre @ u64_bytes w) zs)"
  by (simp add: read_u64_def u64_bytes_def read_word_Ok_iff)

lemma read_uuid_Ok_iff [codec_iffs]:
  "read_uuid e (reading pre xs) = Ok (w, d) \<longleftrightarrow> (\<exists>zs. xs = uuid_bytes w @ zs \<and> d = reading (pre @ uuid_bytes w) zs)"
  by (simp add: read_uuid_def uuid_bytes_def read_word_Ok_iff)

lemma read_digest_Ok_iff [codec_iffs]:
  "read_digest e (reading pre xs) = Ok (w, d) \<longleftrightarrow>
     (\<exists>zs. xs = digest_bytes w @ zs \<and> d = reading (pre @ digest_bytes w) zs)"
  by (simp add: read_digest_def digest_bytes_def read_word_Ok_iff)

lemma read_bool_Ok_iff [codec_iffs]:
  "read_bool e (reading pre xs) = Ok (b, d) \<longleftrightarrow>
     (\<exists>zs. xs = bool_byte b # zs \<and> d = reading (pre @ [bool_byte b]) zs)"
proof
  assume "read_bool e (reading pre xs) = Ok (b, d)"
  then show "\<exists>zs. xs = bool_byte b # zs \<and> d = reading (pre @ [bool_byte b]) zs"
    by (auto simp: read_bool_def and_then_Ok_iff read_u8_Ok_iff bool_byte_def split: if_splits)
qed (auto simp: read_bool_reading)

lemma read_usize_Ok_iff [codec_iffs]:
  "read_usize e (reading pre xs) = Ok (n, d) \<longleftrightarrow>
     n < 2 ^ 64 \<and> (\<exists>zs. xs = length_bytes n @ zs \<and> d = reading (pre @ length_bytes n) zs)"
proof
  assume "read_usize e (reading pre xs) = Ok (n, d)"
  then obtain w :: u64 and zs where w: "n = unat w" "xs = u64_bytes w @ zs" "d = reading (pre @ u64_bytes w) zs"
    by (auto simp: read_usize_def and_then_Ok_iff read_u64_Ok_iff)
  then have "n < 2 ^ 64" "length_bytes n = u64_bytes w"
    using unsigned_less [of w, where ?'a = nat] by (simp_all add: length_bytes_def)
  then show "n < 2 ^ 64 \<and> (\<exists>zs. xs = length_bytes n @ zs \<and> d = reading (pre @ length_bytes n) zs)"
    using w by auto
qed (auto simp: read_usize_reading)

lemma read_field_Ok_iff [codec_iffs]:
  "read_field e (reading pre xs) = Ok (bs, d) \<longleftrightarrow>
     length bs < 2 ^ 64 \<and> (\<exists>zs. xs = field bs @ zs \<and> d = reading (pre @ field bs) zs)"
  by (auto simp: read_field_def and_then_Ok_iff read_usize_Ok_iff take_bytes_Ok_iff field_def)

lemma read_domain_Ok_iff [codec_iffs]:
  "read_domain e expected (reading pre xs) = Ok d \<longleftrightarrow>
     length expected < 2 ^ 64 \<and> (\<exists>zs. xs = field expected @ zs \<and> d = reading (pre @ field expected) zs)"
  by (auto simp: read_domain_def and_then_Ok_iff read_field_Ok_iff split: if_splits)

lemma finish_Ok_iff [codec_iffs]: "finish_decoder e (reading pre xs) = Ok u \<longleftrightarrow> xs = []"
  by (simp add: finish_reading)

lemma read_field_word_Ok_iff:
  fixes w :: "'w::len word"
  assumes "256 ^ n = (2 :: nat) ^ LENGTH('w)" "n < 2 ^ 64"
  shows "read_field_word e n (reading pre xs) = Ok (w, d) \<longleftrightarrow>
    (\<exists>zs. xs = field (be_bytes n (unat w)) @ zs \<and> d = reading (pre @ field (be_bytes n (unat w))) zs)"
proof
  assume "read_field_word e n (reading pre xs) = Ok (w, d)"
  then obtain bs zs where bs: "length bs = n" "w = word_of_nat (be_value bs)" "xs = field bs @ zs"
      "d = reading (pre @ field bs) zs"
    by (auto simp: read_field_word_def and_then_Ok_iff read_field_Ok_iff split: if_splits)
  then have "be_bytes n (unat w) = bs"
    using assms word_be_value [of bs, where 'w = 'w] by simp
  then show "\<exists>zs. xs = field (be_bytes n (unat w)) @ zs \<and> d = reading (pre @ field (be_bytes n (unat w))) zs"
    using bs by blast
qed (auto simp: read_field_word_reading [OF assms])

section \<open>Interface: encoders with their decoders\<close>

locale codec =
  fixes encode :: "'a \<Rightarrow> byte list"
    and decode :: "decoder \<Rightarrow> ('e, 'a \<times> decoder) result"
    and valid :: "'a \<Rightarrow> bool"
  assumes decode_encode:
    "valid x \<Longrightarrow> decode (reading pre (encode x @ zs)) = Ok (x, reading (pre @ encode x) zs)"
begin

lemma decode_whole: "valid x \<Longrightarrow> decode (reading pre (encode x)) = Ok (x, reading (pre @ encode x) [])"
  using decode_encode [of x pre "[]"] by simp

text \<open>Encodings of valid values are prefix-free, hence injective.\<close>

lemma encode_prefix_free:
  assumes "valid x" "valid y" "encode x @ zs = encode y @ zs'"
  shows "x = y \<and> zs = zs'"
proof -
  have "decode (reading [] (encode x @ zs)) = Ok (x, reading (encode x) zs)"
    using decode_encode [OF assms(1), of "[]"] by simp
  moreover have "decode (reading [] (encode x @ zs)) = Ok (y, reading (encode y) zs')"
    using decode_encode [OF assms(2), of "[]"] assms(3) by simp
  ultimately show ?thesis
    using assms(3) by simp
qed

lemma encode_inj: "valid x \<Longrightarrow> valid y \<Longrightarrow> encode x = encode y \<longleftrightarrow> x = y"
  using encode_prefix_free [of x y "[]" "[]"] by auto

end

text \<open>A decoder that accepts nothing but the encodings of valid values.\<close>

locale canonical_codec =
  fixes encode :: "'a \<Rightarrow> byte list"
    and decode :: "decoder \<Rightarrow> ('e, 'a \<times> decoder) result"
    and valid :: "'a \<Rightarrow> bool"
  assumes decode_Ok_iff: "decode (reading pre xs) = Ok (x, d) \<longleftrightarrow>
    valid x \<and> (\<exists>zs. xs = encode x @ zs \<and> d = reading (pre @ encode x) zs)"

sublocale canonical_codec \<subseteq> codec encode decode valid
  by unfold_locales (simp add: decode_Ok_iff)

context canonical_codec
begin

text \<open>Reading a value and nothing behind it.\<close>

lemma whole_Ok_iff:
  "and_then (decode (decoder_new bs)) (\<lambda>(x, d). and_then (finish_decoder e d) (\<lambda>_. Ok x)) = Ok x \<longleftrightarrow>
     valid x \<and> bs = encode x"
  by (auto simp: decoder_new_reading and_then_Ok_iff decode_Ok_iff finish_Ok_iff)

end

interpretation uuid_codec: canonical_codec uuid_bytes "read_uuid e" "\<lambda>_. True" for e :: 'e
  by unfold_locales (simp add: read_uuid_Ok_iff)

interpretation digest_codec: canonical_codec digest_bytes "read_digest e" "\<lambda>_. True" for e :: 'e
  by unfold_locales (simp add: read_digest_Ok_iff)

interpretation u64_codec: canonical_codec u64_bytes "read_u64 e" "\<lambda>_. True" for e :: 'e
  by unfold_locales (simp add: read_u64_Ok_iff)

interpretation field_codec: canonical_codec field "read_field e" "\<lambda>bs. length bs < 2 ^ 64" for e :: 'e
  by unfold_locales (rule read_field_Ok_iff)

end
