(* ===== verification/Ordered_Map.thy ===== *)
theory Ordered_Map
  imports Main
begin

text \<open>
  \<^verbatim>\<open>BTreeMap\<close> as the list of its entries in key order, with the operations the sources use:
  \<^verbatim>\<open>insert\<close>, \<^verbatim>\<open>get\<close> (which is \<^const>\<open>map_of\<close>), an update through \<^verbatim>\<open>get_mut\<close>, and iteration in
  key order.  What clients rely on is stated as an interface and discharged for these lists.
\<close>

fun bt_insert :: "'k::linorder \<Rightarrow> 'v \<Rightarrow> ('k \<times> 'v) list \<Rightarrow> ('k \<times> 'v) list"
  where
    "bt_insert k v [] = [(k, v)]"
  | "bt_insert k v ((k', v') # m) =
       (if k < k' then (k, v) # (k', v') # m
        else if k = k' then (k, v) # m
        else (k', v') # bt_insert k v m)"

definition bt_adjust :: "'k \<Rightarrow> ('v \<Rightarrow> 'v) \<Rightarrow> ('k \<times> 'v) list \<Rightarrow> ('k \<times> 'v) list"
  where "bt_adjust k f m = map (\<lambda>(k', v). (k', if k' = k then f v else v)) m"

definition bt_ok :: "('k::linorder \<times> 'v) list \<Rightarrow> bool"
  where "bt_ok m = sorted_wrt (<) (map fst m)"

section \<open>Interface: ordered maps\<close>

locale ordered_map =
  fixes empty :: 'm
    and insert :: "'k::linorder \<Rightarrow> 'v \<Rightarrow> 'm \<Rightarrow> 'm"
    and adjust :: "'k \<Rightarrow> ('v \<Rightarrow> 'v) \<Rightarrow> 'm \<Rightarrow> 'm"
    and lookup :: "'m \<Rightarrow> 'k \<Rightarrow> 'v option"
    and entries :: "'m \<Rightarrow> ('k \<times> 'v) list"
    and ok :: "'m \<Rightarrow> bool"
  assumes ok_empty: "ok empty"
    and ok_insert: "ok m \<Longrightarrow> ok (insert k v m)"
    and ok_adjust: "ok m \<Longrightarrow> ok (adjust k f m)"
    and lookup_empty: "lookup empty k = None"
    and lookup_insert: "ok m \<Longrightarrow> lookup (insert k v m) = (lookup m)(k \<mapsto> v)"
    and lookup_adjust: "lookup (adjust k f m) k' = (if k' = k then map_option f (lookup m k) else lookup m k')"
    and lookup_entries: "lookup m = map_of (entries m)"
    and entries_sorted: "ok m \<Longrightarrow> sorted_wrt (<) (map fst (entries m))"
    and entries_inject: "ok m \<Longrightarrow> ok m' \<Longrightarrow> entries m = entries m' \<Longrightarrow> m = m'"
begin

lemma entries_distinct: "ok m \<Longrightarrow> distinct (map fst (entries m))"
  using entries_sorted strict_sorted_iff by blast

lemma entry_lookup: "ok m \<Longrightarrow> (k, v) \<in> set (entries m) \<longleftrightarrow> lookup m k = Some v"
  using entries_distinct by (simp add: lookup_entries map_of_eq_Some_iff)

text \<open>Two maps with the same content are the same map.\<close>

lemma map_eqI:
  assumes "ok m" "ok m'" "lookup m = lookup m'"
  shows "m = m'"
proof -
  have same: "set (entries m) = set (entries m')"
    using entry_lookup [OF assms(1)] entry_lookup [OF assms(2)] assms(3) by auto
  have "entries m = entries m'"
  proof (rule map_sorted_distinct_set_unique [of fst])
    show "inj_on fst (set (entries m) \<union> set (entries m'))"
      using entries_distinct [OF assms(1)] same by (simp add: distinct_map)
    show "sorted (map fst (entries m))" "sorted (map fst (entries m'))"
      using entries_sorted assms(1,2) strict_sorted_iff by blast+
  qed (use same entries_distinct assms(1,2) in auto)
  then show ?thesis
    using assms entries_inject by blast
qed

lemma insert_same: "ok m \<Longrightarrow> lookup m k = Some v \<Longrightarrow> insert k v m = m"
  by (rule map_eqI) (auto simp: ok_insert lookup_insert)

lemma adjust_insert: "ok m \<Longrightarrow> lookup m k = Some v \<Longrightarrow> adjust k f m = insert k (f v) m"
  by (rule map_eqI) (auto simp: ok_insert ok_adjust lookup_insert lookup_adjust)

text \<open>Inserting the entries of a map one after the other gives the map back.\<close>

lemma fold_insert_lookup:
  "ok a \<Longrightarrow> ok (fold (\<lambda>(k, v). insert k v) xs a) \<and>
     lookup (fold (\<lambda>(k, v). insert k v) xs a) = lookup a ++ map_of (rev xs)"
proof (induction xs arbitrary: a)
  case Nil
  then show ?case by simp
next
  case (Cons x xs)
  obtain k v where x: "x = (k, v)" by force
  have "ok (insert k v a)" "lookup (insert k v a) = (lookup a)(k \<mapsto> v)"
    using Cons.prems by (simp_all only: ok_insert lookup_insert)
  then show ?case
    using Cons.IH [of "insert k v a"] x by (simp add: map_add_def fun_eq_iff split: option.split)
qed

lemma rebuild: "ok m \<Longrightarrow> fold (\<lambda>(k, v). insert k v) (entries m) empty = m"
proof (rule map_eqI)
  assume ok: "ok m"
  have "map_of (rev (entries m)) = map_of (entries m)"
    using entries_distinct [OF ok] by (intro map_of_inject_set [THEN iffD2]) (simp_all add: rev_map [symmetric])
  moreover have "lookup empty = Map.empty"
    by (rule ext) (rule lookup_empty)
  ultimately show "lookup (fold (\<lambda>(k, v). insert k v) (entries m) empty) = lookup m"
    using fold_insert_lookup [OF ok_empty, of "entries m"] by (simp add: lookup_entries)
  show "ok (fold (\<lambda>(k, v). insert k v) (entries m) empty)"
    using fold_insert_lookup [OF ok_empty] by simp
qed

end

section \<open>The entry lists provide it\<close>

lemma bt_insert_keys: "fst ` set (bt_insert k v m) = insert k (fst ` set m)"
  by (induction k v m rule: bt_insert.induct) (simp_all add: insert_commute)

lemma bt_ok_insert: "bt_ok m \<Longrightarrow> bt_ok (bt_insert k v m)"
proof (induction m)
  case Nil
  then show ?case by (simp add: bt_ok_def)
next
  case (Cons e m)
  obtain k' v' where e: "e = (k', v')" by force
  have IH: "bt_ok (bt_insert k v m)" and first: "\<forall>x\<in>fst ` set m. k' < x" and m: "bt_ok m"
    using Cons e by (auto simp: bt_ok_def)
  then show ?case
    using e bt_insert_keys [of k v m] by (auto simp: bt_ok_def)
qed

lemma bt_keys_distinct: "bt_ok m \<Longrightarrow> distinct (map fst m)"
  by (simp add: bt_ok_def strict_sorted_iff)

lemma bt_lookup_insert: "bt_ok m \<Longrightarrow> map_of (bt_insert k v m) = (map_of m)(k \<mapsto> v)"
proof (induction m)
  case Nil
  then show ?case by simp
next
  case (Cons e m)
  then show ?case
    by (cases e) (auto simp: bt_ok_def)
qed

lemma bt_adjust_keys [simp]: "map fst (bt_adjust k f m) = map fst m"
  by (simp add: bt_adjust_def case_prod_unfold comp_def)

lemma bt_lookup_adjust:
  "map_of (bt_adjust k f m) k' = (if k' = k then map_option f (map_of m k) else map_of m k')"
  by (induction m) (auto simp: bt_adjust_def)

interpretation btree: ordered_map "[]" bt_insert bt_adjust map_of "\<lambda>m. m" bt_ok
proof unfold_locales
  show "bt_ok m \<Longrightarrow> bt_ok (bt_adjust k f m)" for m :: "('k::linorder \<times> 'v) list" and k f
    by (simp add: bt_ok_def)
  show "bt_ok m \<Longrightarrow> sorted_wrt (<) (map fst m)" for m :: "('k::linorder \<times> 'v) list"
    by (simp add: bt_ok_def)
qed (simp_all add: bt_ok_def bt_ok_insert [unfolded bt_ok_def] bt_lookup_insert [unfolded bt_ok_def]
    bt_lookup_adjust)

end
