(* ===== verification/Backup_Archive.thy ===== *)
theory Backup_Archive
  imports Byte_Codec Ordered_Map "HOL-Library.Sublist"
begin

text \<open>
  The backup archive (\<^verbatim>\<open>backup_archive.rs\<close>): backup sets that stream checkpoints into a hash
  chain, restore holds that keep a set from being sealed, the way from sealing to deletion,
  the predicates that recognise one exact step between two states, and the canonical bytes
  of a state.  \<^verbatim>\<open>sha\<close> stands for SHA-256.
\<close>

section \<open>Errors and enumerations\<close>

datatype backup_archive_error =
    Archive_Malformed | DuplicateBackupSet | DuplicateRestoreHold | UnknownBackupSet
  | NotStreaming | NotRestorable | BaseCheckpointRequired | DuplicateBaseCheckpoint
  | BaseCheckpointMustBeFirst | BaseCheckpointAncestryMismatch | RestoreHoldPresent
  | ArchiveHeadMismatch | InvalidLifecycleTransition | RestoreHoldAlreadyReleased

datatype backup_set_lifecycle =
    Streaming | Sealing | Sealed | DeletionPrepared | ArchiveKeyErased | Deleted

fun lifecycle_code :: "backup_set_lifecycle \<Rightarrow> u8"
  where
    "lifecycle_code Streaming = 0"
  | "lifecycle_code Sealing = 1"
  | "lifecycle_code Sealed = 2"
  | "lifecycle_code DeletionPrepared = 3"
  | "lifecycle_code ArchiveKeyErased = 4"
  | "lifecycle_code Deleted = 5"

definition lifecycle_from_code :: "u8 \<Rightarrow> (backup_archive_error, backup_set_lifecycle) result"
  where "lifecycle_from_code v =
    (if v = 0 then Ok Streaming
     else if v = 1 then Ok Sealing
     else if v = 2 then Ok Sealed
     else if v = 3 then Ok DeletionPrepared
     else if v = 4 then Ok ArchiveKeyErased
     else if v = 5 then Ok Deleted
     else Err Archive_Malformed)"

datatype archive_object_kind = BaseChunk | WalSegment | TimelineHistory

fun object_kind_code :: "archive_object_kind \<Rightarrow> u8"
  where
    "object_kind_code BaseChunk = 0"
  | "object_kind_code WalSegment = 1"
  | "object_kind_code TimelineHistory = 2"

definition object_kind_from_code :: "u8 \<Rightarrow> (backup_archive_error, archive_object_kind) result"
  where "object_kind_from_code v =
    (if v = 0 then Ok BaseChunk
     else if v = 1 then Ok WalSegment
     else if v = 2 then Ok TimelineHistory
     else Err Archive_Malformed)"

section \<open>Values\<close>

record archive_head =
  ah_checkpoint_ordinal :: u64
  ah_digest :: digest

definition archive_head_genesis :: "digest \<Rightarrow> archive_head"
  where "archive_head_genesis d = \<lparr> ah_checkpoint_ordinal = 0, ah_digest = d \<rparr>"

record backup_set_identity =
  bi_set_id :: uuid
  bi_installation_id :: uuid
  bi_generation_id :: uuid

record archive_object_descriptor =
  ao_set_id :: uuid
  ao_object_id :: uuid
  ao_kind :: archive_object_kind
  ao_ordinal :: u64
  ao_timeline :: u32
  ao_start_lsn :: u64
  ao_end_lsn :: u64
  ao_ciphertext_digest :: digest
  ao_plaintext_digest :: digest
  ao_length :: u64
  ao_predecessor_head_digest :: digest

definition descriptor_new ::
    "archive_object_descriptor \<Rightarrow> (backup_archive_error, archive_object_descriptor) result"
  where "descriptor_new input =
    (if ao_ordinal input = 0 \<or> ao_timeline input = 0 \<or> ao_end_lsn input < ao_start_lsn input
        \<or> ao_length input = 0
     then Err Archive_Malformed else Ok input)"

definition descriptor_encode :: "archive_object_descriptor \<Rightarrow> byte list"
  where "descriptor_encode obj =
    uuid_bytes (ao_set_id obj) @ uuid_bytes (ao_object_id obj) @ [object_kind_code (ao_kind obj)]
    @ u64_bytes (ao_ordinal obj) @ u32_bytes (ao_timeline obj) @ u64_bytes (ao_start_lsn obj)
    @ u64_bytes (ao_end_lsn obj) @ digest_bytes (ao_ciphertext_digest obj)
    @ digest_bytes (ao_plaintext_digest obj) @ u64_bytes (ao_length obj)
    @ digest_bytes (ao_predecessor_head_digest obj)"

definition descriptor_decode ::
    "decoder \<Rightarrow> (backup_archive_error, archive_object_descriptor \<times> decoder) result"
  where "descriptor_decode d =
    and_then (read_uuid Archive_Malformed d) (\<lambda>(set_id, d).
    and_then (read_uuid Archive_Malformed d) (\<lambda>(object_id, d).
    and_then (read_u8 Archive_Malformed d) (\<lambda>(code, d).
    and_then (object_kind_from_code code) (\<lambda>kind.
    and_then (read_u64 Archive_Malformed d) (\<lambda>(ordinal, d).
    and_then (read_u32 Archive_Malformed d) (\<lambda>(timeline, d).
    and_then (read_u64 Archive_Malformed d) (\<lambda>(start_lsn, d).
    and_then (read_u64 Archive_Malformed d) (\<lambda>(end_lsn, d).
    and_then (read_digest Archive_Malformed d) (\<lambda>(ciphertext, d).
    and_then (read_digest Archive_Malformed d) (\<lambda>(plaintext, d).
    and_then (read_u64 Archive_Malformed d) (\<lambda>(len, d).
    and_then (read_digest Archive_Malformed d) (\<lambda>(predecessor, d).
    and_then (descriptor_new \<lparr> ao_set_id = set_id, ao_object_id = object_id, ao_kind = kind,
        ao_ordinal = ordinal, ao_timeline = timeline, ao_start_lsn = start_lsn,
        ao_end_lsn = end_lsn, ao_ciphertext_digest = ciphertext, ao_plaintext_digest = plaintext,
        ao_length = len, ao_predecessor_head_digest = predecessor \<rparr>) (\<lambda>input.
    Ok (input, d))))))))))))))"

record archive_append_reservation =
  ra_set_id :: uuid
  ra_expected :: archive_head
  ra_object :: archive_object_descriptor

text \<open>The comparison of an object with the head it is to follow.\<close>

definition follows_head :: "uuid \<Rightarrow> archive_head \<Rightarrow> archive_object_descriptor \<Rightarrow> bool"
  where "follows_head set_id expected object =
    (ao_set_id object = set_id \<and> ao_predecessor_head_digest object = ah_digest expected \<and>
     (case checked_add (ah_checkpoint_ordinal expected) 1 of
        None \<Rightarrow> False | Some ordinal \<Rightarrow> ao_ordinal object = ordinal))"

definition reservation_new ::
    "uuid \<Rightarrow> archive_head \<Rightarrow> archive_object_descriptor
     \<Rightarrow> (backup_archive_error, archive_append_reservation) result"
  where "reservation_new set_id expected object =
    (if \<not> follows_head set_id expected object then Err ArchiveHeadMismatch
     else Ok \<lparr> ra_set_id = set_id, ra_expected = expected, ra_object = object \<rparr>)"

record wal_archive_checkpoint =
  wc_object :: archive_object_descriptor

definition checkpoint_from_reservation :: "archive_append_reservation \<Rightarrow> wal_archive_checkpoint"
  where "checkpoint_from_reservation r = \<lparr> wc_object = ra_object r \<rparr>"

definition checkpoint_domain :: "byte list"
  where "checkpoint_domain = ascii ''vestrace-wal-archive-checkpoint-v1''"

definition checkpoint_canonical_bytes :: "wal_archive_checkpoint \<Rightarrow> byte list"
  where "checkpoint_canonical_bytes c = field checkpoint_domain @ descriptor_encode (wc_object c)"

definition checkpoint_digest :: "(byte list \<Rightarrow> digest) \<Rightarrow> wal_archive_checkpoint \<Rightarrow> digest"
  where "checkpoint_digest sha c = sha (checkpoint_canonical_bytes c)"

definition checkpoint_decode ::
    "decoder \<Rightarrow> (backup_archive_error, wal_archive_checkpoint \<times> decoder) result"
  where "checkpoint_decode d =
    and_then (read_domain Archive_Malformed checkpoint_domain d) (\<lambda>d.
    and_then (descriptor_decode d) (\<lambda>(object, d). Ok (\<lparr> wc_object = object \<rparr>, d)))"

datatype restore_hold_release_reason =
    TargetInitializationComplete (reason_receipt: digest)
  | SourceResumePrepared (reason_receipt: digest)
  | RefusedTargetDestroyed (reason_receipt: digest)
  | SalvageInstallationCompleted (reason_receipt: digest)

fun release_reason_kind :: "restore_hold_release_reason \<Rightarrow> u8"
  where
    "release_reason_kind (TargetInitializationComplete _) = 0"
  | "release_reason_kind (SourceResumePrepared _) = 1"
  | "release_reason_kind (RefusedTargetDestroyed _) = 2"
  | "release_reason_kind (SalvageInstallationCompleted _) = 3"

definition release_reason_of_kind :: "u8 \<Rightarrow> digest \<Rightarrow> restore_hold_release_reason option"
  where "release_reason_of_kind kind receipt =
    (if kind = 0 then Some (TargetInitializationComplete receipt)
     else if kind = 1 then Some (SourceResumePrepared receipt)
     else if kind = 2 then Some (RefusedTargetDestroyed receipt)
     else if kind = 3 then Some (SalvageInstallationCompleted receipt)
     else None)"

definition release_reason_encode :: "restore_hold_release_reason \<Rightarrow> byte list"
  where "release_reason_encode r = release_reason_kind r # digest_bytes (reason_receipt r)"

definition release_reason_decode ::
    "decoder \<Rightarrow> (backup_archive_error, restore_hold_release_reason \<times> decoder) result"
  where "release_reason_decode d =
    and_then (read_u8 Archive_Malformed d) (\<lambda>(kind, d).
    and_then (read_digest Archive_Malformed d) (\<lambda>(receipt, d).
    and_then (ok_or Archive_Malformed (release_reason_of_kind kind receipt)) (\<lambda>r. Ok (r, d))))"

record restore_hold =
  rh_id :: uuid
  rh_release_reason :: "restore_hold_release_reason option"

definition hold_active :: "restore_hold \<Rightarrow> bool"
  where "hold_active h = (rh_release_reason h = None)"

record backup_set_state =
  bs_identity :: backup_set_identity
  bs_lifecycle :: backup_set_lifecycle
  bs_deletion_requested :: bool
  bs_deletion_preparation :: "digest option"
  bs_key_erasure_preparation :: "digest option"
  bs_head :: archive_head
  bs_checkpoints :: "wal_archive_checkpoint list"
  bs_holds :: "(uuid \<times> restore_hold) list"

record backup_archive_state =
  ba_sets :: "(uuid \<times> backup_set_state) list"

section \<open>Operations\<close>

definition archive_empty :: backup_archive_state
  where "archive_empty = \<lparr> ba_sets = [] \<rparr>"

definition archive_set ::
    "backup_archive_state \<Rightarrow> uuid \<Rightarrow> (backup_archive_error, backup_set_state) result"
  where "archive_set s i = ok_or UnknownBackupSet (map_of (ba_sets s) i)"

text \<open>The copy in which one set is changed through \<^verbatim>\<open>get_mut\<close>.\<close>

definition with_set ::
    "backup_archive_state \<Rightarrow> uuid \<Rightarrow> (backup_set_state \<Rightarrow> backup_set_state)
     \<Rightarrow> (backup_archive_error, backup_archive_state) result"
  where "with_set s i f =
    (if map_of (ba_sets s) i = None then Err UnknownBackupSet
     else Ok (s\<lparr>ba_sets := bt_adjust i f (ba_sets s)\<rparr>))"

definition start_streaming ::
    "backup_archive_state \<Rightarrow> backup_set_identity \<Rightarrow> archive_head
     \<Rightarrow> (backup_archive_error, backup_archive_state) result"
  where "start_streaming s identity head =
    (if map_of (ba_sets s) (bi_set_id identity) \<noteq> None then Err DuplicateBackupSet
     else Ok (s\<lparr>ba_sets := bt_insert (bi_set_id identity)
            \<lparr> bs_identity = identity, bs_lifecycle = Streaming, bs_deletion_requested = False,
              bs_deletion_preparation = None, bs_key_erasure_preparation = None,
              bs_head = head, bs_checkpoints = [], bs_holds = [] \<rparr> (ba_sets s)\<rparr>))"

definition has_base_checkpoint :: "backup_set_state \<Rightarrow> bool"
  where "has_base_checkpoint st =
    (case bs_checkpoints st of [] \<Rightarrow> False | c # _ \<Rightarrow> ao_kind (wc_object c) = BaseChunk)"

definition validate_append_kind ::
    "backup_set_state \<Rightarrow> archive_object_descriptor \<Rightarrow> (backup_archive_error, unit) result"
  where "validate_append_kind st object =
    (case (has_base_checkpoint st, ao_kind object) of
       (False, BaseChunk) \<Rightarrow>
         (if ao_ordinal object = 1 then Ok () else Err BaseCheckpointMustBeFirst)
     | (False, _) \<Rightarrow> Err BaseCheckpointRequired
     | (True, BaseChunk) \<Rightarrow> Err DuplicateBaseCheckpoint
     | (True, WalSegment) \<Rightarrow>
         (case bs_checkpoints st of
            [] \<Rightarrow> Err BaseCheckpointRequired
          | c # _ \<Rightarrow>
              let base = wc_object c in
              if ao_timeline object \<noteq> ao_timeline base \<or> ao_start_lsn object < ao_start_lsn base
              then Err BaseCheckpointAncestryMismatch else Ok ())
     | (True, _) \<Rightarrow> Ok ())"

definition reserve_append ::
    "backup_archive_state \<Rightarrow> uuid \<Rightarrow> archive_head \<Rightarrow> archive_object_descriptor
     \<Rightarrow> (backup_archive_error, archive_append_reservation) result"
  where "reserve_append s i expected object =
    and_then (archive_set s i) (\<lambda>current.
    if bs_lifecycle current \<noteq> Streaming then Err NotStreaming
    else
      and_then (validate_append_kind current object) (\<lambda>_.
      if bs_head current \<noteq> expected \<or> \<not> follows_head i expected object then Err ArchiveHeadMismatch
      else reservation_new i expected object))"

definition commit_checkpoint ::
    "(byte list \<Rightarrow> digest) \<Rightarrow> backup_archive_state \<Rightarrow> archive_append_reservation
     \<Rightarrow> wal_archive_checkpoint \<Rightarrow> (backup_archive_error, backup_archive_state) result"
  where "commit_checkpoint sha s reservation checkpoint =
    and_then (archive_set s (ra_set_id reservation)) (\<lambda>current.
    if bs_lifecycle current \<noteq> Streaming \<or> bs_head current \<noteq> ra_expected reservation
    then Err ArchiveHeadMismatch
    else if wc_object checkpoint \<noteq> ra_object reservation then Err ArchiveHeadMismatch
    else
      and_then (validate_append_kind current (wc_object checkpoint)) (\<lambda>_.
      with_set s (ra_set_id reservation) (\<lambda>st. st
        \<lparr>bs_head := \<lparr> ah_checkpoint_ordinal = ao_ordinal (wc_object checkpoint),
                      ah_digest = checkpoint_digest sha checkpoint \<rparr>,
         bs_checkpoints := bs_checkpoints st @ [checkpoint]\<rparr>)))"

definition acquire_restore_hold ::
    "backup_archive_state \<Rightarrow> uuid \<Rightarrow> uuid \<Rightarrow> (backup_archive_error, backup_archive_state) result"
  where "acquire_restore_hold s i hold_id =
    and_then (archive_set s i) (\<lambda>current.
    if bs_lifecycle current \<noteq> Streaming then Err NotRestorable
    else if \<not> has_base_checkpoint current then Err NotRestorable
    else if map_of (bs_holds current) hold_id \<noteq> None then Err DuplicateRestoreHold
    else with_set s i (\<lambda>st. st\<lparr>bs_holds :=
           bt_insert hold_id \<lparr> rh_id = hold_id, rh_release_reason = None \<rparr> (bs_holds st)\<rparr>))"

definition release_restore_hold ::
    "backup_archive_state \<Rightarrow> uuid \<Rightarrow> uuid \<Rightarrow> restore_hold_release_reason
     \<Rightarrow> (backup_archive_error, backup_archive_state) result"
  where "release_restore_hold s i hold_id reason =
    and_then (archive_set s i) (\<lambda>current.
    and_then (ok_or UnknownBackupSet (map_of (bs_holds current) hold_id)) (\<lambda>hold.
    if \<not> hold_active hold then Err RestoreHoldAlreadyReleased
    else with_set s i (\<lambda>st. st\<lparr>bs_holds :=
           bt_adjust hold_id (\<lambda>h. h\<lparr>rh_release_reason := Some reason\<rparr>) (bs_holds st)\<rparr>)))"

definition any_active_hold :: "backup_set_state \<Rightarrow> bool"
  where "any_active_hold st = list_ex (\<lambda>(_, h). hold_active h) (bs_holds st)"

definition require_no_active_holds ::
    "backup_archive_state \<Rightarrow> uuid \<Rightarrow> (backup_archive_error, unit) result"
  where "require_no_active_holds s i =
    and_then (archive_set s i) (\<lambda>st.
    if any_active_hold st then Err RestoreHoldPresent else Ok ())"

definition archive_transition ::
    "backup_archive_state \<Rightarrow> uuid \<Rightarrow> backup_set_lifecycle
     \<Rightarrow> (backup_archive_error, backup_archive_state) result"
  where "archive_transition s i next_lifecycle = with_set s i (\<lambda>st. st\<lparr>bs_lifecycle := next_lifecycle\<rparr>)"

definition transition_from ::
    "backup_archive_state \<Rightarrow> uuid \<Rightarrow> backup_set_lifecycle \<Rightarrow> backup_set_lifecycle
     \<Rightarrow> (backup_archive_error, backup_archive_state) result"
  where "transition_from s i expected next_lifecycle =
    and_then (archive_set s i) (\<lambda>st.
    if bs_lifecycle st \<noteq> expected then Err InvalidLifecycleTransition
    else archive_transition s i next_lifecycle)"

definition begin_sealing ::
    "backup_archive_state \<Rightarrow> uuid \<Rightarrow> (backup_archive_error, backup_archive_state) result"
  where "begin_sealing s i =
    and_then (archive_set s i) (\<lambda>current.
    if bs_lifecycle current \<noteq> Streaming then Err InvalidLifecycleTransition
    else if \<not> has_base_checkpoint current then Err NotRestorable
    else if any_active_hold current then Err RestoreHoldPresent
    else archive_transition s i Sealing)"

definition commit_sealed ::
    "backup_archive_state \<Rightarrow> uuid \<Rightarrow> (backup_archive_error, backup_archive_state) result"
  where "commit_sealed s i =
    and_then (require_no_active_holds s i) (\<lambda>_. transition_from s i Sealing Sealed)"

definition prepare_deletion ::
    "backup_archive_state \<Rightarrow> uuid \<Rightarrow> digest \<Rightarrow> (backup_archive_error, backup_archive_state) result"
  where "prepare_deletion s i preparation =
    and_then (require_no_active_holds s i) (\<lambda>_.
    and_then (transition_from s i Sealed DeletionPrepared) (\<lambda>next.
    with_set next i (\<lambda>st. st\<lparr>bs_deletion_preparation := Some preparation\<rparr>)))"

definition prepare_archive_key_erasure ::
    "backup_archive_state \<Rightarrow> uuid \<Rightarrow> digest \<Rightarrow> (backup_archive_error, backup_archive_state) result"
  where "prepare_archive_key_erasure s i preparation =
    and_then (archive_set s i) (\<lambda>current.
    if bs_lifecycle current \<noteq> DeletionPrepared \<or> bs_deletion_preparation current \<noteq> Some preparation
       \<or> bs_key_erasure_preparation current \<noteq> None
    then Err InvalidLifecycleTransition
    else with_set s i (\<lambda>st. st\<lparr>bs_key_erasure_preparation := Some preparation\<rparr>))"

definition record_archive_key_erased ::
    "backup_archive_state \<Rightarrow> uuid \<Rightarrow> (backup_archive_error, backup_archive_state) result"
  where "record_archive_key_erased s i =
    and_then (archive_set s i) (\<lambda>current.
    if bs_key_erasure_preparation current = None
       \<or> bs_key_erasure_preparation current \<noteq> bs_deletion_preparation current
    then Err InvalidLifecycleTransition
    else transition_from s i DeletionPrepared ArchiveKeyErased)"

definition finalize_deleted ::
    "backup_archive_state \<Rightarrow> uuid \<Rightarrow> (backup_archive_error, backup_archive_state) result"
  where "finalize_deleted s i = transition_from s i ArchiveKeyErased Deleted"

section \<open>Exact successors\<close>

text \<open>
  The loop of the \<^verbatim>\<open>is_exact_..._of\<close> predicates over the sets of the previous state: every
  set must still be there, and exactly one may differ, in the way \<^verbatim>\<open>step\<close> allows.
\<close>

fun one_set_changed ::
    "(uuid \<Rightarrow> backup_set_state \<Rightarrow> backup_set_state \<Rightarrow> bool) \<Rightarrow> (uuid \<times> backup_set_state) list
     \<Rightarrow> bool \<Rightarrow> (uuid \<times> backup_set_state) list \<Rightarrow> bool"
  where
    "one_set_changed step nexts changed [] = changed"
  | "one_set_changed step nexts changed ((i, before) # rest) =
       (case map_of nexts i of
          None \<Rightarrow> False
        | Some after \<Rightarrow>
            if after = before then one_set_changed step nexts changed rest
            else if changed \<or> \<not> step i before after then False
            else one_set_changed step nexts True rest)"

definition exact_successor ::
    "(uuid \<Rightarrow> backup_set_state \<Rightarrow> backup_set_state \<Rightarrow> bool)
     \<Rightarrow> backup_archive_state \<Rightarrow> backup_archive_state \<Rightarrow> bool"
  where "exact_successor step next previous =
    (length (ba_sets next) = length (ba_sets previous) \<and>
     one_set_changed step (ba_sets next) False (ba_sets previous))"

definition checkpoint_step ::
    "(byte list \<Rightarrow> digest) \<Rightarrow> uuid \<Rightarrow> backup_set_state \<Rightarrow> backup_set_state \<Rightarrow> bool"
  where "checkpoint_step sha i before after =
    (bs_identity after = bs_identity before \<and> bs_lifecycle after = Streaming \<and>
     bs_deletion_requested after = bs_deletion_requested before \<and>
     bs_deletion_preparation after = bs_deletion_preparation before \<and>
     bs_key_erasure_preparation after = bs_key_erasure_preparation before \<and>
     bs_holds after = bs_holds before \<and>
     length (bs_checkpoints after) = length (bs_checkpoints before) + 1 \<and>
     take (length (bs_checkpoints before)) (bs_checkpoints after) = bs_checkpoints before \<and>
     bs_checkpoints after \<noteq> [] \<and>
     (let c = last (bs_checkpoints after) in
      ao_set_id (wc_object c) = i \<and>
      is_ok (validate_append_kind before (wc_object c)) \<and>
      ao_ordinal (wc_object c) =
        (case checked_add (ah_checkpoint_ordinal (bs_head before)) 1 of Some n \<Rightarrow> n | None \<Rightarrow> - 1) \<and>
      ao_predecessor_head_digest (wc_object c) = ah_digest (bs_head before) \<and>
      bs_head after = \<lparr> ah_checkpoint_ordinal = ao_ordinal (wc_object c),
                        ah_digest = checkpoint_digest sha c \<rparr>))"

definition is_exact_checkpoint_successor_of ::
    "(byte list \<Rightarrow> digest) \<Rightarrow> backup_archive_state \<Rightarrow> backup_archive_state \<Rightarrow> bool"
  where "is_exact_checkpoint_successor_of sha = exact_successor (checkpoint_step sha)"

fun one_set_started ::
    "(uuid \<times> backup_set_state) list \<Rightarrow> bool \<Rightarrow> (uuid \<times> backup_set_state) list \<Rightarrow> bool"
  where
    "one_set_started previous added [] = added"
  | "one_set_started previous added ((i, after) # rest) =
       (case map_of previous i of
          Some before \<Rightarrow> if before = after then one_set_started previous added rest else False
        | None \<Rightarrow>
            if \<not> added \<and> bs_lifecycle after = Streaming \<and> \<not> bs_deletion_requested after
               \<and> bs_deletion_preparation after = None \<and> bs_key_erasure_preparation after = None
               \<and> bs_checkpoints after = [] \<and> bs_holds after = []
               \<and> ah_checkpoint_ordinal (bs_head after) = 0
            then one_set_started previous True rest
            else False)"

definition is_exact_started_successor_of :: "backup_archive_state \<Rightarrow> backup_archive_state \<Rightarrow> bool"
  where "is_exact_started_successor_of next previous =
    (length (ba_sets next) = length (ba_sets previous) + 1 \<and>
     one_set_started (ba_sets previous) False (ba_sets next))"

definition hold_step :: "uuid \<Rightarrow> backup_set_state \<Rightarrow> backup_set_state \<Rightarrow> bool"
  where "hold_step i before after =
    (bs_identity after = bs_identity before \<and> bs_lifecycle after = Streaming \<and>
     bs_deletion_requested after = bs_deletion_requested before \<and>
     bs_deletion_preparation after = bs_deletion_preparation before \<and>
     bs_key_erasure_preparation after = bs_key_erasure_preparation before \<and>
     bs_head after = bs_head before \<and> bs_checkpoints after = bs_checkpoints before \<and>
     has_base_checkpoint before \<and>
     length (bs_holds after) = length (bs_holds before) + 1 \<and>
     list_all (\<lambda>(k, h). map_of (bs_holds after) k = Some h) (bs_holds before) \<and>
     list_ex (\<lambda>(k, h). map_of (bs_holds before) k = None \<and> hold_active h) (bs_holds after))"

definition is_exact_hold_successor_of :: "backup_archive_state \<Rightarrow> backup_archive_state \<Rightarrow> bool"
  where "is_exact_hold_successor_of = exact_successor hold_step"

definition lifecycle_step ::
    "backup_set_lifecycle \<Rightarrow> backup_set_lifecycle \<Rightarrow> uuid \<Rightarrow> backup_set_state \<Rightarrow> backup_set_state \<Rightarrow> bool"
  where "lifecycle_step from to i before after =
    (bs_lifecycle before = from \<and> bs_lifecycle after = to \<and>
     bs_identity after = bs_identity before \<and>
     bs_deletion_requested after = bs_deletion_requested before \<and>
     bs_deletion_preparation after = bs_deletion_preparation before \<and>
     bs_key_erasure_preparation after = bs_key_erasure_preparation before \<and>
     bs_head after = bs_head before \<and> bs_checkpoints after = bs_checkpoints before \<and>
     bs_holds after = bs_holds before \<and> has_base_checkpoint before)"

definition is_exact_lifecycle_successor_of ::
    "backup_archive_state \<Rightarrow> backup_archive_state \<Rightarrow> backup_set_lifecycle \<Rightarrow> backup_set_lifecycle \<Rightarrow> bool"
  where "is_exact_lifecycle_successor_of next previous from to =
    exact_successor (lifecycle_step from to) next previous"

definition prepared_deletion_step :: "uuid \<Rightarrow> backup_set_state \<Rightarrow> backup_set_state \<Rightarrow> bool"
  where "prepared_deletion_step i before after =
    (bs_lifecycle before = Sealed \<and> bs_lifecycle after = DeletionPrepared \<and>
     bs_deletion_preparation before = None \<and> bs_deletion_preparation after \<noteq> None \<and>
     bs_key_erasure_preparation before = None \<and> bs_key_erasure_preparation after = None \<and>
     bs_identity after = bs_identity before \<and>
     bs_deletion_requested after = bs_deletion_requested before \<and>
     bs_head after = bs_head before \<and> bs_checkpoints after = bs_checkpoints before \<and>
     bs_holds after = bs_holds before)"

definition is_exact_prepared_deletion_successor_of ::
    "backup_archive_state \<Rightarrow> backup_archive_state \<Rightarrow> bool"
  where "is_exact_prepared_deletion_successor_of = exact_successor prepared_deletion_step"

definition key_erasure_prepared_step :: "uuid \<Rightarrow> backup_set_state \<Rightarrow> backup_set_state \<Rightarrow> bool"
  where "key_erasure_prepared_step i before after =
    (bs_lifecycle before = DeletionPrepared \<and> bs_lifecycle after = DeletionPrepared \<and>
     bs_key_erasure_preparation before = None \<and>
     bs_key_erasure_preparation after = bs_deletion_preparation before \<and>
     bs_identity after = bs_identity before \<and>
     bs_deletion_requested after = bs_deletion_requested before \<and>
     bs_deletion_preparation after = bs_deletion_preparation before \<and>
     bs_head after = bs_head before \<and> bs_checkpoints after = bs_checkpoints before \<and>
     bs_holds after = bs_holds before)"

definition is_exact_key_erasure_prepared_successor_of ::
    "backup_archive_state \<Rightarrow> backup_archive_state \<Rightarrow> bool"
  where "is_exact_key_erasure_prepared_successor_of = exact_successor key_erasure_prepared_step"

section \<open>Canonical bytes\<close>

definition archive_state_version :: u8
  where "archive_state_version = 3"

definition optional_digest_encode :: "digest option \<Rightarrow> byte list"
  where "optional_digest_encode v =
    bool_byte (v \<noteq> None) # (case v of Some d \<Rightarrow> digest_bytes d | None \<Rightarrow> [])"

definition hold_encode :: "restore_hold \<Rightarrow> byte list"
  where "hold_encode h =
    uuid_bytes (rh_id h) @ [bool_byte (rh_release_reason h \<noteq> None)]
    @ (case rh_release_reason h of Some r \<Rightarrow> release_reason_encode r | None \<Rightarrow> [])"

definition set_encode :: "backup_set_state \<Rightarrow> byte list"
  where "set_encode st =
    uuid_bytes (bi_set_id (bs_identity st)) @ uuid_bytes (bi_installation_id (bs_identity st))
    @ uuid_bytes (bi_generation_id (bs_identity st)) @ [lifecycle_code (bs_lifecycle st)]
    @ [bool_byte (bs_deletion_requested st)] @ optional_digest_encode (bs_deletion_preparation st)
    @ optional_digest_encode (bs_key_erasure_preparation st)
    @ u64_bytes (ah_checkpoint_ordinal (bs_head st)) @ digest_bytes (ah_digest (bs_head st))
    @ length_bytes (length (bs_checkpoints st))
    @ concat (map (\<lambda>c. field (checkpoint_canonical_bytes c)) (bs_checkpoints st))
    @ length_bytes (length (bs_holds st)) @ concat (map (\<lambda>(_, h). hold_encode h) (bs_holds st))"

definition archive_canonical_bytes :: "backup_archive_state \<Rightarrow> byte list"
  where "archive_canonical_bytes s =
    archive_state_version # length_bytes (length (ba_sets s))
    @ concat (map (\<lambda>(_, st). set_encode st) (ba_sets s))"

definition read_optional_digest ::
    "decoder \<Rightarrow> (backup_archive_error, digest option \<times> decoder) result"
  where "read_optional_digest d =
    and_then (read_bool Archive_Malformed d) (\<lambda>(present, d).
    if present then and_then (read_digest Archive_Malformed d) (\<lambda>(v, d). Ok (Some v, d))
    else Ok (None, d))"

text \<open>The loop over the checkpoints of a set.\<close>

fun decode_checkpoints ::
    "uuid \<Rightarrow> nat \<Rightarrow> u64 \<Rightarrow> decoder
     \<Rightarrow> (backup_archive_error, wal_archive_checkpoint list \<times> decoder) result"
  where
    "decode_checkpoints set_id 0 previous_ordinal d = Ok ([], d)"
  | "decode_checkpoints set_id (Suc n) previous_ordinal d =
       and_then (read_field Archive_Malformed d) (\<lambda>(bytes, d).
       and_then (checkpoint_decode (decoder_new bytes)) (\<lambda>(checkpoint, cd).
       and_then (finish_decoder Archive_Malformed cd) (\<lambda>_.
       if ao_set_id (wc_object checkpoint) \<noteq> set_id \<or> ao_ordinal (wc_object checkpoint) \<le> previous_ordinal
       then Err Archive_Malformed
       else
         and_then (decode_checkpoints set_id n (ao_ordinal (wc_object checkpoint)) d) (\<lambda>(rest, d).
         Ok (checkpoint # rest, d)))))"

definition validate_checkpoints ::
    "(byte list \<Rightarrow> digest) \<Rightarrow> archive_head \<Rightarrow> wal_archive_checkpoint list
     \<Rightarrow> (backup_archive_error, unit) result"
  where "validate_checkpoints sha head checkpoints =
    and_then
      (case checkpoints of
         [] \<Rightarrow> Ok ()
       | first # others \<Rightarrow>
           let first_kind = ao_kind (wc_object first) in
           if first_kind = BaseChunk \<and> ao_ordinal (wc_object first) \<noteq> 1 then Err Archive_Malformed
           else if list_ex (\<lambda>c. ao_kind (wc_object c) = BaseChunk) others then Err Archive_Malformed
           else if first_kind \<noteq> BaseChunk \<and> list_ex (\<lambda>c. ao_kind (wc_object c) = BaseChunk) checkpoints
           then Err Archive_Malformed
           else Ok ()) (\<lambda>_.
    if checkpoints \<noteq> [] \<and> (ah_checkpoint_ordinal head \<noteq> ao_ordinal (wc_object (last checkpoints))
         \<or> ah_digest head \<noteq> checkpoint_digest sha (last checkpoints))
    then Err Archive_Malformed
    else if checkpoints = [] \<and> ah_checkpoint_ordinal head \<noteq> 0 then Err Archive_Malformed
    else Ok ())"

definition validate_preparations ::
    "backup_set_lifecycle \<Rightarrow> digest option \<Rightarrow> digest option \<Rightarrow> (backup_archive_error, unit) result"
  where "validate_preparations lifecycle deletion_preparation key_erasure_preparation =
    (if (lifecycle \<in> {DeletionPrepared, ArchiveKeyErased, Deleted}) \<noteq> (deletion_preparation \<noteq> None)
     then Err Archive_Malformed
     else if key_erasure_preparation \<noteq> None \<and> key_erasure_preparation \<noteq> deletion_preparation
     then Err Archive_Malformed
     else if lifecycle \<in> {ArchiveKeyErased, Deleted} \<and> key_erasure_preparation = None
     then Err Archive_Malformed
     else Ok ())"

fun decode_holds ::
    "nat \<Rightarrow> (uuid \<times> restore_hold) list \<Rightarrow> decoder
     \<Rightarrow> (backup_archive_error, (uuid \<times> restore_hold) list \<times> decoder) result"
  where
    "decode_holds 0 holds d = Ok (holds, d)"
  | "decode_holds (Suc n) holds d =
       and_then (read_uuid Archive_Malformed d) (\<lambda>(hold_id, d).
       and_then (read_bool Archive_Malformed d) (\<lambda>(released, d).
       and_then (if released
                 then and_then (release_reason_decode d) (\<lambda>(r, d). Ok (Some r, d))
                 else Ok (None, d)) (\<lambda>(reason, d).
       if map_of holds hold_id \<noteq> None then Err Archive_Malformed
       else decode_holds n
              (bt_insert hold_id \<lparr> rh_id = hold_id, rh_release_reason = reason \<rparr> holds) d)))"

text \<open>
  \<^verbatim>\<open>Vec::with_capacity(checkpoint_count)\<close> panics when the buffer would exceed \<^verbatim>\<open>isize::MAX\<close>
  bytes; a checkpoint occupies 168 bytes.
\<close>

definition checkpoint_size :: nat
  where "checkpoint_size = 168"

definition decode_set ::
    "(byte list \<Rightarrow> digest) \<Rightarrow> decoder \<Rightarrow> (backup_archive_error failure, backup_set_state \<times> decoder) result"
  where "decode_set sha d =
    and_then (map_err Fails (read_uuid Archive_Malformed d)) (\<lambda>(set_id, d).
    and_then (map_err Fails (read_uuid Archive_Malformed d)) (\<lambda>(installation_id, d).
    and_then (map_err Fails (read_uuid Archive_Malformed d)) (\<lambda>(generation_id, d).
    and_then (map_err Fails (read_u8 Archive_Malformed d)) (\<lambda>(code, d).
    and_then (map_err Fails (lifecycle_from_code code)) (\<lambda>lifecycle.
    and_then (map_err Fails (read_bool Archive_Malformed d)) (\<lambda>(deletion_requested, d).
    and_then (map_err Fails (read_optional_digest d)) (\<lambda>(deletion_preparation, d).
    and_then (map_err Fails (read_optional_digest d)) (\<lambda>(key_erasure_preparation, d).
    and_then (map_err Fails (read_u64 Archive_Malformed d)) (\<lambda>(ordinal, d).
    and_then (map_err Fails (read_digest Archive_Malformed d)) (\<lambda>(head_digest, d).
    let head = \<lparr> ah_checkpoint_ordinal = ordinal, ah_digest = head_digest \<rparr> in
    and_then (map_err Fails (read_usize Archive_Malformed d)) (\<lambda>(checkpoint_count, d).
    if checkpoint_count * checkpoint_size > 2 ^ 63 - 1 then Err Panics
    else
    and_then (map_err Fails (decode_checkpoints set_id checkpoint_count 0 d)) (\<lambda>(checkpoints, d).
    and_then (map_err Fails (validate_checkpoints sha head checkpoints)) (\<lambda>_.
    and_then (map_err Fails (validate_preparations lifecycle deletion_preparation key_erasure_preparation))
      (\<lambda>_.
    and_then (map_err Fails (read_usize Archive_Malformed d)) (\<lambda>(hold_count, d).
    and_then (map_err Fails (decode_holds hold_count [] d)) (\<lambda>(holds, d).
    Ok (\<lparr> bs_identity = \<lparr> bi_set_id = set_id, bi_installation_id = installation_id,
                           bi_generation_id = generation_id \<rparr>,
          bs_lifecycle = lifecycle, bs_deletion_requested = deletion_requested,
          bs_deletion_preparation = deletion_preparation,
          bs_key_erasure_preparation = key_erasure_preparation, bs_head = head,
          bs_checkpoints = checkpoints, bs_holds = holds \<rparr>, d)))))))))))))))))"

fun decode_sets ::
    "(byte list \<Rightarrow> digest) \<Rightarrow> nat \<Rightarrow> (uuid \<times> backup_set_state) list \<Rightarrow> decoder
     \<Rightarrow> (backup_archive_error failure, (uuid \<times> backup_set_state) list \<times> decoder) result"
  where
    "decode_sets sha 0 sets d = Ok (sets, d)"
  | "decode_sets sha (Suc n) sets d =
       and_then (decode_set sha d) (\<lambda>(st, d).
       if map_of sets (bi_set_id (bs_identity st)) \<noteq> None then Err (Fails Archive_Malformed)
       else decode_sets sha n (bt_insert (bi_set_id (bs_identity st)) st sets) d)"

definition archive_from_canonical_bytes ::
    "(byte list \<Rightarrow> digest) \<Rightarrow> byte list \<Rightarrow> (backup_archive_error failure, backup_archive_state) result"
  where "archive_from_canonical_bytes sha bytes =
    (if bytes = [] then Ok archive_empty
     else
       and_then (map_err Fails (read_u8 Archive_Malformed (decoder_new bytes))) (\<lambda>(version, d).
       if version \<noteq> archive_state_version then Err (Fails Archive_Malformed)
       else
         and_then (map_err Fails (read_usize Archive_Malformed d)) (\<lambda>(set_count, d).
         and_then (decode_sets sha set_count [] d) (\<lambda>(sets, d).
         and_then (map_err Fails (finish_decoder Archive_Malformed d)) (\<lambda>_.
         Ok \<lparr> ba_sets = sets \<rparr>)))))"

section \<open>The invariant\<close>

definition checkpoint_head :: "(byte list \<Rightarrow> digest) \<Rightarrow> wal_archive_checkpoint \<Rightarrow> archive_head"
  where "checkpoint_head sha c =
    \<lparr> ah_checkpoint_ordinal = ao_ordinal (wc_object c), ah_digest = checkpoint_digest sha c \<rparr>"

text \<open>One checkpoint follows another: the next ordinal, and the digest of its predecessor.\<close>

definition checkpoint_links ::
    "(byte list \<Rightarrow> digest) \<Rightarrow> wal_archive_checkpoint \<Rightarrow> wal_archive_checkpoint \<Rightarrow> bool"
  where "checkpoint_links sha a b \<longleftrightarrow>
    unat (ao_ordinal (wc_object b)) = Suc (unat (ao_ordinal (wc_object a))) \<and>
    ao_predecessor_head_digest (wc_object b) = checkpoint_digest sha a"

text \<open>A base backup first, and behind it history of the same timeline that does not precede it.\<close>

fun based :: "wal_archive_checkpoint list \<Rightarrow> bool"
  where
    "based [] = True"
  | "based (c # cs) =
       (ao_kind (wc_object c) = BaseChunk \<and> ao_ordinal (wc_object c) = 1 \<and>
        list_all (\<lambda>x. ao_kind (wc_object x) \<noteq> BaseChunk \<and>
          (ao_kind (wc_object x) = WalSegment \<longrightarrow>
             ao_timeline (wc_object x) = ao_timeline (wc_object c) \<and>
             ao_start_lsn (wc_object c) \<le> ao_start_lsn (wc_object x))) cs)"

definition checkpoints_ok :: "(byte list \<Rightarrow> digest) \<Rightarrow> uuid \<Rightarrow> wal_archive_checkpoint list \<Rightarrow> bool"
  where "checkpoints_ok sha i cs \<longleftrightarrow>
    list_all (\<lambda>c. ao_set_id (wc_object c) = i \<and> is_ok (descriptor_new (wc_object c))) cs \<and>
    based cs \<and> successively (checkpoint_links sha) cs"

definition holds_ok :: "(uuid \<times> restore_hold) list \<Rightarrow> bool"
  where "holds_ok hs \<longleftrightarrow> bt_ok hs \<and> list_all (\<lambda>(k, h). rh_id h = k) hs"

definition set_ok :: "(byte list \<Rightarrow> digest) \<Rightarrow> uuid \<Rightarrow> backup_set_state \<Rightarrow> bool"
  where "set_ok sha i st \<longleftrightarrow>
    bi_set_id (bs_identity st) = i \<and> checkpoints_ok sha i (bs_checkpoints st) \<and>
    (bs_checkpoints st \<noteq> [] \<longrightarrow> bs_head st = checkpoint_head sha (last (bs_checkpoints st))) \<and>
    is_ok (validate_preparations (bs_lifecycle st) (bs_deletion_preparation st)
             (bs_key_erasure_preparation st)) \<and>
    (bs_lifecycle st \<noteq> Streaming \<longrightarrow> bs_checkpoints st \<noteq> [] \<and> \<not> any_active_hold st) \<and>
    holds_ok (bs_holds st)"

definition archive_ok :: "(byte list \<Rightarrow> digest) \<Rightarrow> backup_archive_state \<Rightarrow> bool"
  where "archive_ok sha s \<longleftrightarrow> bt_ok (ba_sets s) \<and> list_all (\<lambda>(i, st). set_ok sha i st) (ba_sets s)"

text \<open>The calls on an archive; a checkpoint is committed through a reservation for its object.\<close>

datatype archive_call =
    Call_Start backup_set_identity archive_head
  | Call_Commit uuid archive_head archive_object_descriptor
  | Call_AcquireHold uuid uuid
  | Call_ReleaseHold uuid uuid restore_hold_release_reason
  | Call_BeginSealing uuid
  | Call_CommitSealed uuid
  | Call_PrepareDeletion uuid digest
  | Call_PrepareKeyErasure uuid digest
  | Call_RecordKeyErased uuid
  | Call_FinalizeDeleted uuid

fun archive_perform ::
    "(byte list \<Rightarrow> digest) \<Rightarrow> backup_archive_state \<Rightarrow> archive_call
     \<Rightarrow> (backup_archive_error, backup_archive_state) result"
  where
    "archive_perform sha s (Call_Start identity head) = start_streaming s identity head"
  | "archive_perform sha s (Call_Commit i expected input) =
       and_then (descriptor_new input) (\<lambda>object.
       and_then (reservation_new i expected object) (\<lambda>r.
       commit_checkpoint sha s r (checkpoint_from_reservation r)))"
  | "archive_perform sha s (Call_AcquireHold i h) = acquire_restore_hold s i h"
  | "archive_perform sha s (Call_ReleaseHold i h reason) = release_restore_hold s i h reason"
  | "archive_perform sha s (Call_BeginSealing i) = begin_sealing s i"
  | "archive_perform sha s (Call_CommitSealed i) = commit_sealed s i"
  | "archive_perform sha s (Call_PrepareDeletion i p) = prepare_deletion s i p"
  | "archive_perform sha s (Call_PrepareKeyErasure i p) = prepare_archive_key_erasure s i p"
  | "archive_perform sha s (Call_RecordKeyErased i) = record_archive_key_erased s i"
  | "archive_perform sha s (Call_FinalizeDeleted i) = finalize_deleted s i"

section \<open>Every call keeps the invariant\<close>

lemma archive_set_Ok_iff: "archive_set s i = Ok st \<longleftrightarrow> map_of (ba_sets s) i = Some st"
  by (simp add: archive_set_def ok_or_Ok_iff)

lemma archive_lookup_ok: "archive_ok sha s \<Longrightarrow> map_of (ba_sets s) i = Some st \<Longrightarrow> set_ok sha i st"
  by (auto simp: archive_ok_def list_all_iff dest: map_of_SomeD)

lemma archive_ok_iff:
  "archive_ok sha s \<longleftrightarrow> bt_ok (ba_sets s) \<and> (\<forall>i st. map_of (ba_sets s) i = Some st \<longrightarrow> set_ok sha i st)"
proof (cases "bt_ok (ba_sets s)")
  case True
  then show ?thesis
    by (auto simp: archive_ok_def list_all_iff btree.entry_lookup [OF True] dest: map_of_SomeD)
qed (simp add: archive_ok_def)

text \<open>Changing one set keeps the invariant as soon as that set keeps it.\<close>

lemma with_set_Ok_iff:
  "with_set s i f = Ok s' \<longleftrightarrow> (\<exists>st. map_of (ba_sets s) i = Some st) \<and> s' = s\<lparr>ba_sets := bt_adjust i f (ba_sets s)\<rparr>"
  by (auto simp: with_set_def)

lemma adjust_set_ok:
  assumes "archive_ok sha s" "map_of (ba_sets s) i = Some st" "set_ok sha i (f st)"
  shows "archive_ok sha (s\<lparr>ba_sets := bt_adjust i f (ba_sets s)\<rparr>)"
  using assms by (auto simp: archive_ok_iff btree.ok_adjust bt_lookup_adjust split: if_splits)

lemma with_set_ok:
  assumes "archive_ok sha s" "with_set s i f = Ok s'" "\<And>st. map_of (ba_sets s) i = Some st \<Longrightarrow> set_ok sha i (f st)"
  shows "archive_ok sha s'"
  using assms adjust_set_ok by (auto simp: with_set_Ok_iff)

lemma fresh_set_ok:
  "set_ok sha (bi_set_id identity) \<lparr> bs_identity = identity, bs_lifecycle = Streaming,
     bs_deletion_requested = False, bs_deletion_preparation = None,
     bs_key_erasure_preparation = None, bs_head = head, bs_checkpoints = [], bs_holds = [] \<rparr>"
  by (simp add: set_ok_def checkpoints_ok_def validate_preparations_def holds_ok_def bt_ok_def)

lemma insert_set_ok:
  assumes "archive_ok sha s" "set_ok sha i st"
  shows "archive_ok sha (s\<lparr>ba_sets := bt_insert i st (ba_sets s)\<rparr>)"
proof -
  have ok: "bt_ok (ba_sets s)"
    using assms(1) by (simp add: archive_ok_def)
  show ?thesis
    using assms unfolding archive_ok_iff by (simp add: bt_ok_insert [OF ok] bt_lookup_insert [OF ok])
qed

lemma start_streaming_ok:
  assumes "archive_ok sha s" "start_streaming s identity head = Ok s'"
  shows "archive_ok sha s'"
  using assms insert_set_ok [OF assms(1) fresh_set_ok]
  by (auto simp: start_streaming_def split: if_splits)

lemma has_base_iff: "checkpoints_ok sha i (bs_checkpoints st) \<Longrightarrow> has_base_checkpoint st \<longleftrightarrow> bs_checkpoints st \<noteq> []"
  by (cases "bs_checkpoints st") (auto simp: has_base_checkpoint_def checkpoints_ok_def)

lemma follows_head_iff:
  "follows_head i h obj \<longleftrightarrow> ao_set_id obj = i \<and> ao_predecessor_head_digest obj = ah_digest h \<and>
     unat (ao_ordinal obj) = Suc (unat (ah_checkpoint_ordinal h))"
proof -
  have "(case checked_add (ah_checkpoint_ordinal h) 1 of None \<Rightarrow> False | Some n \<Rightarrow> ao_ordinal obj = n)
      \<longleftrightarrow> checked_add (ah_checkpoint_ordinal h) 1 = Some (ao_ordinal obj)"
    by (auto split: option.splits)
  then show ?thesis
    by (simp add: follows_head_def checked_add_Some_iff)
qed

lemma append_kind_based:
  assumes "based cs" "is_ok (validate_append_kind st obj)" "bs_checkpoints st = cs"
  shows "based (cs @ [\<lparr> wc_object = obj \<rparr>])"
  using assms
  by (cases cs) (auto simp: validate_append_kind_def has_base_checkpoint_def Let_def
      split: archive_object_kind.splits if_splits)

lemma append_checkpoint_ok:
  assumes ok: "set_ok sha i st" and obj: "descriptor_new obj = Ok obj" "follows_head i (bs_head st) obj"
    and kind: "is_ok (validate_append_kind st obj)" and live: "bs_lifecycle st = Streaming"
  defines "c \<equiv> \<lparr> wc_object = obj \<rparr>"
  shows "set_ok sha i (st\<lparr>bs_head := checkpoint_head sha c, bs_checkpoints := bs_checkpoints st @ [c]\<rparr>)"
proof -
  have cs: "checkpoints_ok sha i (bs_checkpoints st)"
    using ok by (simp add: set_ok_def)
  have "successively (checkpoint_links sha) (bs_checkpoints st @ [c])"
    using cs ok obj(2)
    by (cases "bs_checkpoints st = []")
      (auto simp: successively_append_iff checkpoints_ok_def set_ok_def checkpoint_links_def c_def
        checkpoint_head_def follows_head_iff)
  moreover have "based (bs_checkpoints st @ [c])"
    using append_kind_based [OF _ kind refl] cs by (simp add: checkpoints_ok_def c_def)
  ultimately have "checkpoints_ok sha i (bs_checkpoints st @ [c])"
    using cs obj by (simp add: checkpoints_ok_def c_def follows_head_iff)
  then show ?thesis
    using ok live by (simp add: set_ok_def)
qed

definition with_checkpoint ::
    "(byte list \<Rightarrow> digest) \<Rightarrow> wal_archive_checkpoint \<Rightarrow> backup_set_state \<Rightarrow> backup_set_state"
  where "with_checkpoint sha c st =
    st\<lparr>bs_head := checkpoint_head sha c, bs_checkpoints := bs_checkpoints st @ [c]\<rparr>"

lemma commit_call_iff:
  "archive_perform sha s (Call_Commit i h input) = Ok s' \<longleftrightarrow>
     (\<exists>st. map_of (ba_sets s) i = Some st \<and> bs_lifecycle st = Streaming \<and> bs_head st = h \<and>
        descriptor_new input = Ok input \<and> follows_head i h input \<and> is_ok (validate_append_kind st input) \<and>
        s' = s\<lparr>ba_sets := bt_adjust i (with_checkpoint sha \<lparr> wc_object = input \<rparr>) (ba_sets s)\<rparr>)"
  by (auto simp: and_then_Ok_iff descriptor_new_def reservation_new_def commit_checkpoint_def
      archive_set_Ok_iff with_set_Ok_iff checkpoint_from_reservation_def checkpoint_head_def is_ok_iff
      with_checkpoint_def [abs_def] split: if_splits)

lemma commit_checkpoint_ok:
  assumes ok: "archive_ok sha s" and run: "archive_perform sha s (Call_Commit i h input) = Ok s'"
  shows "archive_ok sha s'"
proof -
  obtain st where st: "map_of (ba_sets s) i = Some st" "bs_lifecycle st = Streaming" "bs_head st = h"
      "descriptor_new input = Ok input" "follows_head i h input" "is_ok (validate_append_kind st input)"
      "s' = s\<lparr>ba_sets := bt_adjust i (with_checkpoint sha \<lparr> wc_object = input \<rparr>) (ba_sets s)\<rparr>"
    using run commit_call_iff by blast
  show ?thesis
    unfolding st(7)
    by (rule adjust_set_ok [OF ok st(1)], unfold with_checkpoint_def, rule append_checkpoint_ok)
      (use st archive_lookup_ok [OF ok st(1)] in auto)
qed

lemma holds_ok_iff:
  "holds_ok hs \<longleftrightarrow> bt_ok hs \<and> (\<forall>k h. map_of hs k = Some h \<longrightarrow> rh_id h = k)"
proof (cases "bt_ok hs")
  case True
  then show ?thesis
    by (auto simp: holds_ok_def list_all_iff btree.entry_lookup [OF True] dest: map_of_SomeD)
qed (simp add: holds_ok_def)

lemma any_active_iff:
  assumes "bt_ok (bs_holds st)"
  shows "any_active_hold st \<longleftrightarrow> (\<exists>k h. map_of (bs_holds st) k = Some h \<and> hold_active h)"
proof
  assume "any_active_hold st"
  then obtain k h where "(k, h) \<in> set (bs_holds st)" "hold_active h"
    by (auto simp: any_active_hold_def list_ex_iff)
  then show "\<exists>k h. map_of (bs_holds st) k = Some h \<and> hold_active h"
    using btree.entry_lookup [OF assms] by blast
next
  assume "\<exists>k h. map_of (bs_holds st) k = Some h \<and> hold_active h"
  then show "any_active_hold st"
    by (auto simp: any_active_hold_def list_ex_iff dest!: map_of_SomeD)
qed

lemma insert_hold_ok:
  assumes "holds_ok hs"
  shows "holds_ok (bt_insert k \<lparr> rh_id = k, rh_release_reason = r \<rparr> hs)"
proof -
  have ok: "bt_ok hs"
    using assms by (simp add: holds_ok_def)
  show ?thesis
    using assms unfolding holds_ok_iff by (simp add: bt_ok_insert [OF ok] bt_lookup_insert [OF ok])
qed

lemma acquire_hold_Ok_iff:
  "acquire_restore_hold s i h = Ok s' \<longleftrightarrow> (\<exists>st. map_of (ba_sets s) i = Some st \<and> bs_lifecycle st = Streaming \<and>
     has_base_checkpoint st \<and> map_of (bs_holds st) h = None \<and>
     s' = s\<lparr>ba_sets := bt_adjust i (\<lambda>st. st\<lparr>bs_holds :=
       bt_insert h \<lparr> rh_id = h, rh_release_reason = None \<rparr> (bs_holds st)\<rparr>) (ba_sets s)\<rparr>)"
  by (auto simp: acquire_restore_hold_def and_then_Ok_iff archive_set_Ok_iff with_set_Ok_iff split: if_splits)

lemma acquire_hold_ok:
  assumes ok: "archive_ok sha s" and run: "acquire_restore_hold s i h = Ok s'"
  shows "archive_ok sha s'"
proof -
  obtain st where st: "map_of (ba_sets s) i = Some st" "bs_lifecycle st = Streaming"
      "s' = s\<lparr>ba_sets := bt_adjust i (\<lambda>st. st\<lparr>bs_holds :=
           bt_insert h \<lparr> rh_id = h, rh_release_reason = None \<rparr> (bs_holds st)\<rparr>) (ba_sets s)\<rparr>"
    using run acquire_hold_Ok_iff by blast
  show ?thesis
    unfolding st(3)
    by (rule adjust_set_ok [OF ok st(1)])
      (use st(2) archive_lookup_ok [OF ok st(1)] in \<open>auto simp: set_ok_def insert_hold_ok\<close>)
qed

lemma release_one_hold:
  fixes h :: uuid and reason :: restore_hold_release_reason
  assumes ok: "holds_ok (bs_holds st)"
  defines "hs \<equiv> bt_adjust h (\<lambda>x. x\<lparr>rh_release_reason := Some reason\<rparr>) (bs_holds st)"
  shows "holds_ok hs" "\<not> any_active_hold st \<Longrightarrow> \<not> any_active_hold (st\<lparr>bs_holds := hs\<rparr>)"
proof -
  have bt: "bt_ok (bs_holds st)" "bt_ok hs"
    using ok by (simp_all add: holds_ok_def hs_def btree.ok_adjust)
  show "holds_ok hs"
    using ok bt(2) by (auto simp: holds_ok_iff hs_def bt_lookup_adjust split: if_splits)
  show "\<not> any_active_hold (st\<lparr>bs_holds := hs\<rparr>)" if none: "\<not> any_active_hold st"
  proof
    assume "any_active_hold (st\<lparr>bs_holds := hs\<rparr>)"
    then obtain k x where "map_of hs k = Some x" "hold_active x"
      using any_active_iff [of "st\<lparr>bs_holds := hs\<rparr>"] bt(2) by auto
    then have "map_of (bs_holds st) k = Some x \<and> hold_active x"
      by (auto simp: hs_def bt_lookup_adjust hold_active_def split: if_splits)
    then show False
      using none any_active_iff [OF bt(1)] by blast
  qed
qed

lemma release_hold_ok:
  assumes ok: "archive_ok sha s" and run: "release_restore_hold s i h reason = Ok s'"
  shows "archive_ok sha s'"
proof -
  obtain st where st: "map_of (ba_sets s) i = Some st"
      "s' = s\<lparr>ba_sets := bt_adjust i (\<lambda>st. st\<lparr>bs_holds :=
           bt_adjust h (\<lambda>x. x\<lparr>rh_release_reason := Some reason\<rparr>) (bs_holds st)\<rparr>) (ba_sets s)\<rparr>"
    using run by (auto simp: release_restore_hold_def and_then_Ok_iff archive_set_Ok_iff with_set_Ok_iff
        split: if_splits)
  show ?thesis
    unfolding st(2)
    by (rule adjust_set_ok [OF ok st(1)])
      (use archive_lookup_ok [OF ok st(1)] release_one_hold [of st h reason] in \<open>auto simp: set_ok_def\<close>)
qed

text \<open>The steps from sealing to deletion.\<close>

lemma transition_from_Ok_iff:
  "transition_from s i a b = Ok s' \<longleftrightarrow> (\<exists>st. map_of (ba_sets s) i = Some st \<and> bs_lifecycle st = a) \<and>
     s' = s\<lparr>ba_sets := bt_adjust i (\<lambda>st. st\<lparr>bs_lifecycle := b\<rparr>) (ba_sets s)\<rparr>"
  by (auto simp: transition_from_def archive_transition_def and_then_Ok_iff archive_set_Ok_iff with_set_Ok_iff)

lemma bt_adjust_adjust: "bt_adjust k g (bt_adjust k f m) = bt_adjust k (\<lambda>v. g (f v)) m"
  by (simp add: bt_adjust_def case_prod_unfold comp_def)

lemma no_active_Ok_iff:
  "require_no_active_holds s i = Ok u \<longleftrightarrow> (\<exists>st. map_of (ba_sets s) i = Some st \<and> \<not> any_active_hold st)"
  by (auto simp: require_no_active_holds_def and_then_Ok_iff archive_set_Ok_iff)

definition lifecycle_change ::
    "backup_set_lifecycle \<Rightarrow> digest option \<Rightarrow> digest option \<Rightarrow> backup_set_state \<Rightarrow> backup_set_state"
  where "lifecycle_change l dp kp st =
    st\<lparr>bs_lifecycle := l, bs_deletion_preparation := dp, bs_key_erasure_preparation := kp\<rparr>"

lemma any_active_change [simp]:
  "any_active_hold (lifecycle_change l dp kp st) = any_active_hold st"
  by (simp add: any_active_hold_def lifecycle_change_def)

lemma lifecycle_change_ok:
  assumes "set_ok sha i st" "bs_checkpoints st \<noteq> []" "\<not> any_active_hold st"
    and "is_ok (validate_preparations l dp kp)"
  shows "set_ok sha i (lifecycle_change l dp kp st)"
  using assms any_active_change [of l dp kp st] by (simp add: set_ok_def) (simp add: lifecycle_change_def)

lemma preparations_Ok_iff:
  "is_ok (validate_preparations l dp kp) \<longleftrightarrow>
     (l \<in> {DeletionPrepared, ArchiveKeyErased, Deleted} \<longleftrightarrow> dp \<noteq> None) \<and>
     (kp \<noteq> None \<longrightarrow> kp = dp) \<and> (l \<in> {ArchiveKeyErased, Deleted} \<longrightarrow> kp \<noteq> None)"
  by (auto simp: validate_preparations_def)

lemma adjust_lifecycle_ok:
  assumes ok: "archive_ok sha s" and st: "map_of (ba_sets s) i = Some st"
    and f: "f st = lifecycle_change l dp kp st"
    and set: "bs_checkpoints st \<noteq> []" "\<not> any_active_hold st" "is_ok (validate_preparations l dp kp)"
  shows "archive_ok sha (s\<lparr>ba_sets := bt_adjust i f (ba_sets s)\<rparr>)"
  by (rule adjust_set_ok [OF ok st]) (use f set archive_lookup_ok [OF ok st] lifecycle_change_ok in simp)

lemma begin_sealing_ok:
  assumes ok: "archive_ok sha s" and run: "begin_sealing s i = Ok s'"
  shows "archive_ok sha s'"
proof -
  obtain st where st: "map_of (ba_sets s) i = Some st" "bs_lifecycle st = Streaming"
      "has_base_checkpoint st" "\<not> any_active_hold st"
      "s' = s\<lparr>ba_sets := bt_adjust i (\<lambda>st. st\<lparr>bs_lifecycle := Sealing\<rparr>) (ba_sets s)\<rparr>"
    using run by (auto simp: begin_sealing_def archive_transition_def and_then_Ok_iff archive_set_Ok_iff
        with_set_Ok_iff split: if_splits)
  have sok: "set_ok sha i st"
    by (rule archive_lookup_ok [OF ok st(1)])
  show ?thesis
    unfolding st(5)
    by (rule adjust_lifecycle_ok [OF ok st(1), of _ Sealing None None])
      (use sok st has_base_iff [of sha i st] in \<open>auto simp: set_ok_def preparations_Ok_iff lifecycle_change_def\<close>)
qed

lemma commit_sealed_ok:
  assumes ok: "archive_ok sha s" and run: "commit_sealed s i = Ok s'"
  shows "archive_ok sha s'"
proof -
  obtain st where st: "map_of (ba_sets s) i = Some st" "bs_lifecycle st = Sealing"
      "s' = s\<lparr>ba_sets := bt_adjust i (\<lambda>st. st\<lparr>bs_lifecycle := Sealed\<rparr>) (ba_sets s)\<rparr>"
    using run by (auto simp: commit_sealed_def and_then_Ok_iff transition_from_Ok_iff)
  show ?thesis
    unfolding st(3)
    by (rule adjust_lifecycle_ok [OF ok st(1), of _ Sealed None None])
      (use archive_lookup_ok [OF ok st(1)] st(2) in \<open>auto simp: set_ok_def preparations_Ok_iff lifecycle_change_def\<close>)
qed

lemma prepare_deletion_Ok_iff:
  "prepare_deletion s i p = Ok s' \<longleftrightarrow> (\<exists>st. map_of (ba_sets s) i = Some st \<and> bs_lifecycle st = Sealed \<and>
     \<not> any_active_hold st \<and> s' = s\<lparr>ba_sets := bt_adjust i (\<lambda>st. st\<lparr>bs_lifecycle := DeletionPrepared,
        bs_deletion_preparation := Some p\<rparr>) (ba_sets s)\<rparr>)"
  by (auto simp: prepare_deletion_def and_then_Ok_iff transition_from_Ok_iff with_set_Ok_iff no_active_Ok_iff
      bt_adjust_adjust bt_lookup_adjust)

lemma prepare_deletion_ok:
  assumes ok: "archive_ok sha s" and run: "prepare_deletion s i p = Ok s'"
  shows "archive_ok sha s'"
proof -
  obtain st where st: "map_of (ba_sets s) i = Some st" "bs_lifecycle st = Sealed"
      "s' = s\<lparr>ba_sets := bt_adjust i (\<lambda>st. st\<lparr>bs_lifecycle := DeletionPrepared,
        bs_deletion_preparation := Some p\<rparr>) (ba_sets s)\<rparr>"
    using run prepare_deletion_Ok_iff by blast
  show ?thesis
    unfolding st(3)
    by (rule adjust_lifecycle_ok [OF ok st(1), of _ DeletionPrepared "Some p" None])
      (use archive_lookup_ok [OF ok st(1)] st(2) in \<open>auto simp: set_ok_def preparations_Ok_iff lifecycle_change_def\<close>)
qed

lemma prepare_key_erasure_Ok_iff:
  "prepare_archive_key_erasure s i p = Ok s' \<longleftrightarrow> (\<exists>st. map_of (ba_sets s) i = Some st \<and>
     bs_lifecycle st = DeletionPrepared \<and> bs_deletion_preparation st = Some p \<and>
     bs_key_erasure_preparation st = None \<and>
     s' = s\<lparr>ba_sets := bt_adjust i (\<lambda>st. st\<lparr>bs_key_erasure_preparation := Some p\<rparr>) (ba_sets s)\<rparr>)"
  by (auto simp: prepare_archive_key_erasure_def and_then_Ok_iff archive_set_Ok_iff with_set_Ok_iff
      split: if_splits)

lemma prepare_key_erasure_ok:
  assumes ok: "archive_ok sha s" and run: "prepare_archive_key_erasure s i p = Ok s'"
  shows "archive_ok sha s'"
proof -
  obtain st where st: "map_of (ba_sets s) i = Some st" "bs_lifecycle st = DeletionPrepared"
      "bs_deletion_preparation st = Some p"
      "s' = s\<lparr>ba_sets := bt_adjust i (\<lambda>st. st\<lparr>bs_key_erasure_preparation := Some p\<rparr>) (ba_sets s)\<rparr>"
    using run prepare_key_erasure_Ok_iff by blast
  show ?thesis
    unfolding st(4)
    by (rule adjust_lifecycle_ok [OF ok st(1), of _ DeletionPrepared "Some p" "Some p"])
      (use archive_lookup_ok [OF ok st(1)] st(2,3) in \<open>auto simp: set_ok_def preparations_Ok_iff lifecycle_change_def\<close>)
qed

lemma record_key_erased_ok:
  assumes ok: "archive_ok sha s" and run: "record_archive_key_erased s i = Ok s'"
  shows "archive_ok sha s'"
proof -
  obtain st p where st: "map_of (ba_sets s) i = Some st" "bs_lifecycle st = DeletionPrepared"
      "bs_key_erasure_preparation st = Some p" "bs_deletion_preparation st = Some p"
      "s' = s\<lparr>ba_sets := bt_adjust i (\<lambda>st. st\<lparr>bs_lifecycle := ArchiveKeyErased\<rparr>) (ba_sets s)\<rparr>"
    using run by (auto simp: record_archive_key_erased_def and_then_Ok_iff archive_set_Ok_iff
        transition_from_Ok_iff split: if_splits)
  show ?thesis
    unfolding st(5)
    by (rule adjust_lifecycle_ok [OF ok st(1), of _ ArchiveKeyErased "Some p" "Some p"])
      (use archive_lookup_ok [OF ok st(1)] st(2-4) in \<open>auto simp: set_ok_def preparations_Ok_iff lifecycle_change_def\<close>)
qed

lemma finalize_deleted_ok:
  assumes ok: "archive_ok sha s" and run: "finalize_deleted s i = Ok s'"
  shows "archive_ok sha s'"
proof -
  obtain st where st: "map_of (ba_sets s) i = Some st" "bs_lifecycle st = ArchiveKeyErased"
      "s' = s\<lparr>ba_sets := bt_adjust i (\<lambda>st. st\<lparr>bs_lifecycle := Deleted\<rparr>) (ba_sets s)\<rparr>"
    using run by (auto simp: finalize_deleted_def transition_from_Ok_iff)
  have sok: "set_ok sha i st"
    by (rule archive_lookup_ok [OF ok st(1)])
  show ?thesis
    unfolding st(3)
    by (rule adjust_lifecycle_ok [OF ok st(1), of _ Deleted "bs_deletion_preparation st" "bs_key_erasure_preparation st"])
      (use sok st(2) in \<open>auto simp: set_ok_def preparations_Ok_iff lifecycle_change_def\<close>)
qed

interpretation archive_system: fallible_system "archive_perform sha" "archive_ok sha" for sha
proof
  show "archive_ok sha s'" if "archive_ok sha s" "archive_perform sha s e = Ok s'" for s e s'
    using that
    by (cases e) (auto intro: start_streaming_ok commit_checkpoint_ok acquire_hold_ok release_hold_ok
        begin_sealing_ok commit_sealed_ok prepare_deletion_ok prepare_key_erasure_ok record_key_erased_ok
        finalize_deleted_ok simp del: archive_perform.simps(2))
qed

section \<open>Canonical bytes, proved\<close>

lemma object_kind_roundtrip [simp]: "object_kind_from_code (object_kind_code k) = Ok k"
  by (cases k) (simp_all add: object_kind_from_code_def)

lemma lifecycle_roundtrip [simp]: "lifecycle_from_code (lifecycle_code l) = Ok l"
  by (cases l) (simp_all add: lifecycle_from_code_def)

lemma release_reason_roundtrip [simp]:
  "release_reason_of_kind (release_reason_kind r) (reason_receipt r) = Some r"
  by (cases r) (simp_all add: release_reason_of_kind_def)

lemma descriptor_new_same: "is_ok (descriptor_new obj) \<Longrightarrow> descriptor_new obj = Ok obj"
  by (auto simp: descriptor_new_def split: if_splits)

interpretation descriptor_codec: codec descriptor_encode descriptor_decode "\<lambda>obj. is_ok (descriptor_new obj)"
proof unfold_locales
  show "descriptor_decode (reading pre (descriptor_encode obj @ zs)) =
      Ok (obj, reading (pre @ descriptor_encode obj) zs)"
    if "is_ok (descriptor_new obj)" for obj pre zs
    using descriptor_new_same [OF that]
    by (cases obj) (simp add: descriptor_encode_def descriptor_decode_def codec_simps)
qed

lemma checkpoint_domain_length: "length checkpoint_domain = 34"
  by (simp add: checkpoint_domain_def ascii_def)

interpretation checkpoint_codec:
  codec checkpoint_canonical_bytes checkpoint_decode "\<lambda>c. is_ok (descriptor_new (wc_object c))"
  by unfold_locales
    (simp add: checkpoint_canonical_bytes_def checkpoint_decode_def checkpoint_domain_length codec_simps
      descriptor_codec.decode_encode)

interpretation release_reason_codec: codec release_reason_encode release_reason_decode "\<lambda>_. True"
  by unfold_locales (simp add: release_reason_encode_def release_reason_decode_def codec_simps)

interpretation optional_digest_codec: codec optional_digest_encode read_optional_digest "\<lambda>_. True"
  by unfold_locales
    (auto simp: optional_digest_encode_def read_optional_digest_def codec_simps split: option.split)

lemma checkpoint_bytes_length: "length (checkpoint_canonical_bytes c) = 207"
  by (simp add: checkpoint_canonical_bytes_def descriptor_encode_def checkpoint_domain_length)

text \<open>The loop over checkpoints reads back a list with growing ordinals.\<close>

fun ascending :: "u64 \<Rightarrow> wal_archive_checkpoint list \<Rightarrow> bool"
  where
    "ascending n [] = True"
  | "ascending n (c # cs) = (n < ao_ordinal (wc_object c) \<and> ascending (ao_ordinal (wc_object c)) cs)"

lemma links_ascending:
  "successively (checkpoint_links sha) (c # cs) \<Longrightarrow> ascending (ao_ordinal (wc_object c)) cs"
  by (induction cs arbitrary: c) (auto simp: checkpoint_links_def word_less_nat_alt)

lemma decode_checkpoints_encode:
  assumes "list_all (\<lambda>c. ao_set_id (wc_object c) = i \<and> is_ok (descriptor_new (wc_object c))) cs"
    and "ascending n cs"
  shows "decode_checkpoints i (length cs) n
      (reading pre (concat (map (\<lambda>c. field (checkpoint_canonical_bytes c)) cs) @ zs)) =
    Ok (cs, reading (pre @ concat (map (\<lambda>c. field (checkpoint_canonical_bytes c)) cs)) zs)"
  using assms
proof (induction cs arbitrary: n pre)
  case Nil
  then show ?case by simp
next
  case (Cons c cs)
  have "checkpoint_decode (decoder_new (checkpoint_canonical_bytes c)) =
      Ok (c, reading (checkpoint_canonical_bytes c) [])"
    using checkpoint_codec.decode_whole [of c "[]"] Cons.prems(1) by (simp add: decoder_new_reading)
  then show ?case
    using Cons by (simp add: codec_simps checkpoint_bytes_length not_le)
qed

lemma decode_holds_step:
  "decode_holds (Suc n) m (reading pre (hold_encode h @ zs)) =
     (if map_of m (rh_id h) \<noteq> None then Err Archive_Malformed
      else decode_holds n (bt_insert (rh_id h) h m) (reading (pre @ hold_encode h) zs))"
proof -
  obtain k r where h: "h = \<lparr> rh_id = k, rh_release_reason = r \<rparr>"
    by (cases h)
  show ?thesis
    by (cases r) (simp_all add: h hold_encode_def codec_simps release_reason_codec.decode_encode)
qed

lemma decode_holds_encode:
  assumes "list_all (\<lambda>(k, h). rh_id h = k) hs" "distinct (map fst hs)"
    and "\<And>k. k \<in> fst ` set hs \<Longrightarrow> map_of m k = None" "bt_ok m"
  shows "decode_holds (length hs) m (reading pre (concat (map (\<lambda>(_, h). hold_encode h) hs) @ zs)) =
    Ok (fold (\<lambda>(k, h). bt_insert k h) hs m,
        reading (pre @ concat (map (\<lambda>(_, h). hold_encode h) hs)) zs)"
  using assms
proof (induction hs arbitrary: m pre)
  case Nil
  then show ?case by simp
next
  case (Cons e hs)
  obtain k h where e: "e = (k, h)" "rh_id h = k"
    using Cons.prems(1) by (cases e) auto
  have IH: "decode_holds (length hs) (bt_insert k h m) (reading pre' (concat (map (\<lambda>(_, h). hold_encode h) hs) @ zs)) =
    Ok (fold (\<lambda>(k, h). bt_insert k h) hs (bt_insert k h m),
        reading (pre' @ concat (map (\<lambda>(_, h). hold_encode h) hs)) zs)" for pre'
    by (rule Cons.IH) (use Cons.prems e in \<open>auto simp: bt_lookup_insert bt_ok_insert image_iff\<close>)
  have "map_of m k = None"
    using Cons.prems(3) e by auto
  then show ?case
    using e IH decode_holds_step [of "length hs" m pre h] by simp
qed

text \<open>
  What fits the format: counts that a machine can hold, and no head above zero without a
  checkpoint.
\<close>

definition set_storable :: "backup_set_state \<Rightarrow> bool"
  where "set_storable st \<longleftrightarrow>
    length (bs_checkpoints st) * checkpoint_size \<le> 2 ^ 63 - 1 \<and> length (bs_holds st) < 2 ^ 64 \<and>
    (bs_checkpoints st = [] \<longrightarrow> ah_checkpoint_ordinal (bs_head st) = 0)"

definition archive_storable :: "backup_archive_state \<Rightarrow> bool"
  where "archive_storable s \<longleftrightarrow>
    length (ba_sets s) < 2 ^ 64 \<and> list_all (\<lambda>(_, st). set_storable st) (ba_sets s)"

lemma checkpoints_validate:
  assumes "checkpoints_ok sha i cs" "cs \<noteq> [] \<Longrightarrow> head = checkpoint_head sha (last cs)"
    and "cs = [] \<Longrightarrow> ah_checkpoint_ordinal head = 0"
  shows "validate_checkpoints sha head cs = Ok ()"
  using assms
  by (cases cs) (auto simp: validate_checkpoints_def checkpoints_ok_def checkpoint_head_def list_ex_iff
      list_all_iff Let_def)

lemma checkpoints_decode:
  assumes ok: "checkpoints_ok sha i cs"
  shows "decode_checkpoints i (length cs) 0
      (reading pre (concat (map (\<lambda>c. field (checkpoint_canonical_bytes c)) cs) @ zs)) =
    Ok (cs, reading (pre @ concat (map (\<lambda>c. field (checkpoint_canonical_bytes c)) cs)) zs)"
proof (rule decode_checkpoints_encode)
  show "list_all (\<lambda>c. ao_set_id (wc_object c) = i \<and> is_ok (descriptor_new (wc_object c))) cs"
    using ok by (simp add: checkpoints_ok_def)
  show "ascending 0 cs"
  proof (cases cs)
    case (Cons c cs')
    then show ?thesis
      using ok links_ascending [of sha c cs'] by (simp add: checkpoints_ok_def word_less_nat_alt)
  qed simp
qed

lemma holds_decode:
  assumes "holds_ok hs"
  shows "decode_holds (length hs) [] (reading pre (concat (map (\<lambda>(_, h). hold_encode h) hs) @ zs)) =
    Ok (hs, reading (pre @ concat (map (\<lambda>(_, h). hold_encode h) hs)) zs)"
proof -
  have ok: "bt_ok hs"
    using assms by (simp add: holds_ok_def)
  show ?thesis
    using decode_holds_encode [of hs "[]" pre zs] assms bt_keys_distinct [OF ok] btree.rebuild [OF ok]
    by (simp add: holds_ok_def bt_ok_def)
qed

lemma small_count: "n * checkpoint_size \<le> 2 ^ 63 - 1 \<Longrightarrow> n < 2 ^ 64"
  by (simp add: checkpoint_size_def)

lemma decode_set_encode:
  assumes "set_ok sha i st" "set_storable st"
  shows "decode_set sha (reading pre (set_encode st @ zs)) = Ok (st, reading (pre @ set_encode st) zs)"
proof -
  obtain sid inst gen where ident: "bs_identity st = \<lparr> bi_set_id = sid, bi_installation_id = inst, bi_generation_id = gen \<rparr>"
    by (cases "bs_identity st")
  obtain ord dig where head: "bs_head st = \<lparr> ah_checkpoint_ordinal = ord, ah_digest = dig \<rparr>"
    by (cases "bs_head st")
  have cps: "checkpoints_ok sha sid (bs_checkpoints st)" "holds_ok (bs_holds st)"
    using assms(1) ident by (auto simp: set_ok_def)
  have val: "validate_checkpoints sha (bs_head st) (bs_checkpoints st) = Ok ()"
    by (rule checkpoints_validate [OF cps(1)]) (use assms in \<open>auto simp: set_ok_def set_storable_def\<close>)
  have prep: "validate_preparations (bs_lifecycle st) (bs_deletion_preparation st) (bs_key_erasure_preparation st) = Ok ()"
    using assms(1) by (auto simp: set_ok_def is_ok_iff)
  have cap: "\<not> 2 ^ 63 - 1 < length (bs_checkpoints st) * checkpoint_size" "length (bs_checkpoints st) < 2 ^ 64"
      "length (bs_holds st) < 2 ^ 64"
    using assms(2) small_count by (auto simp: set_storable_def not_less)
  have same: "st = \<lparr> bs_identity = \<lparr> bi_set_id = sid, bi_installation_id = inst, bi_generation_id = gen \<rparr>,
      bs_lifecycle = bs_lifecycle st, bs_deletion_requested = bs_deletion_requested st,
      bs_deletion_preparation = bs_deletion_preparation st,
      bs_key_erasure_preparation = bs_key_erasure_preparation st,
      bs_head = \<lparr> ah_checkpoint_ordinal = ord, ah_digest = dig \<rparr>,
      bs_checkpoints = bs_checkpoints st, bs_holds = bs_holds st \<rparr>"
    using ident head by (cases st) simp
  have "decode_set sha (reading pre (set_encode st @ zs)) = Ok (\<lparr> bs_identity =
      \<lparr> bi_set_id = sid, bi_installation_id = inst, bi_generation_id = gen \<rparr>,
      bs_lifecycle = bs_lifecycle st, bs_deletion_requested = bs_deletion_requested st,
      bs_deletion_preparation = bs_deletion_preparation st,
      bs_key_erasure_preparation = bs_key_erasure_preparation st,
      bs_head = \<lparr> ah_checkpoint_ordinal = ord, ah_digest = dig \<rparr>,
      bs_checkpoints = bs_checkpoints st, bs_holds = bs_holds st \<rparr>, reading (pre @ set_encode st) zs)"
    using cap val prep
    by (simp add: set_encode_def decode_set_def ident head codec_simps optional_digest_codec.decode_encode
        checkpoints_decode [OF cps(1)] holds_decode [OF cps(2)] Let_def)
  then show ?thesis
    using same by metis
qed

lemma decode_sets_encode:
  assumes "list_all (\<lambda>(i, st). set_ok sha i st \<and> set_storable st) sets" "distinct (map fst sets)"
    and "\<And>k. k \<in> fst ` set sets \<Longrightarrow> map_of m k = None" "bt_ok m"
  shows "decode_sets sha (length sets) m (reading pre (concat (map (\<lambda>(_, st). set_encode st) sets) @ zs)) =
    Ok (fold (\<lambda>(k, st). bt_insert k st) sets m,
        reading (pre @ concat (map (\<lambda>(_, st). set_encode st) sets)) zs)"
  using assms
proof (induction sets arbitrary: m pre)
  case Nil
  then show ?case by simp
next
  case (Cons e sets)
  obtain i st where e: "e = (i, st)" "set_ok sha i st" "set_storable st"
    using Cons.prems(1) by (cases e) auto
  have i: "bi_set_id (bs_identity st) = i"
    using e(2) by (simp add: set_ok_def)
  have IH: "decode_sets sha (length sets) (bt_insert i st m)
      (reading pre' (concat (map (\<lambda>(_, st). set_encode st) sets) @ zs)) =
    Ok (fold (\<lambda>(k, st). bt_insert k st) sets (bt_insert i st m),
        reading (pre' @ concat (map (\<lambda>(_, st). set_encode st) sets)) zs)" for pre'
    by (rule Cons.IH) (use Cons.prems e in \<open>auto simp: bt_lookup_insert bt_ok_insert image_iff\<close>)
  have "map_of m i = None"
    using Cons.prems(3) e by auto
  then show ?case
    using e(1) IH decode_set_encode [OF e(2,3)] i by simp
qed

lemma archive_decode_encode:
  assumes ok: "archive_ok sha s" "archive_storable s"
  shows "archive_from_canonical_bytes sha (archive_canonical_bytes s) = Ok s"
proof -
  have bt: "bt_ok (ba_sets s)"
    using ok(1) by (simp add: archive_ok_def)
  have "decode_sets sha (length (ba_sets s)) []
      (reading pre (concat (map (\<lambda>(_, st). set_encode st) (ba_sets s)) @ [])) =
    Ok (ba_sets s, reading (pre @ concat (map (\<lambda>(_, st). set_encode st) (ba_sets s))) [])" for pre
    using decode_sets_encode [of sha "ba_sets s" "[]" pre "[]"] ok bt_keys_distinct [OF bt] btree.rebuild [OF bt]
    by (simp add: archive_ok_def archive_storable_def bt_ok_def list_all_iff case_prod_unfold)
  then show ?thesis
    using ok(2)
    by (simp add: archive_from_canonical_bytes_def archive_canonical_bytes_def decoder_new_reading codec_simps
        archive_storable_def)
qed

section \<open>A head fixes the history below it\<close>

lemma links_lengths:
  assumes "successively (checkpoint_links sha) (c # cs)"
  shows "unat (ao_ordinal (wc_object (last (c # cs)))) = unat (ao_ordinal (wc_object c)) + length cs"
  using assms
proof (induction cs arbitrary: c)
  case Nil
  then show ?case by simp
next
  case (Cons x cs)
  show ?case
    using Cons.IH [of x] Cons.prems by (simp add: checkpoint_links_def)
qed

text \<open>A history is as long as its last ordinal says.\<close>

lemma checkpoints_count:
  assumes "checkpoints_ok sha i cs" "cs \<noteq> []"
  shows "unat (ao_ordinal (wc_object (last cs))) = length cs"
proof -
  obtain c cs' where "cs = c # cs'"
    using assms(2) by (cases cs) auto
  then show ?thesis
    using assms(1) links_lengths [of sha c cs'] by (simp add: checkpoints_ok_def)
qed

text \<open>Checkpoints that were accepted, and among whose bytes the hash has no collision.\<close>

definition collision_free :: "(byte list \<Rightarrow> digest) \<Rightarrow> wal_archive_checkpoint set \<Rightarrow> bool"
  where "collision_free sha A \<longleftrightarrow> inj_on sha (checkpoint_canonical_bytes ` A)"

lemma collision_free_digest:
  assumes "collision_free sha A" "a \<in> A" "b \<in> A" "checkpoint_digest sha a = checkpoint_digest sha b"
    and "is_ok (descriptor_new (wc_object a))" "is_ok (descriptor_new (wc_object b))"
  shows "a = b"
proof -
  have "checkpoint_canonical_bytes a = checkpoint_canonical_bytes b"
    by (rule inj_onD [OF assms(1) [unfolded collision_free_def]])
      (use assms(2-4) in \<open>simp_all add: checkpoint_digest_def\<close>)
  then show ?thesis
    using assms(5,6) checkpoint_codec.encode_inj by blast
qed

lemma chains_equal:
  assumes free: "collision_free sha A" and ok: "\<forall>c \<in> A. is_ok (descriptor_new (wc_object c))"
    and "set (xs @ [a]) \<subseteq> A" "set (ys @ [b]) \<subseteq> A"
    and "successively (checkpoint_links sha) (xs @ [a])" "successively (checkpoint_links sha) (ys @ [b])"
    and "length xs = length ys" "checkpoint_digest sha a = checkpoint_digest sha b"
  shows "xs @ [a] = ys @ [b]"
  using assms(3-)
proof (induction xs arbitrary: ys a b rule: rev_induct)
  case Nil
  then show ?case
    using collision_free_digest [OF free, of a b] ok by simp
next
  case (snoc x xs)
  obtain ys' y where ys: "ys = ys' @ [y]"
    using snoc.prems(5) by (cases ys rule: rev_cases) auto
  have ab: "a = b"
    using collision_free_digest [OF free, of a b] ok snoc.prems(1,2,6) by simp
  have "xs @ [x] = ys' @ [y]"
    by (rule snoc.IH)
      (use snoc.prems ab ys in \<open>simp_all add: successively_append_iff checkpoint_links_def\<close>)
  then show ?case
    using ab ys by simp
qed

section \<open>Exact successors, proved\<close>

text \<open>The loop accepts exactly the states in which one set was replaced by a related one.\<close>

lemma one_set_changed_True:
  "one_set_changed R nexts True xs \<longleftrightarrow> list_all (\<lambda>(i, before). map_of nexts i = Some before) xs"
  by (induction xs) (auto split: option.splits if_splits)

definition replaced_at ::
    "(uuid \<Rightarrow> backup_set_state \<Rightarrow> backup_set_state \<Rightarrow> bool) \<Rightarrow> (uuid \<times> backup_set_state) list
     \<Rightarrow> (uuid \<times> backup_set_state) list \<Rightarrow> uuid \<Rightarrow> backup_set_state \<Rightarrow> backup_set_state \<Rightarrow> bool"
  where "replaced_at R nexts xs i before after \<longleftrightarrow> (i, before) \<in> set xs \<and> after \<noteq> before \<and>
    R i before after \<and> map_of nexts i = Some after \<and>
    list_all (\<lambda>(j, x). j \<noteq> i \<longrightarrow> map_of nexts j = Some x) xs"

lemma replaced_at_Cons:
  assumes "k \<notin> fst ` set xs"
  shows "replaced_at R nexts ((k, v) # xs) i before after \<longleftrightarrow>
    (if i = k
     then before = v \<and> after \<noteq> before \<and> R i before after \<and> map_of nexts i = Some after \<and>
       list_all (\<lambda>(j, x). map_of nexts j = Some x) xs
     else map_of nexts k = Some v \<and> replaced_at R nexts xs i before after)"
proof (cases "i = k")
  case True
  have "list_all (\<lambda>(j, x). j \<noteq> k \<longrightarrow> map_of nexts j = Some x) xs \<longleftrightarrow>
      list_all (\<lambda>(j, x). map_of nexts j = Some x) xs"
    using assms by (intro list.pred_cong) (auto simp: image_iff)
  moreover have "(k, before) \<notin> set xs"
    using assms by (auto simp: image_iff)
  ultimately show ?thesis
    using True by (auto simp: replaced_at_def)
qed (auto simp: replaced_at_def)

lemma one_set_changed_iff:
  "distinct (map fst xs) \<Longrightarrow>
     one_set_changed R nexts False xs \<longleftrightarrow> (\<exists>i before after. replaced_at R nexts xs i before after)"
proof (induction xs)
  case Nil
  then show ?case by (simp add: replaced_at_def)
next
  case (Cons e xs)
  obtain k v where e: "e = (k, v)" by force
  have k: "k \<notin> fst ` set xs"
    using Cons.prems e by simp
  show ?case
  proof (cases "map_of nexts k = Some v")
    case True
    then have "replaced_at R nexts (e # xs) i before after \<longleftrightarrow> replaced_at R nexts xs i before after"
      for i before after
      using k e by (auto simp: replaced_at_Cons [OF k]) (auto simp: replaced_at_def image_iff)
    then show ?thesis
      using Cons True e by simp
  next
    case False
    have "replaced_at R nexts (e # xs) i before after \<longleftrightarrow>
        i = k \<and> before = v \<and> after \<noteq> before \<and> R i before after \<and> map_of nexts i = Some after \<and>
        list_all (\<lambda>(j, x). map_of nexts j = Some x) xs" for i before after
      using False e by (simp add: replaced_at_Cons [OF k])
    then show ?thesis
      using False e by (auto simp: one_set_changed_True split: option.split)
  qed
qed

lemma bt_dom_card: "bt_ok m \<Longrightarrow> card (dom (map_of m)) = length m"
  using bt_keys_distinct [of m] by (metis distinct_card dom_map_of_conv_image_fst length_map set_map)

lemma map_le_card_eq:
  assumes "f \<subseteq>\<^sub>m g" "finite (dom g)" "card (dom g) = card (dom f)"
  shows "g = f"
proof -
  have "dom f = dom g"
    using assms card_subset_eq map_le_implies_dom_le by metis
  then show ?thesis
    using assms(1) by (intro map_le_antisym) (auto simp: map_le_def)
qed

lemma exact_successor_iff:
  assumes ok: "bt_ok (ba_sets s)" "bt_ok (ba_sets s')"
  shows "exact_successor R s' s \<longleftrightarrow> (\<exists>i before after. map_of (ba_sets s) i = Some before \<and>
    after \<noteq> before \<and> R i before after \<and> s' = s\<lparr>ba_sets := bt_insert i after (ba_sets s)\<rparr>)"
proof
  assume "exact_successor R s' s"
  then obtain i before after where len: "length (ba_sets s') = length (ba_sets s)"
    and at: "replaced_at R (ba_sets s') (ba_sets s) i before after"
    using one_set_changed_iff [OF bt_keys_distinct [OF ok(1)], of R "ba_sets s'"]
    by (auto simp: exact_successor_def)
  have i: "(i, before) \<in> set (ba_sets s)" "after \<noteq> before" "R i before after"
      "map_of (ba_sets s') i = Some after"
    and rest: "\<And>j x. (j, x) \<in> set (ba_sets s) \<Longrightarrow> j \<noteq> i \<Longrightarrow> map_of (ba_sets s') j = Some x"
    using at by (auto simp: replaced_at_def list_all_iff)
  have "(map_of (ba_sets s))(i \<mapsto> after) \<subseteq>\<^sub>m map_of (ba_sets s')"
    using i(4) rest [OF map_of_SomeD] by (auto simp: map_le_def)
  moreover have "card (dom (map_of (ba_sets s'))) = card (dom ((map_of (ba_sets s))(i \<mapsto> after)))"
    using len i(1) bt_dom_card [OF ok(1)] bt_dom_card [OF ok(2)] btree.entry_lookup [OF ok(1)]
    by (simp add: insert_absorb domI)
  ultimately have "map_of (ba_sets s') = (map_of (ba_sets s))(i \<mapsto> after)"
    by (rule map_le_card_eq [OF _ finite_dom_map_of])
  then have "ba_sets s' = bt_insert i after (ba_sets s)"
    by (intro btree.map_eqI [OF ok(2)]) (auto simp: bt_ok_insert ok bt_lookup_insert)
  then show "\<exists>i before after. map_of (ba_sets s) i = Some before \<and>
    after \<noteq> before \<and> R i before after \<and> s' = s\<lparr>ba_sets := bt_insert i after (ba_sets s)\<rparr>"
    using i btree.entry_lookup [OF ok(1)] by (intro exI [of _ i] exI [of _ before] exI [of _ after]) simp
next
  assume "\<exists>i before after. map_of (ba_sets s) i = Some before \<and>
    after \<noteq> before \<and> R i before after \<and> s' = s\<lparr>ba_sets := bt_insert i after (ba_sets s)\<rparr>"
  then obtain i before after where i: "map_of (ba_sets s) i = Some before" "after \<noteq> before" "R i before after"
      "s' = s\<lparr>ba_sets := bt_insert i after (ba_sets s)\<rparr>"
    by blast
  have "bt_insert i after (ba_sets s) = bt_adjust i (\<lambda>_. after) (ba_sets s)"
    using btree.adjust_insert [OF ok(1) i(1)] by simp
  then have "length (ba_sets s') = length (ba_sets s)"
    using i(4) by (simp add: bt_adjust_def)
  moreover have at: "replaced_at R (ba_sets s') (ba_sets s) i before after"
    using i btree.entry_lookup [OF ok(1)]
    by (simp add: replaced_at_def bt_lookup_insert [OF ok(1)] list_all_iff case_prod_unfold)
      (metis prod.collapse)
  ultimately show "exact_successor R s' s"
    unfolding exact_successor_def one_set_changed_iff [OF bt_keys_distinct [OF ok(1)]]
    using i(1-3) at by blast
qed

lemma adjusted_successor:
  assumes ok: "archive_ok sha s" and st: "map_of (ba_sets s) i = Some st" and R: "f st \<noteq> st" "R i st (f st)"
  shows "exact_successor R (s\<lparr>ba_sets := bt_adjust i f (ba_sets s)\<rparr>) s"
proof -
  have bt: "bt_ok (ba_sets s)"
    using ok by (simp add: archive_ok_def)
  then have "bt_ok (ba_sets (s\<lparr>ba_sets := bt_adjust i f (ba_sets s)\<rparr>))"
    by (simp add: btree.ok_adjust)
  then show ?thesis
    using st R btree.adjust_insert [OF bt st, of f] by (auto simp: exact_successor_iff [OF bt])
qed

lemma checkpoint_step_with:
  assumes "bs_lifecycle st = Streaming" "follows_head i (bs_head st) (wc_object c)"
    and "is_ok (validate_append_kind st (wc_object c))"
  shows "checkpoint_step sha i st (with_checkpoint sha c st)"
proof -
  have "checked_add (ah_checkpoint_ordinal (bs_head st)) 1 = Some (ao_ordinal (wc_object c))"
    using assms(2) by (simp add: follows_head_iff checked_add_Some_iff)
  then show ?thesis
    using assms by (simp add: checkpoint_step_def with_checkpoint_def Let_def follows_head_iff checkpoint_head_def)
qed

lemma with_checkpoint_differs: "with_checkpoint sha c st \<noteq> st"
proof
  assume "with_checkpoint sha c st = st"
  then have "length (bs_checkpoints (with_checkpoint sha c st)) = length (bs_checkpoints st)"
    by simp
  then show False
    by (simp add: with_checkpoint_def)
qed

lemma commit_is_exact:
  assumes ok: "archive_ok sha s" and run: "archive_perform sha s (Call_Commit i h input) = Ok s'"
  shows "is_exact_checkpoint_successor_of sha s' s"
proof -
  obtain st where st: "map_of (ba_sets s) i = Some st" "bs_lifecycle st = Streaming" "bs_head st = h"
      "follows_head i h input" "is_ok (validate_append_kind st input)"
      "s' = s\<lparr>ba_sets := bt_adjust i (with_checkpoint sha \<lparr> wc_object = input \<rparr>) (ba_sets s)\<rparr>"
    using run commit_call_iff by blast
  show ?thesis
    unfolding is_exact_checkpoint_successor_of_def st(6)
    by (rule adjusted_successor [OF ok st(1)], rule with_checkpoint_differs, rule checkpoint_step_with)
      (use st in simp_all)
qed

text \<open>
  Backwards, a step the predicate allows on a streaming set is a checkpoint that could be committed,
  provided the set it leads to is well formed.
\<close>

lemma checkpoint_step_follows:
  assumes ok: "set_ok sha i st" "set_ok sha i st'" and step: "checkpoint_step sha i st st'"
  defines "c \<equiv> last (bs_checkpoints st')"
  shows "bs_checkpoints st' = bs_checkpoints st @ [c] \<and> follows_head i (bs_head st) (wc_object c)"
proof -
  have "take (length (bs_checkpoints st)) (bs_checkpoints st') = bs_checkpoints st"
    and len: "length (bs_checkpoints st') = length (bs_checkpoints st) + 1"
    using step by (auto simp: checkpoint_step_def)
  then have cs: "bs_checkpoints st' = bs_checkpoints st @ [c]"
    unfolding c_def by (cases "bs_checkpoints st'" rule: rev_cases) auto
  have chain: "checkpoints_ok sha i (bs_checkpoints st @ [c])"
    using ok(2) cs by (simp add: set_ok_def)
  have ord: "ao_ordinal (wc_object c) =
      (case checked_add (ah_checkpoint_ordinal (bs_head st)) 1 of Some n \<Rightarrow> n | None \<Rightarrow> - 1)"
      "ao_set_id (wc_object c) = i" "ao_predecessor_head_digest (wc_object c) = ah_digest (bs_head st)"
    using step by (auto simp: checkpoint_step_def Let_def c_def)
  have "unat (ao_ordinal (wc_object c)) = Suc (unat (ah_checkpoint_ordinal (bs_head st)))"
  proof (cases "bs_checkpoints st = []")
    case True
    then have "ao_ordinal (wc_object c) = 1"
      using chain by (simp add: checkpoints_ok_def)
    then have "checked_add (ah_checkpoint_ordinal (bs_head st)) 1 = Some (ao_ordinal (wc_object c))"
      using ord(1) by (auto split: option.splits)
    then show ?thesis
      by (simp add: checked_add_Some_iff)
  next
    case False
    then show ?thesis
      using chain ok(1)
      by (auto simp: checkpoints_ok_def successively_append_iff checkpoint_links_def set_ok_def checkpoint_head_def)
  qed
  then show ?thesis
    using cs ord by (simp add: follows_head_iff)
qed

lemma checkpoint_step_is_commit:
  assumes ok: "set_ok sha i st" "set_ok sha i st'" and step: "checkpoint_step sha i st st'"
    and live: "bs_lifecycle st = Streaming"
  shows "st' = with_checkpoint sha (last (bs_checkpoints st')) st"
proof -
  have "bs_checkpoints st' = bs_checkpoints st @ [last (bs_checkpoints st')]"
    using checkpoint_step_follows [OF ok step] by simp
  then show ?thesis
    using step live
    by (cases st, cases st') (auto simp: checkpoint_step_def Let_def with_checkpoint_def checkpoint_head_def)
qed

lemma exact_is_commit:
  assumes ok: "archive_ok sha s" "archive_ok sha s'" and succ: "is_exact_checkpoint_successor_of sha s' s"
    and live: "\<And>i st. map_of (ba_sets s) i = Some st \<Longrightarrow> map_of (ba_sets s') i \<noteq> Some st \<Longrightarrow> bs_lifecycle st = Streaming"
  shows "\<exists>i h input. archive_perform sha s (Call_Commit i h input) = Ok s'"
proof -
  have bt: "bt_ok (ba_sets s)" "bt_ok (ba_sets s')"
    using ok by (simp_all add: archive_ok_def)
  obtain i st st' where i: "map_of (ba_sets s) i = Some st" "st' \<noteq> st" "checkpoint_step sha i st st'"
      "s' = s\<lparr>ba_sets := bt_insert i st' (ba_sets s)\<rparr>"
    using succ unfolding is_exact_checkpoint_successor_of_def exact_successor_iff [OF bt] by blast
  have after: "map_of (ba_sets s') i = Some st'"
    using i(4) by (simp add: bt_lookup_insert [OF bt(1)])
  have sets: "set_ok sha i st" "set_ok sha i st'"
    using archive_lookup_ok ok i(1) after by blast+
  define c where "c = last (bs_checkpoints st')"
  have streaming: "bs_lifecycle st = Streaming"
    using live i(1,2) after by simp
  have st': "st' = with_checkpoint sha c st"
    unfolding c_def by (rule checkpoint_step_is_commit [OF sets i(3) streaming])
  have "is_ok (descriptor_new (wc_object c))"
    using sets(2) st' by (simp add: set_ok_def checkpoints_ok_def with_checkpoint_def)
  moreover have "s' = s\<lparr>ba_sets := bt_adjust i (with_checkpoint sha c) (ba_sets s)\<rparr>"
    using i(4) st' btree.adjust_insert [OF bt(1) i(1)] by simp
  moreover have "follows_head i (bs_head st) (wc_object c)" "is_ok (validate_append_kind st (wc_object c))"
    using checkpoint_step_follows [OF sets i(3)] i(3) by (simp_all add: c_def checkpoint_step_def Let_def)
  ultimately have "archive_perform sha s (Call_Commit i (bs_head st) (wc_object c)) = Ok s'"
    using i(1) streaming descriptor_new_same by (simp only: commit_call_iff) (cases c, auto)
  then show ?thesis
    by blast
qed


text \<open>The predicate that recognises what a call did.\<close>

fun exact_successor_of_call ::
    "(byte list \<Rightarrow> digest) \<Rightarrow> archive_call \<Rightarrow> backup_archive_state \<Rightarrow> backup_archive_state \<Rightarrow> bool"
  where
    "exact_successor_of_call sha (Call_Start _ _) s' s = is_exact_started_successor_of s' s"
  | "exact_successor_of_call sha (Call_Commit _ _ _) s' s = is_exact_checkpoint_successor_of sha s' s"
  | "exact_successor_of_call sha (Call_AcquireHold _ _) s' s = is_exact_hold_successor_of s' s"
  | "exact_successor_of_call sha (Call_ReleaseHold _ _ _) s' s = False"
  | "exact_successor_of_call sha (Call_BeginSealing _) s' s =
       is_exact_lifecycle_successor_of s' s Streaming Sealing"
  | "exact_successor_of_call sha (Call_CommitSealed _) s' s =
       is_exact_lifecycle_successor_of s' s Sealing Sealed"
  | "exact_successor_of_call sha (Call_PrepareDeletion _ _) s' s = is_exact_prepared_deletion_successor_of s' s"
  | "exact_successor_of_call sha (Call_PrepareKeyErasure _ _) s' s =
       is_exact_key_erasure_prepared_successor_of s' s"
  | "exact_successor_of_call sha (Call_RecordKeyErased _) s' s =
       is_exact_lifecycle_successor_of s' s DeletionPrepared ArchiveKeyErased"
  | "exact_successor_of_call sha (Call_FinalizeDeleted _) s' s =
       is_exact_lifecycle_successor_of s' s ArchiveKeyErased Deleted"

lemma one_set_started_insert:
  assumes fresh: "map_of m i = None" and ok: "bt_ok m"
    and new: "bs_lifecycle st = Streaming" "\<not> bs_deletion_requested st" "bs_deletion_preparation st = None"
      "bs_key_erasure_preparation st = None" "bs_checkpoints st = []" "bs_holds st = []"
      "ah_checkpoint_ordinal (bs_head st) = 0"
  shows "one_set_started m False (bt_insert i st m)"
proof -
  have same: "one_set_started m added xs \<longleftrightarrow> added" if "\<And>k v. (k, v) \<in> set xs \<Longrightarrow> map_of m k = Some v" for added xs
    using that
  proof (induction xs)
    case (Cons e xs)
    have "map_of m (fst e) = Some (snd e)" "one_set_started m added xs \<longleftrightarrow> added"
      using Cons by simp_all
    then show ?case
      by (cases e) simp
  qed simp
  have "one_set_started m False (bt_insert i st xs)" if "\<And>k v. (k, v) \<in> set xs \<Longrightarrow> map_of m k = Some v" for xs
    using that
  proof (induction xs)
    case Nil
    then show ?case using fresh new by simp
  next
    case (Cons e xs)
    obtain k v where e: "e = (k, v)" by force
    have k: "map_of m k = Some v"
      using Cons.prems e by simp
    moreover have "i \<noteq> k"
      using k fresh by auto
    moreover have "one_set_started m False (bt_insert i st xs)" "one_set_started m True xs"
      using Cons same [of xs True] by simp_all
    ultimately show ?case
      using e fresh new by simp
  qed
  then show ?thesis
    using btree.entry_lookup [OF ok] by blast
qed

lemma bt_insert_length: "map_of m k = None \<Longrightarrow> length (bt_insert k v m) = length m + 1"
  by (induction k v m rule: bt_insert.induct) (auto split: if_splits)

lemma start_is_exact:
  assumes ok: "archive_ok sha s" and run: "start_streaming s identity head = Ok s'"
    and zero: "ah_checkpoint_ordinal head = 0"
  shows "is_exact_started_successor_of s' s"
  using ok run zero
  by (auto simp: start_streaming_def is_exact_started_successor_of_def archive_ok_def bt_insert_length
      intro!: one_set_started_insert split: if_splits)

lemma hold_is_exact:
  assumes ok: "archive_ok sha s" and run: "acquire_restore_hold s i h = Ok s'"
  shows "is_exact_hold_successor_of s' s"
proof -
  obtain st where st: "map_of (ba_sets s) i = Some st" "bs_lifecycle st = Streaming" "has_base_checkpoint st"
      "map_of (bs_holds st) h = None"
      "s' = s\<lparr>ba_sets := bt_adjust i (\<lambda>st. st\<lparr>bs_holds :=
           bt_insert h \<lparr> rh_id = h, rh_release_reason = None \<rparr> (bs_holds st)\<rparr>) (ba_sets s)\<rparr>"
    using run acquire_hold_Ok_iff by blast
  define f where "f st = st\<lparr>bs_holds := bt_insert h \<lparr> rh_id = h, rh_release_reason = None \<rparr> (bs_holds st)\<rparr>"
    for st :: backup_set_state
  have bt: "bt_ok (bs_holds st)"
    using archive_lookup_ok [OF ok st(1)] by (simp add: set_ok_def holds_ok_def)
  have "hold_step i st (f st)"
    using st(2-4) btree.entry_lookup [OF bt] bt_lookup_insert [OF bt]
      btree.entry_lookup [OF bt_ok_insert [OF bt], of h "\<lparr> rh_id = h, rh_release_reason = None \<rparr>" h
        "\<lparr> rh_id = h, rh_release_reason = None \<rparr>"]
    by (auto simp: hold_step_def f_def bt_insert_length list_all_iff list_ex_iff hold_active_def
        intro!: bexI [of _ "(h, \<lparr> rh_id = h, rh_release_reason = None \<rparr>)"])
  moreover have "f st \<noteq> st"
    using bt_insert_length [OF st(4), of "\<lparr> rh_id = h, rh_release_reason = None \<rparr>"]
    by (cases st) (auto simp: f_def)
  ultimately show ?thesis
    unfolding is_exact_hold_successor_of_def st(5) using adjusted_successor [OF ok st(1), of f hold_step]
    by (simp add: f_def [abs_def])
qed


lemma lifecycle_is_exact:
  assumes ok: "archive_ok sha s" and st: "map_of (ba_sets s) i = Some st" "bs_lifecycle st = a" "a \<noteq> b"
    and base: "has_base_checkpoint st"
  shows "is_exact_lifecycle_successor_of (s\<lparr>ba_sets := bt_adjust i (\<lambda>st. st\<lparr>bs_lifecycle := b\<rparr>) (ba_sets s)\<rparr>) s a b"
proof -
  have "st\<lparr>bs_lifecycle := b\<rparr> \<noteq> st"
    using st by (cases st) auto
  then show ?thesis
    unfolding is_exact_lifecycle_successor_of_def
    by (intro adjusted_successor [OF ok st(1)]) (use st base in \<open>auto simp: lifecycle_step_def\<close>)
qed

lemma past_streaming_has_base:
  "archive_ok sha s \<Longrightarrow> map_of (ba_sets s) i = Some st \<Longrightarrow> bs_lifecycle st \<noteq> Streaming \<Longrightarrow> has_base_checkpoint st"
  using archive_lookup_ok [of sha s i st] has_base_iff [of sha i st] by (simp add: set_ok_def)

lemma transition_is_exact:
  assumes ok: "archive_ok sha s" and run: "transition_from s i a b = Ok s'" and "a \<noteq> b" "a \<noteq> Streaming"
  shows "is_exact_lifecycle_successor_of s' s a b"
  using run lifecycle_is_exact [OF ok] past_streaming_has_base [OF ok] assms(3,4)
  by (auto simp: transition_from_Ok_iff)

lemma sealing_is_exact:
  assumes ok: "archive_ok sha s" and run: "begin_sealing s i = Ok s'"
  shows "is_exact_lifecycle_successor_of s' s Streaming Sealing"
  using run lifecycle_is_exact [OF ok]
  by (auto simp: begin_sealing_def archive_transition_def and_then_Ok_iff archive_set_Ok_iff
      with_set_Ok_iff split: if_splits)

lemma deletion_is_exact:
  assumes ok: "archive_ok sha s" and run: "prepare_deletion s i p = Ok s'"
  shows "is_exact_prepared_deletion_successor_of s' s"
proof -
  obtain st where st: "map_of (ba_sets s) i = Some st" "bs_lifecycle st = Sealed"
      "s' = s\<lparr>ba_sets := bt_adjust i (\<lambda>st. st\<lparr>bs_lifecycle := DeletionPrepared,
        bs_deletion_preparation := Some p\<rparr>) (ba_sets s)\<rparr>"
    using run prepare_deletion_Ok_iff by blast
  have none: "bs_deletion_preparation st = None" "bs_key_erasure_preparation st = None"
    using archive_lookup_ok [OF ok st(1)] st(2) by (auto simp: set_ok_def preparations_Ok_iff)
  show ?thesis
    unfolding is_exact_prepared_deletion_successor_of_def st(3)
    by (rule adjusted_successor [OF ok st(1)], (use st(2) in \<open>cases st\<close>, auto) [1])
      (use st(2) none in \<open>simp add: prepared_deletion_step_def\<close>)
qed

lemma key_erasure_is_exact:
  assumes ok: "archive_ok sha s" and run: "prepare_archive_key_erasure s i p = Ok s'"
  shows "is_exact_key_erasure_prepared_successor_of s' s"
proof -
  obtain st where st: "map_of (ba_sets s) i = Some st" "bs_lifecycle st = DeletionPrepared"
      "bs_deletion_preparation st = Some p" "bs_key_erasure_preparation st = None"
      "s' = s\<lparr>ba_sets := bt_adjust i (\<lambda>st. st\<lparr>bs_key_erasure_preparation := Some p\<rparr>) (ba_sets s)\<rparr>"
    using run prepare_key_erasure_Ok_iff by blast
  show ?thesis
    unfolding is_exact_key_erasure_prepared_successor_of_def st(5)
    by (rule adjusted_successor [OF ok st(1)], (use st(4) in \<open>cases st\<close>, auto) [1])
      (use st(2-4) in \<open>simp add: key_erasure_prepared_step_def\<close>)
qed

lemmas call_successors = start_is_exact commit_is_exact hold_is_exact sealing_is_exact deletion_is_exact
  key_erasure_is_exact transition_is_exact

lemma call_is_exact:
  assumes ok: "archive_ok sha s" and run: "archive_perform sha s call = Ok s'"
    and "\<And>i h r. call \<noteq> Call_ReleaseHold i h r" "\<And>d h. call = Call_Start d h \<Longrightarrow> ah_checkpoint_ordinal h = 0"
  shows "exact_successor_of_call sha call s' s"
  using assms
  by (cases call) (auto simp: commit_sealed_def record_archive_key_erased_def finalize_deleted_def and_then_Ok_iff
      split: if_splits simp del: archive_perform.simps(2) intro: call_successors)

section \<open>Properties\<close>

lemma archive_empty_ok: "archive_ok sha archive_empty"
  by (simp add: archive_ok_def archive_empty_def bt_ok_def)

lemmas archive_reached_ok = archive_system.fold_inv [OF archive_empty_ok]

text \<open>A set that is streamed, held, sealed and prepared for deletion.\<close>

definition sample_base :: archive_object_descriptor
  where "sample_base = \<lparr> ao_set_id = 7, ao_object_id = 11, ao_kind = BaseChunk, ao_ordinal = 1, ao_timeline = 1,
    ao_start_lsn = 4, ao_end_lsn = 10, ao_ciphertext_digest = 0, ao_plaintext_digest = 0, ao_length = 5,
    ao_predecessor_head_digest = 9 \<rparr>"

definition sample_wal :: "digest \<Rightarrow> archive_object_descriptor"
  where "sample_wal d = \<lparr> ao_set_id = 7, ao_object_id = 12, ao_kind = WalSegment, ao_ordinal = 2, ao_timeline = 1,
    ao_start_lsn = 10, ao_end_lsn = 20, ao_ciphertext_digest = 0, ao_plaintext_digest = 0, ao_length = 5,
    ao_predecessor_head_digest = d \<rparr>"

definition sample_identity :: backup_set_identity
  where "sample_identity = \<lparr> bi_set_id = 7, bi_installation_id = 1, bi_generation_id = 2 \<rparr>"

definition base_digest :: "(byte list \<Rightarrow> digest) \<Rightarrow> digest"
  where "base_digest sha = checkpoint_digest sha \<lparr> wc_object = sample_base \<rparr>"

definition stream_calls :: "(byte list \<Rightarrow> digest) \<Rightarrow> archive_call list"
  where "stream_calls sha =
    [Call_Start sample_identity (archive_head_genesis 9), Call_Commit 7 (archive_head_genesis 9) sample_base,
     Call_AcquireHold 7 3,
     Call_Commit 7 \<lparr> ah_checkpoint_ordinal = 1, ah_digest = base_digest sha \<rparr> (sample_wal (base_digest sha))]"

definition sample_set :: "(byte list \<Rightarrow> digest) \<Rightarrow> backup_set_state"
  where "sample_set sha =
    \<lparr> bs_identity = sample_identity, bs_lifecycle = Streaming, bs_deletion_requested = False,
      bs_deletion_preparation = None, bs_key_erasure_preparation = None,
      bs_head = checkpoint_head sha \<lparr> wc_object = sample_wal (base_digest sha) \<rparr>,
      bs_checkpoints = [\<lparr> wc_object = sample_base \<rparr>, \<lparr> wc_object = sample_wal (base_digest sha) \<rparr>],
      bs_holds = [(3, \<lparr> rh_id = 3, rh_release_reason = None \<rparr>)] \<rparr>"

lemmas archive_ops = start_streaming_def reservation_new_def follows_head_def commit_checkpoint_def
  archive_set_def with_set_def validate_append_kind_def has_base_checkpoint_def descriptor_new_def
  checkpoint_from_reservation_def acquire_restore_hold_def release_restore_hold_def hold_active_def
  begin_sealing_def commit_sealed_def require_no_active_holds_def any_active_hold_def transition_from_def
  archive_transition_def bt_adjust_def checked_add_def

lemmas archive_samples = sample_base_def sample_wal_def sample_identity_def sample_set_def stream_calls_def
  archive_empty_def archive_head_genesis_def checkpoint_head_def base_digest_def

lemma sample_stream:
  "try_fold (archive_perform sha) archive_empty (stream_calls sha) = Ok \<lparr> ba_sets = [(7, sample_set sha)] \<rparr>"
  by (simp add: archive_ops archive_samples)

definition fresh_set :: backup_set_state
  where "fresh_set =
    \<lparr> bs_identity = sample_identity, bs_lifecycle = Streaming, bs_deletion_requested = False,
      bs_deletion_preparation = None, bs_key_erasure_preparation = None,
      bs_head = archive_head_genesis 9, bs_checkpoints = [], bs_holds = [] \<rparr>"

lemma sample_prefixes:
  "try_fold (archive_perform sha) archive_empty (take 1 (stream_calls sha)) = Ok \<lparr> ba_sets = [(7, fresh_set)] \<rparr>"
  "try_fold (archive_perform sha) archive_empty (take 2 (stream_calls sha)) =
     Ok \<lparr> ba_sets = [(7, with_checkpoint sha \<lparr> wc_object = sample_base \<rparr> fresh_set)] \<rparr>"
  by (simp_all add: archive_ops archive_samples fresh_set_def with_checkpoint_def)

text \<open>
  C26: the archive's bookkeeping is a chain.  After any accepted sequence of calls from the
  empty archive (starting sets, committing checkpoints, holds, sealing, deletion), in every set: the
  checkpoints belong to the set, a base backup comes first with ordinal 1 and every later one carries
  the digest of its predecessor and the next ordinal; the head is the digest and ordinal of the last
  one, so the ordinal counts the checkpoints; a set with an active restore hold is still streaming;
  and once the key is erased, both preparations name one and the same deletion.
\<close>

theorem archive_history_chained:
  assumes run: "try_fold (archive_perform sha) archive_empty calls = Ok s"
    and st: "map_of (ba_sets s) i = Some st"
  shows "checkpoints_ok sha i (bs_checkpoints st) \<and>
    (bs_checkpoints st \<noteq> [] \<longrightarrow> bs_head st = checkpoint_head sha (last (bs_checkpoints st)) \<and>
       unat (ah_checkpoint_ordinal (bs_head st)) = length (bs_checkpoints st)) \<and>
    (any_active_hold st \<longrightarrow> bs_lifecycle st = Streaming) \<and>
    (bs_lifecycle st \<in> {ArchiveKeyErased, Deleted} \<longrightarrow>
       (\<exists>p. bs_deletion_preparation st = Some p \<and> bs_key_erasure_preparation st = Some p))"
proof -
  have "set_ok sha i st"
    using archive_reached_ok [OF run] st by (rule archive_lookup_ok)
  then show ?thesis
    using checkpoints_count [of sha i "bs_checkpoints st"]
    by (auto simp: set_ok_def preparations_Ok_iff checkpoint_head_def)
qed

theorem archive_history_chained_witness:
  "checkpoints_ok (\<lambda>_. 1) 7 (bs_checkpoints (sample_set (\<lambda>_. 1))) \<and>
   bs_head (sample_set (\<lambda>_. 1)) = checkpoint_head (\<lambda>_. 1) \<lparr> wc_object = sample_wal 1 \<rparr>"
  using archive_history_chained [OF sample_stream, where i = 7 and st = "sample_set (\<lambda>_. 1)" and sha = "\<lambda>_. 1"]
  by (simp add: sample_set_def base_digest_def checkpoint_digest_def)


text \<open>
  C28: an archive survives its canonical bytes.  The state any accepted sequence of calls leads
  to is read back from its bytes as it was, as long as its counts fit the format and no set without a
  checkpoint was started above ordinal zero.
\<close>

theorem archive_bytes_roundtrip:
  assumes run: "try_fold (archive_perform sha) archive_empty calls = Ok s" and "archive_storable s"
  shows "archive_from_canonical_bytes sha (archive_canonical_bytes s) = Ok s"
  using archive_reached_ok [OF run] assms(2) by (rule archive_decode_encode)

theorem archive_bytes_roundtrip_witness:
  "archive_from_canonical_bytes (\<lambda>_. 1) (archive_canonical_bytes \<lparr> ba_sets = [(7, sample_set (\<lambda>_. 1))] \<rparr>) =
     Ok \<lparr> ba_sets = [(7, sample_set (\<lambda>_. 1))] \<rparr>"
  by (rule archive_bytes_roundtrip [OF sample_stream])
    (simp add: archive_storable_def set_storable_def sample_set_def checkpoint_size_def)

text \<open>
  C27: a head fixes the history.  If the heads of two sets, in any two archives reached by
  calls, agree, and both have checkpoints, then the sets have the same checkpoints, byte for byte, unless the hash
  has a collision among those checkpoints.
\<close>

theorem archive_head_fixes_history:
  assumes run: "try_fold (archive_perform sha) archive_empty calls = Ok s" "map_of (ba_sets s) i = Some st"
    and run': "try_fold (archive_perform sha) archive_empty calls' = Ok s'" "map_of (ba_sets s') i' = Some st'"
    and "bs_head st = bs_head st'" "bs_checkpoints st \<noteq> []" "bs_checkpoints st' \<noteq> []"
    and "collision_free sha (set (bs_checkpoints st) \<union> set (bs_checkpoints st'))"
  shows "bs_checkpoints st = bs_checkpoints st'"
proof -
  have ok: "set_ok sha i st" "set_ok sha i' st'"
    using archive_lookup_ok archive_reached_ok run run' by blast+
  obtain xs a ys b where cs: "bs_checkpoints st = xs @ [a]" "bs_checkpoints st' = ys @ [b]"
    using assms(6,7) by (metis rev_exhaust)
  have heads: "checkpoint_head sha a = checkpoint_head sha b"
    using ok cs assms(5) by (simp add: set_ok_def)
  have len: "length xs = length ys"
    using ok cs heads checkpoints_count [of sha i "xs @ [a]"] checkpoints_count [of sha i' "ys @ [b]"]
    by (simp add: set_ok_def checkpoint_head_def)
  show ?thesis
    unfolding cs
    by (rule chains_equal [OF assms(8)])
      (use ok cs heads len in \<open>auto simp: set_ok_def checkpoints_ok_def list_all_iff checkpoint_head_def\<close>)
qed

definition sample_sha :: "byte list \<Rightarrow> digest"
  where "sample_sha bs = (if bs = checkpoint_canonical_bytes \<lparr> wc_object = sample_base \<rparr> then 1 else 2)"

lemma sample_collision_free: "collision_free sample_sha {\<lparr> wc_object = sample_base \<rparr>, \<lparr> wc_object = sample_wal d \<rparr>}"
proof -
  have "checkpoint_canonical_bytes \<lparr> wc_object = sample_wal d \<rparr> \<noteq> checkpoint_canonical_bytes \<lparr> wc_object = sample_base \<rparr>"
    using checkpoint_codec.encode_inj [of "\<lparr> wc_object = sample_wal d \<rparr>" "\<lparr> wc_object = sample_base \<rparr>"]
    by (auto simp: sample_wal_def sample_base_def descriptor_new_def)
  then show ?thesis
    by (auto simp: collision_free_def sample_sha_def)
qed

lemma sample_stream_unheld:
  "try_fold (archive_perform sha) archive_empty (remove1 (Call_AcquireHold 7 3) (stream_calls sha)) =
     Ok \<lparr> ba_sets = [(7, (sample_set sha)\<lparr>bs_holds := []\<rparr>)] \<rparr>"
  by (simp add: archive_ops archive_samples)

theorem archive_head_fixes_history_witness:
  "bs_checkpoints (sample_set sample_sha) = bs_checkpoints ((sample_set sample_sha)\<lparr>bs_holds := []\<rparr>)"
proof (rule archive_head_fixes_history [OF sample_stream _ sample_stream_unheld])
  show "collision_free sample_sha (set (bs_checkpoints (sample_set sample_sha)) \<union>
      set (bs_checkpoints ((sample_set sample_sha)\<lparr>bs_holds := []\<rparr>)))"
    using sample_collision_free by (simp add: sample_set_def)
qed (simp_all add: sample_set_def)

text \<open>
  C30: the checkpoint predicate recognises nothing else.  Between two well-formed archives of
  which every set that differs was streaming before, \<^const>\<open>is_exact_checkpoint_successor_of\<close> holds
  exactly when some checkpoint, reserved on the current head, could be committed and gives the second
  archive.
\<close>

theorem exact_checkpoint_successor_iff:
  assumes "archive_ok sha s" "archive_ok sha s'"
    and "\<forall>i st. map_of (ba_sets s) i = Some st \<and> map_of (ba_sets s') i \<noteq> Some st \<longrightarrow> bs_lifecycle st = Streaming"
  shows "is_exact_checkpoint_successor_of sha s' s \<longleftrightarrow>
    (\<exists>i expected object. archive_perform sha s (Call_Commit i expected object) = Ok s')"
  using exact_is_commit [OF assms(1,2)] commit_is_exact [OF assms(1)] assms(3) by blast

theorem exact_checkpoint_successor_iff_witness:
  "is_exact_checkpoint_successor_of (\<lambda>_. 1)
     \<lparr> ba_sets = [(7, with_checkpoint (\<lambda>_. 1) \<lparr> wc_object = sample_base \<rparr> fresh_set)] \<rparr> \<lparr> ba_sets = [(7, fresh_set)] \<rparr>"
proof (rule iffD2 [OF exact_checkpoint_successor_iff])
  show "\<exists>i expected object. archive_perform (\<lambda>_. 1) \<lparr> ba_sets = [(7, fresh_set)] \<rparr> (Call_Commit i expected object) =
      Ok \<lparr> ba_sets = [(7, with_checkpoint (\<lambda>_. 1) \<lparr> wc_object = sample_base \<rparr> fresh_set)] \<rparr>"
    by (intro exI [of _ 7] exI [of _ "archive_head_genesis 9"] exI [of _ sample_base])
      (simp add: archive_ops archive_samples fresh_set_def with_checkpoint_def)
qed (use archive_reached_ok [OF sample_prefixes(1)] archive_reached_ok [OF sample_prefixes(2)]
    in \<open>auto simp: fresh_set_def\<close>)

section \<open>Nothing is taken back\<close>

definition advances :: "backup_set_state \<Rightarrow> backup_set_state \<Rightarrow> bool"
  where "advances st st' \<longleftrightarrow>
    bs_identity st' = bs_identity st \<and> lifecycle_code (bs_lifecycle st) \<le> lifecycle_code (bs_lifecycle st') \<and>
    prefix (bs_checkpoints st) (bs_checkpoints st') \<and>
    (bs_lifecycle st \<noteq> Streaming \<longrightarrow> bs_checkpoints st' = bs_checkpoints st \<and> bs_head st' = bs_head st) \<and>
    (bs_deletion_preparation st \<noteq> None \<longrightarrow> bs_deletion_preparation st' = bs_deletion_preparation st) \<and>
    (bs_key_erasure_preparation st \<noteq> None \<longrightarrow>
       bs_key_erasure_preparation st' = bs_key_erasure_preparation st) \<and>
    (\<forall>k h. map_of (bs_holds st) k = Some h \<longrightarrow>
       (\<exists>h'. map_of (bs_holds st') k = Some h' \<and> (\<not> hold_active h \<longrightarrow> h' = h)))"

lemma advances_refl: "advances st st"
  by (simp add: advances_def)

lemma lifecycle_code_zero: "lifecycle_code l = 0 \<longleftrightarrow> l = Streaming"
  by (cases l) simp_all

lemma advances_trans:
  assumes a: "advances r s" and b: "advances s t"
  shows "advances r t"
proof -
  have "bs_lifecycle s \<noteq> Streaming" if "bs_lifecycle r \<noteq> Streaming"
    using a that by (auto simp: advances_def simp flip: lifecycle_code_zero)
  moreover have "\<exists>h'. map_of (bs_holds t) k = Some h' \<and> (\<not> hold_active h \<longrightarrow> h' = h)"
    if "map_of (bs_holds r) k = Some h" for k h
    using a b that unfolding advances_def by metis
  ultimately show ?thesis
    using a b unfolding advances_def by (auto intro: prefix_order.trans order_trans)
qed


definition archive_advances :: "backup_archive_state \<Rightarrow> backup_archive_state \<Rightarrow> bool"
  where "archive_advances s s' \<longleftrightarrow>
    (\<forall>i st. map_of (ba_sets s) i = Some st \<longrightarrow> (\<exists>st'. map_of (ba_sets s') i = Some st' \<and> advances st st'))"

lemma adjust_advances:
  assumes "map_of (ba_sets s) i = Some st" "advances st (f st)"
  shows "archive_advances s (s\<lparr>ba_sets := bt_adjust i f (ba_sets s)\<rparr>)"
  using assms advances_refl by (auto simp: archive_advances_def bt_lookup_adjust)

lemma start_advances:
  assumes ok: "archive_ok sha s" and run: "start_streaming s identity head = Ok s'"
  shows "archive_advances s s'"
proof -
  have bt: "bt_ok (ba_sets s)"
    using ok by (simp add: archive_ok_def)
  show ?thesis
    using run advances_refl by (auto simp: start_streaming_def archive_advances_def bt_lookup_insert [OF bt] split: if_splits)
qed

lemma lifecycle_advances:
  "lifecycle_code (bs_lifecycle st) \<le> lifecycle_code l \<Longrightarrow> advances st (st\<lparr>bs_lifecycle := l\<rparr>)"
  by (simp add: advances_def)

lemma transition_advances:
  "transition_from s i a b = Ok s' \<Longrightarrow> lifecycle_code a \<le> lifecycle_code b \<Longrightarrow> archive_advances s s'"
  by (auto simp: transition_from_Ok_iff intro!: adjust_advances lifecycle_advances)

lemma commit_advances: "archive_perform sha s (Call_Commit i h input) = Ok s' \<Longrightarrow> archive_advances s s'"
  by (auto simp: commit_call_iff with_checkpoint_def advances_def simp del: archive_perform.simps intro!: adjust_advances)

lemma acquire_advances:
  assumes ok: "archive_ok sha s" and run: "acquire_restore_hold s i h = Ok s'"
  shows "archive_advances s s'"
proof -
  obtain st where st: "map_of (ba_sets s) i = Some st" "map_of (bs_holds st) h = None"
      "s' = s\<lparr>ba_sets := bt_adjust i (\<lambda>st. st\<lparr>bs_holds :=
           bt_insert h \<lparr> rh_id = h, rh_release_reason = None \<rparr> (bs_holds st)\<rparr>) (ba_sets s)\<rparr>"
    using run acquire_hold_Ok_iff by blast
  have bt: "bt_ok (bs_holds st)"
    using archive_lookup_ok [OF ok st(1)] by (simp add: set_ok_def holds_ok_def)
  show ?thesis
    unfolding st(3)
    by (rule adjust_advances [OF st(1)]) (use st(2) in \<open>auto simp: advances_def bt_lookup_insert [OF bt]\<close>)
qed

lemma release_advances: "release_restore_hold s i h r = Ok s' \<Longrightarrow> archive_advances s s'"
  by (auto simp: release_restore_hold_def and_then_Ok_iff archive_set_Ok_iff with_set_Ok_iff ok_or_Ok_iff
      advances_def bt_lookup_adjust hold_active_def split: if_splits intro!: adjust_advances)

lemma sealing_advances: "begin_sealing s i = Ok s' \<Longrightarrow> archive_advances s s'"
  by (auto simp: begin_sealing_def archive_transition_def and_then_Ok_iff archive_set_Ok_iff with_set_Ok_iff
      split: if_splits intro!: adjust_advances lifecycle_advances)

lemma deletion_advances:
  assumes ok: "archive_ok sha s" and run: "prepare_deletion s i p = Ok s'"
  shows "archive_advances s s'"
proof -
  obtain st where st: "map_of (ba_sets s) i = Some st" "bs_lifecycle st = Sealed"
      "s' = s\<lparr>ba_sets := bt_adjust i (\<lambda>st. st\<lparr>bs_lifecycle := DeletionPrepared,
        bs_deletion_preparation := Some p\<rparr>) (ba_sets s)\<rparr>"
    using run prepare_deletion_Ok_iff by blast
  then show ?thesis
    using archive_lookup_ok [OF ok st(1)]
    by (auto simp: advances_def set_ok_def preparations_Ok_iff intro!: adjust_advances)
qed

lemma key_erasure_advances: "prepare_archive_key_erasure s i p = Ok s' \<Longrightarrow> archive_advances s s'"
  by (auto simp: prepare_key_erasure_Ok_iff advances_def intro!: adjust_advances)

lemmas call_advances = start_advances commit_advances acquire_advances release_advances sealing_advances
  deletion_advances key_erasure_advances transition_advances

lemma perform_advances:
  assumes "archive_ok sha s" "archive_perform sha s call = Ok s'"
  shows "archive_advances s s'"
  using assms
  by (cases call) (auto simp: commit_sealed_def record_archive_key_erased_def finalize_deleted_def and_then_Ok_iff
      split: if_splits simp del: archive_perform.simps(2) intro: call_advances)

lemma archive_advances_trans:
  assumes a: "archive_advances r s" and b: "archive_advances s t"
  shows "archive_advances r t"
  unfolding archive_advances_def
proof (intro allI impI)
  fix i st
  assume "map_of (ba_sets r) i = Some st"
  then obtain st' st'' where "map_of (ba_sets s) i = Some st'" "advances st st'"
      "map_of (ba_sets t) i = Some st''" "advances st' st''"
    using a b unfolding archive_advances_def by blast
  then show "\<exists>st'. map_of (ba_sets t) i = Some st' \<and> advances st st'"
    using advances_trans by blast
qed

lemma calls_advance:
  "archive_ok sha s \<Longrightarrow> try_fold (archive_perform sha) s calls = Ok s' \<Longrightarrow> archive_advances s s'"
proof (induction calls arbitrary: s)
  case Nil
  then show ?case
    using advances_refl by (auto simp: archive_advances_def)
next
  case (Cons call calls)
  then obtain t where t: "archive_perform sha s call = Ok t" "try_fold (archive_perform sha) t calls = Ok s'"
    by (auto simp: and_then_Ok_iff)
  have "archive_ok sha t"
    using Cons.prems(1) t(1) by (rule archive_system.step_inv)
  then show ?case
    using Cons.IH [OF _ t(2)] perform_advances [OF Cons.prems(1) t(1)] archive_advances_trans by blast
qed

text \<open>
  C29: nothing is taken back.  Along any accepted sequence of calls from a well-formed archive, every
  set stays, keeps its identity and its checkpoints in order, never moves back in its lifecycle, takes
  no checkpoint once it has left streaming, keeps its deletion preparation and its key-erasure
  preparation once it has them, and keeps every hold, a released one with the receipt it was released by.
\<close>

theorem archive_never_goes_back:
  assumes "archive_ok sha s" "try_fold (archive_perform sha) s calls = Ok s'" "map_of (ba_sets s) i = Some st"
  shows "\<exists>st'. map_of (ba_sets s') i = Some st' \<and> advances st st'"
  using calls_advance [OF assms(1,2)] assms(3) by (simp add: archive_advances_def)

theorem archive_never_goes_back_witness:
  "\<exists>st'. map_of (ba_sets \<lparr> ba_sets = [(7, sample_set (\<lambda>_. 1))] \<rparr>) 7 = Some st' \<and> advances fresh_set st'"
proof (rule archive_never_goes_back [OF archive_reached_ok [OF sample_prefixes(1)]])
  show "try_fold (archive_perform (\<lambda>_. 1)) \<lparr> ba_sets = [(7, fresh_set)] \<rparr> (drop 1 (stream_calls (\<lambda>_. 1))) =
      Ok \<lparr> ba_sets = [(7, sample_set (\<lambda>_. 1))] \<rparr>"
    by (simp add: archive_ops archive_samples fresh_set_def)
qed simp


section \<open>Where the code falls short of its comments\<close>

definition sealed_set :: "(byte list \<Rightarrow> digest) \<Rightarrow> backup_set_state"
  where "sealed_set sha = (with_checkpoint sha \<lparr> wc_object = sample_base \<rparr> fresh_set)\<lparr>bs_lifecycle := Sealed\<rparr>"

definition reopened_set :: "(byte list \<Rightarrow> digest) \<Rightarrow> backup_set_state"
  where "reopened_set sha =
    with_checkpoint sha \<lparr> wc_object = sample_wal (base_digest sha) \<rparr> ((sealed_set sha)\<lparr>bs_lifecycle := Streaming\<rparr>)"

lemmas sealing_samples = sealed_set_def reopened_set_def fresh_set_def with_checkpoint_def archive_samples

lemma sealed_reached:
  "try_fold (archive_perform sha) archive_empty
     (take 2 (stream_calls sha) @ [Call_BeginSealing 7, Call_CommitSealed 7]) = Ok \<lparr> ba_sets = [(7, sealed_set sha)] \<rparr>"
  by (simp add: archive_ops sealing_samples)

lemma reopened_reached:
  "try_fold (archive_perform sha) archive_empty (remove1 (Call_AcquireHold 7 3) (stream_calls sha)) =
     Ok \<lparr> ba_sets = [(7, reopened_set sha)] \<rparr>"
  by (simp add: archive_ops sealing_samples)

text \<open>
  C31: the checkpoint predicate lets a sealed set be reopened.  Its comment speaks of \<^emph>\<open>one
  streaming set receiving exactly one valid checkpoint\<close>, but only the lifecycle after the step is
  compared: there are a reachable archive whose set is sealed, and one where the same set streams again with
  one more checkpoint, that the predicate accepts as a successor although no sequence of calls leads
  from the first to the second.
\<close>

theorem sealed_set_reopens:
  "\<exists>calls s s' st st'. try_fold (archive_perform sha) archive_empty calls = Ok s \<and>
     map_of (ba_sets s) 7 = Some st \<and> bs_lifecycle st = Sealed \<and>
     map_of (ba_sets s') 7 = Some st' \<and> bs_lifecycle st' = Streaming \<and>
     is_exact_checkpoint_successor_of sha s' s \<and> (\<nexists>calls'. try_fold (archive_perform sha) s calls' = Ok s')"
proof (intro exI conjI)
  let ?s = "\<lparr> ba_sets = [(7, sealed_set sha)] \<rparr>" and ?s' = "\<lparr> ba_sets = [(7, reopened_set sha)] \<rparr>"
  show "try_fold (archive_perform sha) archive_empty
     (take 2 (stream_calls sha) @ [Call_BeginSealing 7, Call_CommitSealed 7]) = Ok ?s"
    by (rule sealed_reached)
  show "map_of (ba_sets ?s) 7 = Some (sealed_set sha)" "bs_lifecycle (sealed_set sha) = Sealed"
    "map_of (ba_sets ?s') 7 = Some (reopened_set sha)" "bs_lifecycle (reopened_set sha) = Streaming"
    by (simp_all add: sealing_samples)
  show "is_exact_checkpoint_successor_of sha ?s' ?s"
    by (simp add: is_exact_checkpoint_successor_of_def exact_successor_def checkpoint_step_def archive_ops
        sealing_samples)
  have "\<not> archive_advances ?s ?s'"
    by (simp add: archive_advances_def advances_def sealing_samples)
  then show "\<nexists>calls'. try_fold (archive_perform sha) ?s calls' = Ok ?s'"
    using calls_advance [OF archive_reached_ok [OF sealed_reached]] by blast
qed

text \<open>
  C32: a short input can stop the process.  \<^verbatim>\<open>from_canonical_bytes\<close> reserves room for as many
  checkpoints as the input announces before it reads one; there is an input of less than 200 bytes for which that request
  exceeds what a vector may hold, and decoding panics instead of reporting malformed bytes.
\<close>

theorem announced_checkpoints_panic:
  "\<exists>bytes. length bytes < 200 \<and> archive_from_canonical_bytes sha bytes = Err Panics"
proof (intro exI conjI)
  let ?bytes = "3 # length_bytes 1 @ uuid_bytes 7 @ uuid_bytes 1 @ uuid_bytes 2 @ [0] @ [bool_byte False]
    @ [bool_byte False] @ [bool_byte False] @ u64_bytes 0 @ digest_bytes 0 @ length_bytes (2 ^ 60) @ [0]"
  show "length ?bytes < 200"
    by (simp add: length_bytes_def u64_bytes_def uuid_bytes_def digest_bytes_def)
  show "archive_from_canonical_bytes sha ?bytes = Err Panics"
    by (simp add: archive_from_canonical_bytes_def decoder_new_reading codec_simps archive_state_version_def
        decode_set_def lifecycle_from_code_def read_optional_digest_def checkpoint_size_def Let_def)
qed

end
