(* ===== verification/Restore_Cutover.thy ===== *)
theory Restore_Cutover
  imports Backup_Archive
begin

text \<open>
  Restore and cutover (\<^verbatim>\<open>vestrace-domain/src/restore_cutover.rs\<close>): the roots a restore works
  between, the point a source is frozen at, the one-way progress of a restore attempt, the plan that
  activates a target and the receipt that ends an attempt, with their canonical bytes.
\<close>

section \<open>Paths\<close>

text \<open>
  \<^verbatim>\<open>std::path\<close> on Unix: a path is compared through its components, so a \<^verbatim>\<open>PathBuf\<close> built by
  \<^verbatim>\<open>push\<close> and \<^verbatim>\<open>pop\<close> is the list of them.  Empty pieces and \<^verbatim>\<open>.\<close> disappear, except a \<^verbatim>\<open>.\<close> that opens a
  relative path.
\<close>

datatype path_component = RootDir | CurDir | ParentDir | NormalComp string

fun split_slash :: "string \<Rightarrow> string list"
  where
    "split_slash [] = [[]]"
  | "split_slash (c # cs) =
       (if c = CHR ''/'' then [] # split_slash cs
        else (case split_slash cs of [] \<Rightarrow> [[c]] | p # ps \<Rightarrow> (c # p) # ps))"

definition is_absolute :: "string \<Rightarrow> bool"
  where "is_absolute path = (case path of [] \<Rightarrow> False | c # _ \<Rightarrow> c = CHR ''/'')"

definition piece_component :: "string \<Rightarrow> path_component option"
  where "piece_component p =
    (if p = [] \<or> p = ''.'' then None else if p = ''..'' then Some ParentDir else Some (NormalComp p))"

definition path_components :: "string \<Rightarrow> path_component list"
  where "path_components path =
    (if is_absolute path then [RootDir]
     else if hd (split_slash path) = ''.'' then [CurDir] else [])
    @ List.map_filter piece_component (split_slash path)"

definition path_pop :: "path_component list \<Rightarrow> path_component list"
  where "path_pop cs = (if cs = [] \<or> last cs = RootDir then cs else butlast cs)"

fun normalize_component :: "path_component list \<Rightarrow> path_component \<Rightarrow> path_component list"
  where
    "normalize_component normalized RootDir = [RootDir]"
  | "normalize_component normalized CurDir = normalized"
  | "normalize_component normalized ParentDir = path_pop normalized"
  | "normalize_component normalized (NormalComp segment) = normalized @ [NormalComp segment]"

definition lexical_normalize :: "string \<Rightarrow> path_component list"
  where "lexical_normalize path = foldl normalize_component [] (path_components path)"

section \<open>Roots\<close>

datatype restore_cutover_error =
  Cutover_Malformed | OverlappingRoots | RelativeRoot | InvalidFreezePoint | TargetGenerationMatchesSource
  | FreezeGenerationMismatch | InvalidAttemptTransition

record restore_target_roots =
  rr_source_root :: "path_component list"
  rr_target_root :: "path_component list"

definition restore_target_roots_new ::
    "string \<Rightarrow> string \<Rightarrow> (restore_cutover_error, restore_target_roots) result"
  where "restore_target_roots_new source_root target_root =
    (if \<not> is_absolute source_root \<or> \<not> is_absolute target_root then Err RelativeRoot
     else
       let source_root = lexical_normalize source_root; target_root = lexical_normalize target_root in
       if prefix target_root source_root \<or> prefix source_root target_root then Err OverlappingRoots
       else Ok \<lparr> rr_source_root = source_root, rr_target_root = target_root \<rparr>)"

section \<open>Values\<close>

record source_freeze_point =
  sf_generation_id :: uuid
  sf_timeline :: u32
  sf_lsn :: u64
  sf_mutation_watermark :: u64

definition source_freeze_point_new ::
    "uuid \<Rightarrow> u32 \<Rightarrow> u64 \<Rightarrow> u64 \<Rightarrow> (restore_cutover_error, source_freeze_point) result"
  where "source_freeze_point_new generation_id timeline lsn mutation_watermark =
    (if timeline = 0 \<or> lsn = 0 then Err InvalidFreezePoint
     else Ok \<lparr> sf_generation_id = generation_id, sf_timeline = timeline, sf_lsn = lsn,
               sf_mutation_watermark = mutation_watermark \<rparr>)"

definition freeze_domain :: "byte list"
  where "freeze_domain = ascii ''vestrace-source-freeze-point-v1''"

definition freeze_canonical_bytes :: "source_freeze_point \<Rightarrow> byte list"
  where "freeze_canonical_bytes f =
    field freeze_domain @ field (uuid_bytes (sf_generation_id f)) @ u32_bytes (sf_timeline f)
    @ u64_bytes (sf_lsn f) @ u64_bytes (sf_mutation_watermark f)"

text \<open>In these formats an identifier or a digest is a field of its own width.\<close>

definition read_field_uuid :: "decoder \<Rightarrow> (restore_cutover_error, uuid \<times> decoder) result"
  where "read_field_uuid = read_field_word Cutover_Malformed 16"

definition read_field_digest :: "decoder \<Rightarrow> (restore_cutover_error, digest \<times> decoder) result"
  where "read_field_digest = read_field_word Cutover_Malformed 32"

definition freeze_decode :: "decoder \<Rightarrow> (restore_cutover_error, source_freeze_point \<times> decoder) result"
  where "freeze_decode d =
    and_then (read_domain Cutover_Malformed freeze_domain d) (\<lambda>d.
    and_then (read_field_uuid d) (\<lambda>(generation_id, d).
    and_then (read_u32 Cutover_Malformed d) (\<lambda>(timeline, d).
    and_then (read_u64 Cutover_Malformed d) (\<lambda>(lsn, d).
    and_then (read_u64 Cutover_Malformed d) (\<lambda>(mutation_watermark, d).
    and_then (source_freeze_point_new generation_id timeline lsn mutation_watermark) (\<lambda>f. Ok (f, d)))))))"

definition freeze_from_canonical_bytes :: "byte list \<Rightarrow> (restore_cutover_error, source_freeze_point) result"
  where "freeze_from_canonical_bytes bytes =
    and_then (freeze_decode (decoder_new bytes)) (\<lambda>(f, d).
    and_then (finish_decoder Cutover_Malformed d) (\<lambda>_. Ok f))"

record restore_terminal_receipt =
  rt_attempt_id :: uuid
  rt_target_id :: uuid
  rt_release_reason :: restore_hold_release_reason

definition receipt_domain :: "byte list"
  where "receipt_domain = ascii ''vestrace-restore-terminal-receipt-v1''"

definition receipt_canonical_bytes :: "restore_terminal_receipt \<Rightarrow> byte list"
  where "receipt_canonical_bytes r =
    field receipt_domain @ field (uuid_bytes (rt_attempt_id r)) @ field (uuid_bytes (rt_target_id r))
    @ [release_reason_kind (rt_release_reason r)] @ field (digest_bytes (reason_receipt (rt_release_reason r)))"

definition receipt_from_canonical_bytes :: "byte list \<Rightarrow> (restore_cutover_error, restore_terminal_receipt) result"
  where "receipt_from_canonical_bytes bytes =
    and_then (read_domain Cutover_Malformed receipt_domain (decoder_new bytes)) (\<lambda>d.
    and_then (read_field_uuid d) (\<lambda>(attempt_id, d).
    and_then (read_field_uuid d) (\<lambda>(target_id, d).
    and_then (read_u8 Cutover_Malformed d) (\<lambda>(kind, d).
    and_then (read_field_digest d) (\<lambda>(receipt, d).
    and_then (finish_decoder Cutover_Malformed d) (\<lambda>_.
    and_then (ok_or Cutover_Malformed (release_reason_of_kind kind receipt)) (\<lambda>release_reason.
    Ok \<lparr> rt_attempt_id = attempt_id, rt_target_id = target_id, rt_release_reason = release_reason \<rparr>)))))))"

section \<open>Progress of an attempt\<close>

record restore_attempt_progress =
  rp_attempt_id :: uuid
  rp_target_id :: uuid
  rp_backup_set_id :: uuid
  rp_hold_id :: uuid
  rp_source_generation_id :: uuid
  rp_target_generation_id :: uuid
  rp_source_freeze :: "source_freeze_point option"
  rp_terminal_receipt :: "restore_terminal_receipt option"

definition prepare_attempt ::
    "uuid \<Rightarrow> uuid \<Rightarrow> uuid \<Rightarrow> uuid \<Rightarrow> uuid \<Rightarrow> uuid \<Rightarrow> (restore_cutover_error, restore_attempt_progress) result"
  where "prepare_attempt attempt_id target_id backup_set_id hold_id source_generation_id target_generation_id =
    (if source_generation_id = target_generation_id then Err TargetGenerationMatchesSource
     else Ok \<lparr> rp_attempt_id = attempt_id, rp_target_id = target_id, rp_backup_set_id = backup_set_id,
               rp_hold_id = hold_id, rp_source_generation_id = source_generation_id,
               rp_target_generation_id = target_generation_id, rp_source_freeze = None,
               rp_terminal_receipt = None \<rparr>)"

definition record_source_freeze ::
    "restore_attempt_progress \<Rightarrow> source_freeze_point \<Rightarrow> (restore_cutover_error, restore_attempt_progress) result"
  where "record_source_freeze p source_freeze =
    (if rp_source_freeze p \<noteq> None \<or> sf_generation_id source_freeze \<noteq> rp_source_generation_id p
     then Err InvalidAttemptTransition
     else Ok (p\<lparr>rp_source_freeze := Some source_freeze\<rparr>))"

definition record_terminal_receipt ::
    "restore_attempt_progress \<Rightarrow> restore_terminal_receipt \<Rightarrow> (restore_cutover_error, restore_attempt_progress) result"
  where "record_terminal_receipt p receipt =
    (if rp_source_freeze p = None \<or> rp_terminal_receipt p \<noteq> None \<or> rt_attempt_id receipt \<noteq> rp_attempt_id p
        \<or> rt_target_id receipt \<noteq> rp_target_id p
     then Err InvalidAttemptTransition
     else Ok (p\<lparr>rp_terminal_receipt := Some receipt\<rparr>))"

definition progress_domain :: "byte list"
  where "progress_domain = ascii ''vestrace-restore-attempt-progress-v1''"

definition optional_field :: "('a \<Rightarrow> byte list) \<Rightarrow> 'a option \<Rightarrow> byte list"
  where "optional_field encode v = (case v of Some x \<Rightarrow> 1 # field (encode x) | None \<Rightarrow> [0])"

definition progress_canonical_bytes :: "restore_attempt_progress \<Rightarrow> byte list"
  where "progress_canonical_bytes p =
    field progress_domain @ field (uuid_bytes (rp_attempt_id p)) @ field (uuid_bytes (rp_target_id p))
    @ field (uuid_bytes (rp_backup_set_id p)) @ field (uuid_bytes (rp_hold_id p))
    @ field (uuid_bytes (rp_source_generation_id p)) @ field (uuid_bytes (rp_target_generation_id p))
    @ optional_field freeze_canonical_bytes (rp_source_freeze p)
    @ optional_field receipt_canonical_bytes (rp_terminal_receipt p)"

text \<open>The step taken on a tag byte: keep the progress, or record what the next field holds.\<close>

definition record_optional ::
    "(byte list \<Rightarrow> (restore_cutover_error, 'a) result)
     \<Rightarrow> (restore_attempt_progress \<Rightarrow> 'a \<Rightarrow> (restore_cutover_error, restore_attempt_progress) result)
     \<Rightarrow> restore_attempt_progress \<Rightarrow> decoder \<Rightarrow> (restore_cutover_error, restore_attempt_progress \<times> decoder) result"
  where "record_optional from_bytes record_value p d =
    and_then (read_u8 Cutover_Malformed d) (\<lambda>(tag, d).
    if tag = 0 then Ok (p, d)
    else if tag = 1 then
      and_then (read_field Cutover_Malformed d) (\<lambda>(bytes, d).
      and_then (from_bytes bytes) (\<lambda>v.
      and_then (record_value p v) (\<lambda>p. Ok (p, d))))
    else Err Cutover_Malformed)"

definition progress_from_canonical_bytes :: "byte list \<Rightarrow> (restore_cutover_error, restore_attempt_progress) result"
  where "progress_from_canonical_bytes bytes =
    and_then (read_domain Cutover_Malformed progress_domain (decoder_new bytes)) (\<lambda>d.
    and_then (read_field_uuid d) (\<lambda>(attempt_id, d).
    and_then (read_field_uuid d) (\<lambda>(target_id, d).
    and_then (read_field_uuid d) (\<lambda>(backup_set_id, d).
    and_then (read_field_uuid d) (\<lambda>(hold_id, d).
    and_then (read_field_uuid d) (\<lambda>(source_generation_id, d).
    and_then (read_field_uuid d) (\<lambda>(target_generation_id, d).
    and_then (prepare_attempt attempt_id target_id backup_set_id hold_id source_generation_id
        target_generation_id) (\<lambda>prepared.
    and_then (record_optional freeze_from_canonical_bytes record_source_freeze prepared d) (\<lambda>(frozen, d).
    and_then (record_optional receipt_from_canonical_bytes record_terminal_receipt frozen d) (\<lambda>(p, d).
    and_then (finish_decoder Cutover_Malformed d) (\<lambda>_. Ok p)))))))))))"

section \<open>Activation\<close>

record target_activation_plan =
  tp_attempt_id :: uuid
  tp_target_id :: uuid
  tp_backup_set_id :: uuid
  tp_source_generation_id :: uuid
  tp_target_generation_id :: uuid
  tp_source_freeze :: source_freeze_point
  tp_archive_head_digest :: digest

definition activation_plan_new ::
    "uuid \<Rightarrow> uuid \<Rightarrow> uuid \<Rightarrow> uuid \<Rightarrow> uuid \<Rightarrow> source_freeze_point \<Rightarrow> digest
     \<Rightarrow> (restore_cutover_error, target_activation_plan) result"
  where "activation_plan_new attempt_id target_id backup_set_id source_generation_id target_generation_id
      source_freeze archive_head_digest =
    (if source_generation_id = target_generation_id then Err TargetGenerationMatchesSource
     else if sf_generation_id source_freeze \<noteq> source_generation_id then Err FreezeGenerationMismatch
     else Ok \<lparr> tp_attempt_id = attempt_id, tp_target_id = target_id, tp_backup_set_id = backup_set_id,
               tp_source_generation_id = source_generation_id, tp_target_generation_id = target_generation_id,
               tp_source_freeze = source_freeze, tp_archive_head_digest = archive_head_digest \<rparr>)"

definition plan_domain :: "byte list"
  where "plan_domain = ascii ''vestrace-target-activation-plan-v1''"

definition plan_canonical_bytes :: "target_activation_plan \<Rightarrow> byte list"
  where "plan_canonical_bytes p =
    field plan_domain @ field (uuid_bytes (tp_attempt_id p)) @ field (uuid_bytes (tp_target_id p))
    @ field (uuid_bytes (tp_backup_set_id p)) @ field (uuid_bytes (tp_source_generation_id p))
    @ field (uuid_bytes (tp_target_generation_id p)) @ field (freeze_canonical_bytes (tp_source_freeze p))
    @ field (digest_bytes (tp_archive_head_digest p))"

definition plan_digest :: "(byte list \<Rightarrow> digest) \<Rightarrow> target_activation_plan \<Rightarrow> digest"
  where "plan_digest sha p = sha (plan_canonical_bytes p)"

definition plan_from_canonical_bytes :: "byte list \<Rightarrow> (restore_cutover_error, target_activation_plan) result"
  where "plan_from_canonical_bytes bytes =
    and_then (read_domain Cutover_Malformed plan_domain (decoder_new bytes)) (\<lambda>d.
    and_then (read_field_uuid d) (\<lambda>(attempt_id, d).
    and_then (read_field_uuid d) (\<lambda>(target_id, d).
    and_then (read_field_uuid d) (\<lambda>(backup_set_id, d).
    and_then (read_field_uuid d) (\<lambda>(source_generation_id, d).
    and_then (read_field_uuid d) (\<lambda>(target_generation_id, d).
    and_then (read_field Cutover_Malformed d) (\<lambda>(freeze_bytes, d).
    and_then (freeze_from_canonical_bytes freeze_bytes) (\<lambda>source_freeze.
    and_then (read_field_digest d) (\<lambda>(archive_head_digest, d).
    and_then (finish_decoder Cutover_Malformed d) (\<lambda>_.
    activation_plan_new attempt_id target_id backup_set_id source_generation_id target_generation_id
      source_freeze archive_head_digest))))))))))"

section \<open>Normal paths\<close>

text \<open>A root followed by names.\<close>

definition rooted :: "path_component list \<Rightarrow> bool"
  where "rooted cs \<longleftrightarrow> (\<exists>names. cs = RootDir # map NormalComp names)"

lemma rooted_pop: "rooted cs \<Longrightarrow> rooted (path_pop cs)"
proof -
  assume "rooted cs"
  then obtain names where cs: "cs = RootDir # map NormalComp names"
    by (auto simp: rooted_def)
  show "rooted (path_pop cs)"
    using cs by (cases names rule: rev_cases) (auto simp: path_pop_def rooted_def butlast_append)
qed

lemma rooted_step: "rooted cs \<Longrightarrow> rooted (normalize_component cs c)"
proof (cases c)
  case RootDir
  then show ?thesis by (auto simp: rooted_def intro: exI [of _ "[]"])
next
  case (NormalComp n)
  assume "rooted cs"
  then obtain names where "cs = RootDir # map NormalComp names"
    by (auto simp: rooted_def)
  then show ?thesis
    using NormalComp by (auto simp: rooted_def intro!: exI [of _ "names @ [n]"])
qed (simp_all add: rooted_pop)

lemma rooted_fold: "rooted acc \<Longrightarrow> rooted (foldl normalize_component acc cs)"
  by (induction cs arbitrary: acc) (simp_all add: rooted_step)

lemma lexical_normalize_rooted: "is_absolute path \<Longrightarrow> rooted (lexical_normalize path)"
  using rooted_fold [of "[RootDir]"] by (simp add: lexical_normalize_def path_components_def rooted_def)

section \<open>Canonical bytes, proved\<close>

lemma read_field_uuid_Ok_iff [codec_iffs]:
  "read_field_uuid (reading pre xs) = Ok (w, d) \<longleftrightarrow>
     (\<exists>zs. xs = field (uuid_bytes w) @ zs \<and> d = reading (pre @ field (uuid_bytes w)) zs)"
  by (simp add: read_field_uuid_def uuid_bytes_def read_field_word_Ok_iff)

lemma read_field_digest_Ok_iff [codec_iffs]:
  "read_field_digest (reading pre xs) = Ok (w, d) \<longleftrightarrow>
     (\<exists>zs. xs = field (digest_bytes w) @ zs \<and> d = reading (pre @ field (digest_bytes w)) zs)"
  by (simp add: read_field_digest_def digest_bytes_def read_field_word_Ok_iff)

lemma read_field_word_forward [codec_simps]:
  "read_field_uuid (reading pre (field (uuid_bytes i) @ zs)) = Ok (i, reading (pre @ field (uuid_bytes i)) zs)"
  "read_field_digest (reading pre (field (digest_bytes h))) = Ok (h, reading (pre @ field (digest_bytes h)) [])"
  by (simp_all add: read_field_uuid_Ok_iff read_field_digest_Ok_iff)

lemma domain_lengths [simp]:
  "length freeze_domain = 31" "length receipt_domain = 36" "length progress_domain = 36" "length plan_domain = 34"
  by (simp_all add: freeze_domain_def receipt_domain_def progress_domain_def plan_domain_def ascii_def)

definition freeze_ok :: "source_freeze_point \<Rightarrow> bool"
  where "freeze_ok f \<longleftrightarrow> sf_timeline f \<noteq> 0 \<and> sf_lsn f \<noteq> 0"

lemma freeze_new_Ok_iff:
  "source_freeze_point_new g t l m = Ok f \<longleftrightarrow> freeze_ok f \<and>
     f = \<lparr> sf_generation_id = g, sf_timeline = t, sf_lsn = l, sf_mutation_watermark = m \<rparr>"
  by (auto simp: source_freeze_point_new_def freeze_ok_def)

interpretation freeze_codec: canonical_codec freeze_canonical_bytes freeze_decode freeze_ok
proof
  fix pre xs f d
  show "freeze_decode (reading pre xs) = Ok (f, d) \<longleftrightarrow>
    freeze_ok f \<and> (\<exists>zs. xs = freeze_canonical_bytes f @ zs \<and> d = reading (pre @ freeze_canonical_bytes f) zs)"
    by (cases f) (auto simp: freeze_decode_def and_then_Ok_iff codec_iffs freeze_new_Ok_iff freeze_canonical_bytes_def)
qed

lemma freeze_from_Ok_iff:
  "freeze_from_canonical_bytes bytes = Ok f \<longleftrightarrow> freeze_ok f \<and> bytes = freeze_canonical_bytes f"
  unfolding freeze_from_canonical_bytes_def by (rule freeze_codec.whole_Ok_iff)

lemma release_reason_of_kind_iff:
  "release_reason_of_kind k r = Some reason \<longleftrightarrow> k = release_reason_kind reason \<and> r = reason_receipt reason"
  by (cases reason) (auto simp: release_reason_of_kind_def)

lemma receipt_from_Ok_iff:
  "receipt_from_canonical_bytes bytes = Ok r \<longleftrightarrow> bytes = receipt_canonical_bytes r"
  by (cases r) (auto simp: receipt_from_canonical_bytes_def decoder_new_reading and_then_Ok_iff codec_iffs ok_or_Ok_iff
      release_reason_of_kind_iff receipt_canonical_bytes_def)

lemma value_lengths:
  "length (freeze_canonical_bytes f) < 2 ^ 64" "length (receipt_canonical_bytes r) < 2 ^ 64"
  by (simp_all add: freeze_canonical_bytes_def receipt_canonical_bytes_def)

definition plan_ok :: "target_activation_plan \<Rightarrow> bool"
  where "plan_ok p \<longleftrightarrow> tp_source_generation_id p \<noteq> tp_target_generation_id p \<and>
    sf_generation_id (tp_source_freeze p) = tp_source_generation_id p \<and> freeze_ok (tp_source_freeze p)"

lemma plan_from_Ok_iff:
  "plan_from_canonical_bytes bytes = Ok p \<longleftrightarrow> plan_ok p \<and> bytes = plan_canonical_bytes p"
proof
  assume "plan_from_canonical_bytes bytes = Ok p"
  then show "plan_ok p \<and> bytes = plan_canonical_bytes p"
    by (auto simp: plan_from_canonical_bytes_def decoder_new_reading and_then_Ok_iff codec_iffs
        freeze_from_Ok_iff activation_plan_new_def plan_ok_def plan_canonical_bytes_def split: if_splits)
next
  assume p: "plan_ok p \<and> bytes = plan_canonical_bytes p"
  have "freeze_from_canonical_bytes (freeze_canonical_bytes (tp_source_freeze p)) = Ok (tp_source_freeze p)"
    using p by (simp add: freeze_from_Ok_iff plan_ok_def)
  then show "plan_from_canonical_bytes bytes = Ok p"
    using p value_lengths(1)
    by (cases p) (simp add: plan_from_canonical_bytes_def decoder_new_reading codec_simps activation_plan_new_def
        plan_ok_def plan_canonical_bytes_def)
qed

definition progress_ok :: "restore_attempt_progress \<Rightarrow> bool"
  where "progress_ok p \<longleftrightarrow> rp_source_generation_id p \<noteq> rp_target_generation_id p \<and>
    (case rp_source_freeze p of None \<Rightarrow> rp_terminal_receipt p = None
     | Some f \<Rightarrow> freeze_ok f \<and> sf_generation_id f = rp_source_generation_id p) \<and>
    (case rp_terminal_receipt p of None \<Rightarrow> True
     | Some r \<Rightarrow> rt_attempt_id r = rp_attempt_id p \<and> rt_target_id r = rp_target_id p)"

lemma record_freeze_Ok_iff:
  "record_source_freeze p f = Ok q \<longleftrightarrow> rp_source_freeze p = None \<and> sf_generation_id f = rp_source_generation_id p \<and>
     q = p\<lparr>rp_source_freeze := Some f\<rparr>"
  by (auto simp: record_source_freeze_def)

lemma record_receipt_Ok_iff:
  "record_terminal_receipt p r = Ok q \<longleftrightarrow> rp_source_freeze p \<noteq> None \<and> rp_terminal_receipt p = None \<and>
     rt_attempt_id r = rp_attempt_id p \<and> rt_target_id r = rp_target_id p \<and> q = p\<lparr>rp_terminal_receipt := Some r\<rparr>"
  by (auto simp: record_terminal_receipt_def)

lemma record_optional_D:
  assumes "record_optional from_bytes record_value p (reading pre xs) = Ok (q, d)"
    and "\<And>bs v. from_bytes bs = Ok v \<longleftrightarrow> valid v \<and> bs = encode v"
  shows "\<exists>v zs. xs = optional_field encode v @ zs \<and> d = reading (pre @ optional_field encode v) zs \<and>
    (case v of None \<Rightarrow> q = p | Some x \<Rightarrow> valid x \<and> record_value p x = Ok q)"
proof -
  obtain tag zs where tag: "xs = tag # zs"
    using assms(1) by (auto simp: record_optional_def and_then_Ok_iff read_u8_Ok_iff)
  show ?thesis
  proof (cases "tag = 0")
    case True
    then show ?thesis
      using assms(1) tag by (intro exI [of _ None]) (auto simp: record_optional_def read_u8_reading optional_field_def)
  next
    case False
    then obtain bs v ys where "tag = 1" "zs = field bs @ ys" "from_bytes bs = Ok v" "record_value p v = Ok q"
        "d = reading (pre @ 1 # field bs) ys"
      using assms(1) tag by (auto simp: record_optional_def read_u8_reading and_then_Ok_iff read_field_Ok_iff split: if_splits)
    then show ?thesis
      using assms(2) tag by (intro exI [of _ "Some v"] exI [of _ ys]) (simp add: optional_field_def)
  qed
qed

lemma record_optional_forward:
  assumes "length (case v of None \<Rightarrow> [] | Some x \<Rightarrow> encode x) < 2 ^ 64"
    and "case v of None \<Rightarrow> q = p | Some x \<Rightarrow> from_bytes (encode x) = Ok x \<and> record_value p x = Ok q"
  shows "record_optional from_bytes record_value p (reading pre (optional_field encode v @ zs)) =
    Ok (q, reading (pre @ optional_field encode v) zs)"
  using assms by (cases v) (auto simp: record_optional_def optional_field_def codec_simps)

lemma progress_from_D:
  assumes "progress_from_canonical_bytes bytes = Ok p"
  shows "progress_ok p \<and> bytes = progress_canonical_bytes p"
proof -
  obtain a t b h s g prepared frozen d d' xs where pre: "prepare_attempt a t b h s g = Ok prepared"
    and fr: "record_optional freeze_from_canonical_bytes record_source_freeze prepared
      (reading (field progress_domain @ field (uuid_bytes a) @ field (uuid_bytes t) @ field (uuid_bytes b)
        @ field (uuid_bytes h) @ field (uuid_bytes s) @ field (uuid_bytes g)) xs) = Ok (frozen, d)"
    and re: "record_optional receipt_from_canonical_bytes record_terminal_receipt frozen d = Ok (p, d')"
    and fin: "finish_decoder Cutover_Malformed d' = Ok ()"
    and bytes: "bytes = field progress_domain @ field (uuid_bytes a) @ field (uuid_bytes t) @ field (uuid_bytes b)
        @ field (uuid_bytes h) @ field (uuid_bytes s) @ field (uuid_bytes g) @ xs"
    using assms by (auto simp: progress_from_canonical_bytes_def decoder_new_reading and_then_Ok_iff codec_iffs)
  obtain v zs where v: "xs = optional_field freeze_canonical_bytes v @ zs"
      "d = reading ((field progress_domain @ field (uuid_bytes a) @ field (uuid_bytes t) @ field (uuid_bytes b)
        @ field (uuid_bytes h) @ field (uuid_bytes s) @ field (uuid_bytes g)) @ optional_field freeze_canonical_bytes v) zs"
      "case v of None \<Rightarrow> frozen = prepared | Some f \<Rightarrow> freeze_ok f \<and> record_source_freeze prepared f = Ok frozen"
    using record_optional_D [OF fr freeze_from_Ok_iff] by blast
  have "receipt_from_canonical_bytes bs = Ok r \<longleftrightarrow> True \<and> bs = receipt_canonical_bytes r" for bs r
    by (simp add: receipt_from_Ok_iff)
  then obtain w ys where w: "zs = optional_field receipt_canonical_bytes w @ ys"
      "case w of None \<Rightarrow> p = frozen | Some r \<Rightarrow> True \<and> record_terminal_receipt frozen r = Ok p"
    and d': "d' = reading (((field progress_domain @ field (uuid_bytes a) @ field (uuid_bytes t) @ field (uuid_bytes b)
        @ field (uuid_bytes h) @ field (uuid_bytes s) @ field (uuid_bytes g)) @ optional_field freeze_canonical_bytes v)
        @ optional_field receipt_canonical_bytes w) ys"
    using record_optional_D [OF re [unfolded v(2)], of "\<lambda>_. True" receipt_canonical_bytes] by blast
  have ys: "ys = []"
    using fin by (simp add: d' finish_Ok_iff)
  show ?thesis
    using pre v(3) w(2) by (cases v; cases w)
      (auto simp: prepare_attempt_def record_freeze_Ok_iff record_receipt_Ok_iff progress_ok_def
        progress_canonical_bytes_def bytes v(1) w(1) ys split: if_splits)
qed

lemma progress_from_forward:
  assumes ok: "progress_ok p"
  shows "progress_from_canonical_bytes (progress_canonical_bytes p) = Ok p"
proof -
  define prepared where "prepared = p\<lparr>rp_source_freeze := None, rp_terminal_receipt := None\<rparr>"
  define frozen where "frozen = p\<lparr>rp_terminal_receipt := None\<rparr>"
  have pre: "prepare_attempt (rp_attempt_id p) (rp_target_id p) (rp_backup_set_id p) (rp_hold_id p)
      (rp_source_generation_id p) (rp_target_generation_id p) = Ok prepared"
    using ok by (cases p) (simp add: prepare_attempt_def progress_ok_def prepared_def)
  have fr: "record_optional freeze_from_canonical_bytes record_source_freeze prepared
      (reading pre (optional_field freeze_canonical_bytes (rp_source_freeze p) @ zs)) =
    Ok (frozen, reading (pre @ optional_field freeze_canonical_bytes (rp_source_freeze p)) zs)" for pre zs
    by (rule record_optional_forward)
      (use ok value_lengths(1) in \<open>cases p; auto simp: progress_ok_def prepared_def frozen_def freeze_from_Ok_iff
        record_freeze_Ok_iff split: option.splits\<close>)+
  have re: "record_optional receipt_from_canonical_bytes record_terminal_receipt frozen
      (reading pre (optional_field receipt_canonical_bytes (rp_terminal_receipt p) @ [])) =
    Ok (p, reading (pre @ optional_field receipt_canonical_bytes (rp_terminal_receipt p)) [])" for pre
    by (rule record_optional_forward)
      (use ok value_lengths(2) in \<open>cases p; auto simp: progress_ok_def frozen_def receipt_from_Ok_iff
        record_receipt_Ok_iff split: option.splits\<close>)+
  show ?thesis
    using re by (simp add: progress_from_canonical_bytes_def progress_canonical_bytes_def decoder_new_reading
        codec_simps pre fr)
qed

section \<open>Histories of an attempt\<close>

datatype attempt_call = RecordFreeze uuid u32 u64 u64 | RecordReceipt restore_terminal_receipt

fun attempt_step ::
    "restore_attempt_progress \<Rightarrow> attempt_call \<Rightarrow> (restore_cutover_error, restore_attempt_progress) result"
  where
    "attempt_step p (RecordFreeze generation_id timeline lsn mutation_watermark) =
       and_then (source_freeze_point_new generation_id timeline lsn mutation_watermark) (record_source_freeze p)"
  | "attempt_step p (RecordReceipt receipt) = record_terminal_receipt p receipt"

lemma prepare_Ok_iff:
  "prepare_attempt a t b h s g = Ok p \<longleftrightarrow> s \<noteq> g \<and>
     p = \<lparr> rp_attempt_id = a, rp_target_id = t, rp_backup_set_id = b, rp_hold_id = h,
       rp_source_generation_id = s, rp_target_generation_id = g, rp_source_freeze = None,
       rp_terminal_receipt = None \<rparr>"
  by (auto simp: prepare_attempt_def)

interpretation attempt_system: fallible_system attempt_step progress_ok
proof
  show "progress_ok q" if "progress_ok p" "attempt_step p c = Ok q" for p c q
    using that by (cases c) (auto simp: and_then_Ok_iff freeze_new_Ok_iff record_freeze_Ok_iff record_receipt_Ok_iff
        progress_ok_def)
qed

lemma progress_reachable:
  assumes ok: "progress_ok p"
  shows "\<exists>calls. and_then (prepare_attempt (rp_attempt_id p) (rp_target_id p) (rp_backup_set_id p) (rp_hold_id p)
      (rp_source_generation_id p) (rp_target_generation_id p)) (\<lambda>prepared. try_fold attempt_step prepared calls) = Ok p"
proof -
  define freezes where "freezes = (case rp_source_freeze p of None \<Rightarrow> [] | Some f \<Rightarrow>
    [RecordFreeze (sf_generation_id f) (sf_timeline f) (sf_lsn f) (sf_mutation_watermark f)])"
  define receipts where "receipts = (case rp_terminal_receipt p of None \<Rightarrow> [] | Some r \<Rightarrow> [RecordReceipt r])"
  have "and_then (prepare_attempt (rp_attempt_id p) (rp_target_id p) (rp_backup_set_id p) (rp_hold_id p)
      (rp_source_generation_id p) (rp_target_generation_id p))
      (\<lambda>prepared. try_fold attempt_step prepared (freezes @ receipts)) = Ok p"
    using ok by (cases p) (auto simp: freezes_def receipts_def prepare_attempt_def progress_ok_def record_source_freeze_def
        source_freeze_point_new_def freeze_ok_def record_terminal_receipt_def split: option.splits)
  then show ?thesis
    by blast
qed


section \<open>Properties\<close>

text \<open>
  A restore never works inside its own source.  Roots are accepted exactly when both are
  absolute and no path at all lies below both of them once \<^verbatim>\<open>.\<close> and \<^verbatim>\<open>..\<close> are resolved; the
  accepted roots are plain paths, a root directory followed by names.
\<close>

theorem restore_roots_are_disjoint:
  "restore_target_roots_new source target = Ok roots \<longleftrightarrow>
     is_absolute source \<and> is_absolute target \<and>
     roots = \<lparr> rr_source_root = lexical_normalize source, rr_target_root = lexical_normalize target \<rparr> \<and>
     rooted (rr_source_root roots) \<and> rooted (rr_target_root roots) \<and>
     (\<nexists>path. prefix (rr_source_root roots) path \<and> prefix (rr_target_root roots) path)"
proof -
  have "(\<exists>path. prefix a path \<and> prefix b path) \<longleftrightarrow> prefix a b \<or> prefix b a" for a b :: "path_component list"
    using prefix_same_cases by blast
  then show ?thesis
    using lexical_normalize_rooted by (auto simp: restore_target_roots_new_def Let_def)
qed

text \<open>
  C38: the stored progress of an attempt is a history.  Bytes are accepted as the progress of an
  attempt exactly when they are the canonical bytes of a progress that \<^verbatim>\<open>prepare\<close> followed by recorded
  freezes and receipts leads to; so no other bytes, and no progress that skipped a step, is accepted.
\<close>

theorem progress_bytes_are_histories:
  "progress_from_canonical_bytes bytes = Ok p \<longleftrightarrow>
     bytes = progress_canonical_bytes p \<and>
     (\<exists>a t b h s g calls. and_then (prepare_attempt a t b h s g)
        (\<lambda>prepared. try_fold attempt_step prepared calls) = Ok p)"
proof
  assume "progress_from_canonical_bytes bytes = Ok p"
  then show "bytes = progress_canonical_bytes p \<and>
     (\<exists>a t b h s g calls. and_then (prepare_attempt a t b h s g)
        (\<lambda>prepared. try_fold attempt_step prepared calls) = Ok p)"
    using progress_from_D progress_reachable by blast
next
  assume "bytes = progress_canonical_bytes p \<and>
     (\<exists>a t b h s g calls. and_then (prepare_attempt a t b h s g)
        (\<lambda>prepared. try_fold attempt_step prepared calls) = Ok p)"
  then obtain prepared calls a t b h s g where bytes: "bytes = progress_canonical_bytes p"
    and prepared: "prepare_attempt a t b h s g = Ok prepared" and run: "try_fold attempt_step prepared calls = Ok p"
    by (auto simp: and_then_Ok_iff)
  have "progress_ok prepared"
    using prepared by (auto simp: prepare_Ok_iff progress_ok_def)
  then have "progress_ok p"
    using run by (rule attempt_system.fold_inv)
  then show "progress_from_canonical_bytes bytes = Ok p"
    unfolding bytes by (rule progress_from_forward)
qed

text \<open>What is still open in an attempt: a freeze and a receipt, each once.\<close>

definition attempt_left :: "restore_attempt_progress \<Rightarrow> nat"
  where "attempt_left p =
    (if rp_source_freeze p = None then 1 else 0) + (if rp_terminal_receipt p = None then 1 else 0)"

definition attempt_ids :: "restore_attempt_progress \<Rightarrow> restore_attempt_progress"
  where "attempt_ids p = p\<lparr>rp_source_freeze := None, rp_terminal_receipt := None\<rparr>"

lemma attempt_step_one_way:
  assumes "attempt_step p c = Ok q"
  shows "Suc (attempt_left q) = attempt_left p \<and> attempt_ids q = attempt_ids p \<and>
    (rp_source_freeze p \<noteq> None \<longrightarrow> rp_source_freeze q = rp_source_freeze p) \<and>
    (rp_terminal_receipt p \<noteq> None \<longrightarrow> rp_terminal_receipt q = rp_terminal_receipt p)"
  using assms by (cases c) (auto simp: and_then_Ok_iff record_freeze_Ok_iff record_receipt_Ok_iff attempt_left_def
      attempt_ids_def)

text \<open>
  An attempt moves one way and ends.  Whatever calls are accepted after some progress, the
  attempt keeps its identifiers, a recorded freeze point and a recorded receipt never change, and every
  accepted call uses up one of the two steps, so at most two are ever accepted.
\<close>

theorem attempt_is_one_way:
  assumes "try_fold attempt_step p calls = Ok q"
  shows "length calls + attempt_left q = attempt_left p \<and> length calls \<le> 2 \<and> attempt_ids q = attempt_ids p \<and>
    (rp_source_freeze p \<noteq> None \<longrightarrow> rp_source_freeze q = rp_source_freeze p) \<and>
    (rp_terminal_receipt p \<noteq> None \<longrightarrow> rp_terminal_receipt q = rp_terminal_receipt p)"
proof -
  have "length calls + attempt_left q = attempt_left p \<and> attempt_ids q = attempt_ids p \<and>
    (rp_source_freeze p \<noteq> None \<longrightarrow> rp_source_freeze q = rp_source_freeze p) \<and>
    (rp_terminal_receipt p \<noteq> None \<longrightarrow> rp_terminal_receipt q = rp_terminal_receipt p)"
    using assms
  proof (induction calls arbitrary: p)
    case Nil
    then show ?case by simp
  next
    case (Cons c calls)
    then obtain r where "attempt_step p c = Ok r" "try_fold attempt_step r calls = Ok q"
      by (auto simp: and_then_Ok_iff)
    then show ?case
      using Cons.IH [of r] attempt_step_one_way [of p c r] by auto
  qed
  then show ?thesis
    by (auto simp: attempt_left_def split: if_splits)
qed

definition sample_progress :: restore_attempt_progress
  where "sample_progress = \<lparr> rp_attempt_id = 1, rp_target_id = 2, rp_backup_set_id = 3, rp_hold_id = 4,
    rp_source_generation_id = 5, rp_target_generation_id = 6, rp_source_freeze = None, rp_terminal_receipt = None \<rparr>"

definition sample_freeze :: source_freeze_point
  where "sample_freeze = \<lparr> sf_generation_id = 5, sf_timeline = 1, sf_lsn = 8, sf_mutation_watermark = 0 \<rparr>"

theorem attempt_is_one_way_witness:
  "attempt_left (sample_progress\<lparr>rp_source_freeze := Some sample_freeze\<rparr>) = 1 \<and> attempt_left sample_progress = 2"
  using attempt_is_one_way [of sample_progress "[RecordFreeze 5 1 8 0]"
    "sample_progress\<lparr>rp_source_freeze := Some sample_freeze\<rparr>"]
  by (simp add: sample_progress_def sample_freeze_def source_freeze_point_new_def record_source_freeze_def attempt_left_def)

text \<open>
  C39: an activation is bound to one plan.  Two byte strings accepted as activation plans and
  having the same digest are the same plan, unless the hash collides on them; and an accepted plan
  freezes the generation it restores from, at a real timeline and position, and targets another one.
\<close>

theorem activation_digest_binds_plan:
  assumes "plan_from_canonical_bytes bytes = Ok p" "plan_from_canonical_bytes bytes' = Ok q"
    and "plan_digest sha p = plan_digest sha q" "inj_on sha {bytes, bytes'}"
  shows "p = q \<and> plan_ok p"
proof -
  have p: "plan_ok p" "bytes = plan_canonical_bytes p" and q: "plan_ok q" "bytes' = plan_canonical_bytes q"
    using assms(1,2) by (simp_all add: plan_from_Ok_iff)
  have "bytes = bytes'"
    by (rule inj_onD [OF assms(4)]) (use assms(3) p(2) q(2) in \<open>simp_all add: plan_digest_def\<close>)
  then show ?thesis
    using assms(1,2) p by simp
qed

definition sample_plan :: target_activation_plan
  where "sample_plan = \<lparr> tp_attempt_id = 1, tp_target_id = 2, tp_backup_set_id = 3, tp_source_generation_id = 5,
    tp_target_generation_id = 6, tp_source_freeze = sample_freeze, tp_archive_head_digest = 9 \<rparr>"

theorem activation_digest_binds_plan_witness: "plan_ok sample_plan"
  using activation_digest_binds_plan [of "plan_canonical_bytes sample_plan" sample_plan
    "plan_canonical_bytes sample_plan" sample_plan "\<lambda>_. 0"]
  by (simp add: plan_from_Ok_iff plan_ok_def sample_plan_def sample_freeze_def freeze_ok_def)

end
