(* ===== verification/Installation_Safety.thy ===== *)
theory Installation_Safety
  imports Restore_Cutover
begin

text \<open>
  The installation safety journal (\<^verbatim>\<open>vestrace-domain/src/installation_safety.rs\<close>): the state a
  witness keeps, the signed entries that change it, the witness head and the rules by which it accepts
  an entry, the receipt a witness signs, and the create-only bootstrap record.  The hash and Ed25519 are
  arguments: \<^verbatim>\<open>sha\<close>, and a \<^verbatim>\<open>signatures\<close> record of \<^verbatim>\<open>ring\<close>'s operations on keys of a type of its own.
\<close>

type_synonym public_key = digest
type_synonym signature = "512 word"

record 'k signatures =
  sg_public_key :: "'k \<Rightarrow> public_key"
  sg_sign :: "'k \<Rightarrow> byte list \<Rightarrow> signature"
  sg_verify :: "public_key \<Rightarrow> byte list \<Rightarrow> signature \<Rightarrow> bool"

text \<open>What is relied on: a signature made with a key verifies under its public key.\<close>

definition signatures_verify :: "'k signatures \<Rightarrow> bool"
  where "signatures_verify sg \<longleftrightarrow> (\<forall>k m. sg_verify sg (sg_public_key sg k) m (sg_sign sg k m))"

datatype installation_safety_error =
  Safety_Malformed | InvalidSignature | IdentityMismatch | SequenceConflict | InvalidStateTransition

section \<open>Witness state\<close>

record witness_state =
  ws_generation_lineage_state :: "byte list"
  ws_backup_archive_state :: backup_archive_state
  ws_target_activation_plan :: "target_activation_plan option"
  ws_restore_attempt_progress :: "restore_attempt_progress option"
  ws_target_activation_started :: "digest option"

definition witness_state_genesis :: "uuid \<Rightarrow> witness_state"
  where "witness_state_genesis generation =
    \<lparr> ws_generation_lineage_state = uuid_bytes generation, ws_backup_archive_state = archive_empty,
      ws_target_activation_plan = None, ws_restore_attempt_progress = None,
      ws_target_activation_started = None \<rparr>"

definition witness_state_bytes :: "witness_state \<Rightarrow> byte list"
  where "witness_state_bytes st =
    field (ws_generation_lineage_state st) @ field (archive_canonical_bytes (ws_backup_archive_state st))
    @ field [] @ optional_field plan_canonical_bytes (ws_target_activation_plan st)
    @ optional_field progress_canonical_bytes (ws_restore_attempt_progress st)
    @ (case ws_target_activation_started st of
         Some d \<Rightarrow> optional_field digest_bytes (Some d) | None \<Rightarrow> [])"

definition read_optional_field :: "decoder \<Rightarrow> (installation_safety_error, byte list option \<times> decoder) result"
  where "read_optional_field d =
    and_then (read_u8 Safety_Malformed d) (\<lambda>(tag, d).
    if tag = 0 then Ok (None, d)
    else if tag = 1 then and_then (read_field Safety_Malformed d) (\<lambda>(bs, d). Ok (Some bs, d))
    else Err Safety_Malformed)"

text \<open>\<^verbatim>\<open>.map(from).transpose().map_err(|_| Malformed)\<close>.\<close>

definition decode_optional ::
    "(byte list \<Rightarrow> ('e, 'a) result) \<Rightarrow> byte list option \<Rightarrow> (installation_safety_error, 'a option) result"
  where "decode_optional from_bytes v =
    (case v of
       None \<Rightarrow> Ok None
     | Some bs \<Rightarrow> (case from_bytes bs of Ok x \<Rightarrow> Ok (Some x) | Err _ \<Rightarrow> Err Safety_Malformed))"

definition is_finished :: "decoder \<Rightarrow> bool"
  where "is_finished d = (dec_offset d = length (dec_bytes d))"

definition read_activation_marker ::
    "decoder \<Rightarrow> (installation_safety_error, digest option \<times> decoder) result"
  where "read_activation_marker d =
    (if is_finished d then Ok (None, d)
     else
       and_then (read_optional_field d) (\<lambda>(v, d).
       case v of
         None \<Rightarrow> Err Safety_Malformed
       | Some bs \<Rightarrow> if length bs = 32 then Ok (Some (word_of_nat (be_value bs)), d) else Err Safety_Malformed))"

definition decode_archive_slot ::
    "(byte list \<Rightarrow> digest) \<Rightarrow> byte list \<Rightarrow> byte list
     \<Rightarrow> (installation_safety_error failure, backup_archive_state) result"
  where "decode_archive_slot sha archive_slot retired_archive_slot =
    (if archive_slot = [] \<and> retired_archive_slot = [] then Ok archive_empty
     else if retired_archive_slot = [] then
       (case archive_from_canonical_bytes sha archive_slot of
          Ok s \<Rightarrow> Ok s | Err Panics \<Rightarrow> Err Panics | Err (Fails _) \<Rightarrow> Err (Fails Safety_Malformed))
     else Err (Fails Safety_Malformed))"

definition witness_state_from_bytes ::
    "(byte list \<Rightarrow> digest) \<Rightarrow> byte list \<Rightarrow> (installation_safety_error failure, witness_state) result"
  where "witness_state_from_bytes sha bytes =
    and_then (map_err Fails (
      and_then (read_field Safety_Malformed (decoder_new bytes)) (\<lambda>(lineage, d).
      and_then (read_field Safety_Malformed d) (\<lambda>(archive_slot, d).
      and_then (read_field Safety_Malformed d) (\<lambda>(retired_archive_slot, d).
      and_then (read_optional_field d) (\<lambda>(plan_bytes, d).
      and_then (decode_optional plan_from_canonical_bytes plan_bytes) (\<lambda>plan.
      and_then (read_optional_field d) (\<lambda>(progress_bytes, d).
      and_then (decode_optional progress_from_canonical_bytes progress_bytes) (\<lambda>progress.
      and_then (read_activation_marker d) (\<lambda>(started, d).
      and_then (finish_decoder Safety_Malformed d) (\<lambda>_.
      if length lineage < 16 \<or> length lineage mod 16 \<noteq> 0 then Err Safety_Malformed
      else Ok (lineage, archive_slot, retired_archive_slot, plan, progress, started))))))))))))
    (\<lambda>(lineage, archive_slot, retired_archive_slot, plan, progress, started).
    and_then (decode_archive_slot sha archive_slot retired_archive_slot) (\<lambda>archive.
    Ok \<lparr> ws_generation_lineage_state = lineage, ws_backup_archive_state = archive,
         ws_target_activation_plan = plan, ws_restore_attempt_progress = progress,
         ws_target_activation_started = started \<rparr>))"

definition register_generation ::
    "witness_state \<Rightarrow> uuid \<Rightarrow> (installation_safety_error, witness_state) result"
  where "register_generation st next_generation =
    (let lineage = ws_generation_lineage_state st; current = drop (length lineage - 16) lineage in
     if length current \<noteq> 16 \<or> current = uuid_bytes next_generation then Err InvalidStateTransition
     else Ok (st\<lparr>ws_generation_lineage_state := lineage @ uuid_bytes next_generation\<rparr>))"

definition with_backup_archive_state :: "witness_state \<Rightarrow> backup_archive_state \<Rightarrow> witness_state"
  where "with_backup_archive_state st archive = st\<lparr>ws_backup_archive_state := archive\<rparr>"

definition with_target_activation_plan ::
    "witness_state \<Rightarrow> target_activation_plan \<Rightarrow> (installation_safety_error, witness_state) result"
  where "with_target_activation_plan st plan =
    and_then (ok_or InvalidStateTransition (ws_restore_attempt_progress st)) (\<lambda>progress.
    if ws_target_activation_plan st \<noteq> None \<or> rp_terminal_receipt progress \<noteq> None
       \<or> rp_source_freeze progress \<noteq> Some (tp_source_freeze plan)
       \<or> rp_attempt_id progress \<noteq> tp_attempt_id plan \<or> rp_target_id progress \<noteq> tp_target_id plan
       \<or> rp_backup_set_id progress \<noteq> tp_backup_set_id plan
       \<or> rp_source_generation_id progress \<noteq> tp_source_generation_id plan
       \<or> rp_target_generation_id progress \<noteq> tp_target_generation_id plan
    then Err InvalidStateTransition
    else Ok (st\<lparr>ws_target_activation_plan := Some plan\<rparr>))"

definition with_restore_attempt_progress ::
    "witness_state \<Rightarrow> restore_attempt_progress \<Rightarrow> (installation_safety_error, witness_state) result"
  where "with_restore_attempt_progress st progress =
    (if ws_restore_attempt_progress st \<noteq> None \<or> rp_source_freeze progress \<noteq> None
        \<or> rp_terminal_receipt progress \<noteq> None
     then Err InvalidStateTransition
     else Ok (st\<lparr>ws_restore_attempt_progress := Some progress\<rparr>))"

definition with_source_freeze ::
    "witness_state \<Rightarrow> source_freeze_point \<Rightarrow> (installation_safety_error, witness_state) result"
  where "with_source_freeze st source_freeze =
    and_then (ok_or InvalidStateTransition (ws_restore_attempt_progress st)) (\<lambda>progress.
    and_then (map_err (\<lambda>_. InvalidStateTransition) (record_source_freeze progress source_freeze)) (\<lambda>progress.
    Ok (st\<lparr>ws_restore_attempt_progress := Some progress\<rparr>)))"

definition with_restore_terminal_receipt ::
    "witness_state \<Rightarrow> restore_terminal_receipt \<Rightarrow> (installation_safety_error, witness_state) result"
  where "with_restore_terminal_receipt st receipt =
    and_then (ok_or InvalidStateTransition (ws_restore_attempt_progress st)) (\<lambda>progress.
    and_then (map_err (\<lambda>_. InvalidStateTransition) (record_terminal_receipt progress receipt)) (\<lambda>progress.
    Ok (st\<lparr>ws_restore_attempt_progress := Some progress\<rparr>)))"

definition witness_terminal_receipt :: "witness_state \<Rightarrow> restore_terminal_receipt option"
  where "witness_terminal_receipt st = Option.bind (ws_restore_attempt_progress st) rp_terminal_receipt"

text \<open>The receipt by which the target of a plan reports that it is initialised.\<close>

definition completes_plan :: "restore_terminal_receipt \<Rightarrow> target_activation_plan \<Rightarrow> bool"
  where "completes_plan receipt plan =
    (rt_attempt_id receipt = tp_attempt_id plan \<and> rt_target_id receipt = tp_target_id plan \<and>
     (case rt_release_reason receipt of TargetInitializationComplete _ \<Rightarrow> True | _ \<Rightarrow> False))"

definition with_target_activation_started ::
    "(byte list \<Rightarrow> digest) \<Rightarrow> witness_state \<Rightarrow> (installation_safety_error, witness_state) result"
  where "with_target_activation_started sha st =
    and_then (ok_or InvalidStateTransition (ws_target_activation_plan st)) (\<lambda>plan.
    and_then (ok_or InvalidStateTransition (witness_terminal_receipt st)) (\<lambda>terminal.
    if ws_target_activation_started st \<noteq> None \<or> \<not> completes_plan terminal plan
    then Err InvalidStateTransition
    else Ok (st\<lparr>ws_target_activation_started := Some (plan_digest sha plan)\<rparr>)))"

section \<open>Exact successors of a witness state\<close>

definition is_exact_target_activation_plan_successor_of :: "witness_state \<Rightarrow> witness_state \<Rightarrow> bool"
  where "is_exact_target_activation_plan_successor_of next previous =
    (ws_generation_lineage_state next = ws_generation_lineage_state previous \<and>
     ws_backup_archive_state next = ws_backup_archive_state previous \<and>
     ws_target_activation_plan previous = None \<and> ws_target_activation_plan next \<noteq> None \<and>
     ws_restore_attempt_progress next = ws_restore_attempt_progress previous \<and>
     ws_target_activation_started next = ws_target_activation_started previous)"

definition is_exact_restore_terminal_successor_of :: "witness_state \<Rightarrow> witness_state \<Rightarrow> bool"
  where "is_exact_restore_terminal_successor_of next previous =
    (ws_generation_lineage_state next = ws_generation_lineage_state previous \<and>
     ws_backup_archive_state next = ws_backup_archive_state previous \<and>
     ws_target_activation_plan next = ws_target_activation_plan previous \<and>
     ws_target_activation_started next = ws_target_activation_started previous \<and>
     (case (ws_restore_attempt_progress previous, ws_restore_attempt_progress next) of
        (Some p, Some n) \<Rightarrow>
          (case rp_terminal_receipt n of
             None \<Rightarrow> False
           | Some r \<Rightarrow> rp_terminal_receipt p = None \<and> record_terminal_receipt p r = Ok n)
      | _ \<Rightarrow> False))"

definition is_exact_restore_attempt_prepared_successor_of :: "witness_state \<Rightarrow> witness_state \<Rightarrow> bool"
  where "is_exact_restore_attempt_prepared_successor_of next previous =
    (ws_generation_lineage_state next = ws_generation_lineage_state previous \<and>
     ws_backup_archive_state next = ws_backup_archive_state previous \<and>
     ws_target_activation_plan next = ws_target_activation_plan previous \<and>
     ws_target_activation_started next = ws_target_activation_started previous \<and>
     ws_restore_attempt_progress previous = None \<and>
     (case ws_restore_attempt_progress next of
        None \<Rightarrow> False
      | Some p \<Rightarrow> rp_source_freeze p = None \<and> rp_terminal_receipt p = None))"

definition is_exact_source_freeze_successor_of :: "witness_state \<Rightarrow> witness_state \<Rightarrow> bool"
  where "is_exact_source_freeze_successor_of next previous =
    (ws_generation_lineage_state next = ws_generation_lineage_state previous \<and>
     ws_backup_archive_state next = ws_backup_archive_state previous \<and>
     ws_target_activation_plan next = ws_target_activation_plan previous \<and>
     ws_target_activation_started next = ws_target_activation_started previous \<and>
     (case (ws_restore_attempt_progress previous, ws_restore_attempt_progress next) of
        (Some p, Some n) \<Rightarrow>
          (case rp_source_freeze n of
             None \<Rightarrow> False
           | Some f \<Rightarrow> rp_source_freeze p = None \<and> rp_terminal_receipt n = None \<and> record_source_freeze p f = Ok n)
      | _ \<Rightarrow> False))"

definition is_exact_target_activating_successor_of ::
    "(byte list \<Rightarrow> digest) \<Rightarrow> witness_state \<Rightarrow> witness_state \<Rightarrow> bool"
  where "is_exact_target_activating_successor_of sha next previous =
    (ws_generation_lineage_state next = ws_generation_lineage_state previous \<and>
     ws_backup_archive_state next = ws_backup_archive_state previous \<and>
     ws_target_activation_plan next = ws_target_activation_plan previous \<and>
     ws_restore_attempt_progress next = ws_restore_attempt_progress previous \<and>
     ws_target_activation_started previous = None \<and>
     ws_target_activation_started next = map_option (plan_digest sha) (ws_target_activation_plan previous))"

section \<open>Signed entries\<close>

datatype safety_event_kind =
    InstallationInitialized
  | GenerationRegistered
  | ArchiveCheckpointCommitted
  | BackupSetStarted
  | ArchiveRestoreHoldAcquired
  | ArchiveSealingStarted
  | ArchiveSealed
  | ManagedBackupDeletionPrepared
  | PreparedArchiveKeyErasure
  | ArchiveKeyErasedEvent
  | ManagedBackupDeleted
  | TargetActivationPlanned
  | RestoreTerminalRecorded
  | RestoreAttemptPrepared
  | SourceFreezeRecorded
  | TargetActivating

definition event_kinds :: "safety_event_kind list"
  where "event_kinds =
    [InstallationInitialized, GenerationRegistered, ArchiveCheckpointCommitted, BackupSetStarted,
     ArchiveRestoreHoldAcquired, ArchiveSealingStarted, ArchiveSealed, ManagedBackupDeletionPrepared,
     PreparedArchiveKeyErasure, ArchiveKeyErasedEvent, ManagedBackupDeleted, TargetActivationPlanned,
     RestoreTerminalRecorded, RestoreAttemptPrepared, SourceFreezeRecorded, TargetActivating]"

fun event_kind_code :: "safety_event_kind \<Rightarrow> u8"
  where
    "event_kind_code InstallationInitialized = 0"
  | "event_kind_code GenerationRegistered = 1"
  | "event_kind_code ArchiveCheckpointCommitted = 2"
  | "event_kind_code BackupSetStarted = 3"
  | "event_kind_code ArchiveRestoreHoldAcquired = 4"
  | "event_kind_code ArchiveSealingStarted = 5"
  | "event_kind_code ArchiveSealed = 6"
  | "event_kind_code ManagedBackupDeletionPrepared = 7"
  | "event_kind_code PreparedArchiveKeyErasure = 8"
  | "event_kind_code ArchiveKeyErasedEvent = 9"
  | "event_kind_code ManagedBackupDeleted = 10"
  | "event_kind_code TargetActivationPlanned = 11"
  | "event_kind_code RestoreTerminalRecorded = 12"
  | "event_kind_code RestoreAttemptPrepared = 13"
  | "event_kind_code SourceFreezeRecorded = 14"
  | "event_kind_code TargetActivating = 15"

definition event_kind_from_code :: "u8 \<Rightarrow> (installation_safety_error, safety_event_kind) result"
  where "event_kind_from_code b = ok_or Safety_Malformed (List.find (\<lambda>k. event_kind_code k = b) event_kinds)"

record signed_journal_entry =
  je_installation_id :: uuid
  je_fingerprint_key_id :: uuid
  je_continuity_proof :: digest
  je_request_id :: uuid
  je_sequence :: u64
  je_previous_digest :: digest
  je_event_kind :: safety_event_kind
  je_generation_id :: uuid
  je_activation_epoch :: u64
  je_state :: witness_state
  je_signer_public_key :: public_key
  je_signature :: signature

definition journal_entry_domain :: "byte list"
  where "journal_entry_domain = ascii ''vestrace-installation-safety-journal-v1''"

definition entry_canonical_bytes :: "signed_journal_entry \<Rightarrow> byte list"
  where "entry_canonical_bytes e =
    field journal_entry_domain @ field (uuid_bytes (je_installation_id e))
    @ field (uuid_bytes (je_fingerprint_key_id e)) @ field (digest_bytes (je_continuity_proof e))
    @ field (uuid_bytes (je_request_id e)) @ u64_bytes (je_sequence e)
    @ field (digest_bytes (je_previous_digest e)) @ [event_kind_code (je_event_kind e)]
    @ field (uuid_bytes (je_generation_id e)) @ u64_bytes (je_activation_epoch e)
    @ field (witness_state_bytes (je_state e)) @ field (digest_bytes (je_signer_public_key e))"

definition entry_digest :: "(byte list \<Rightarrow> digest) \<Rightarrow> signed_journal_entry \<Rightarrow> digest"
  where "entry_digest sha e = sha (entry_canonical_bytes e)"

text \<open>\<^verbatim>\<open>sign\<close> takes an entry without signer and signature; here they are overwritten.\<close>

definition entry_sign :: "'k signatures \<Rightarrow> 'k \<Rightarrow> signed_journal_entry \<Rightarrow> signed_journal_entry"
  where "entry_sign sg signer input =
    (let e = input\<lparr>je_signer_public_key := sg_public_key sg signer, je_signature := 0\<rparr> in
     e\<lparr>je_signature := sg_sign sg signer (entry_canonical_bytes e)\<rparr>)"

definition entry_verify :: "'k signatures \<Rightarrow> signed_journal_entry \<Rightarrow> (installation_safety_error, unit) result"
  where "entry_verify sg e =
    (if sg_verify sg (je_signer_public_key e) (entry_canonical_bytes e) (je_signature e)
     then Ok () else Err InvalidSignature)"

definition read_fixed_uuid :: "decoder \<Rightarrow> (installation_safety_error, uuid \<times> decoder) result"
  where "read_fixed_uuid = read_field_word Safety_Malformed 16"

definition read_fixed32 :: "decoder \<Rightarrow> (installation_safety_error, digest \<times> decoder) result"
  where "read_fixed32 = read_field_word Safety_Malformed 32"

definition entry_from_bytes ::
    "(byte list \<Rightarrow> digest) \<Rightarrow> 'k signatures \<Rightarrow> byte list \<Rightarrow> signature
     \<Rightarrow> (installation_safety_error failure, signed_journal_entry) result"
  where "entry_from_bytes sha sg bytes sig =
    and_then (map_err Fails (read_domain Safety_Malformed journal_entry_domain (decoder_new bytes))) (\<lambda>d.
    and_then (map_err Fails (read_fixed_uuid d)) (\<lambda>(installation_id, d).
    and_then (map_err Fails (read_fixed_uuid d)) (\<lambda>(fingerprint_key_id, d).
    and_then (map_err Fails (read_fixed32 d)) (\<lambda>(continuity_proof, d).
    and_then (map_err Fails (read_fixed_uuid d)) (\<lambda>(request_id, d).
    and_then (map_err Fails (read_u64 Safety_Malformed d)) (\<lambda>(sequence, d).
    and_then (map_err Fails (read_fixed32 d)) (\<lambda>(previous_digest, d).
    and_then (map_err Fails (read_u8 Safety_Malformed d)) (\<lambda>(code, d).
    and_then (map_err Fails (event_kind_from_code code)) (\<lambda>event_kind.
    and_then (map_err Fails (read_fixed_uuid d)) (\<lambda>(generation_id, d).
    and_then (map_err Fails (read_u64 Safety_Malformed d)) (\<lambda>(activation_epoch, d).
    and_then (map_err Fails (read_field Safety_Malformed d)) (\<lambda>(state_bytes, d).
    and_then (witness_state_from_bytes sha state_bytes) (\<lambda>state.
    and_then (map_err Fails (read_fixed32 d)) (\<lambda>(signer_public_key, d).
    and_then (map_err Fails (finish_decoder Safety_Malformed d)) (\<lambda>_.
    let e = \<lparr> je_installation_id = installation_id, je_fingerprint_key_id = fingerprint_key_id,
              je_continuity_proof = continuity_proof, je_request_id = request_id, je_sequence = sequence,
              je_previous_digest = previous_digest, je_event_kind = event_kind,
              je_generation_id = generation_id, je_activation_epoch = activation_epoch, je_state = state,
              je_signer_public_key = signer_public_key, je_signature = sig \<rparr> in
    and_then (map_err Fails (entry_verify sg e)) (\<lambda>_. Ok e))))))))))))))))"

section \<open>The witness head\<close>

record witness_head =
  wh_installation_id :: uuid
  wh_fingerprint_key_id :: uuid
  wh_continuity_proof :: digest
  wh_sequence :: u64
  wh_chain_digest :: digest
  wh_active_generation_id :: uuid
  wh_activation_epoch :: u64
  wh_state :: witness_state
  wh_journal_public_key :: public_key

definition genesis_bytes :: "byte list"
  where "genesis_bytes = ascii ''vestrace-installation-safety-genesis-v1''"

definition witness_head_genesis ::
    "(byte list \<Rightarrow> digest) \<Rightarrow> uuid \<Rightarrow> uuid \<Rightarrow> digest \<Rightarrow> uuid \<Rightarrow> public_key \<Rightarrow> witness_head"
  where "witness_head_genesis sha installation_id fingerprint_key_id continuity_proof generation_id
      journal_public_key =
    \<lparr> wh_installation_id = installation_id, wh_fingerprint_key_id = fingerprint_key_id,
      wh_continuity_proof = continuity_proof, wh_sequence = 0, wh_chain_digest = sha genesis_bytes,
      wh_active_generation_id = generation_id, wh_activation_epoch = 0,
      wh_state = witness_state_genesis generation_id, wh_journal_public_key = journal_public_key \<rparr>"

definition exact_archive_lifecycle_transition ::
    "witness_head \<Rightarrow> signed_journal_entry \<Rightarrow> backup_set_lifecycle \<Rightarrow> backup_set_lifecycle \<Rightarrow> bool"
  where "exact_archive_lifecycle_transition head entry from to =
    (je_generation_id entry = wh_active_generation_id head \<and>
     je_activation_epoch entry = wh_activation_epoch head \<and>
     is_exact_lifecycle_successor_of (ws_backup_archive_state (je_state entry))
       (ws_backup_archive_state (wh_state head)) from to)"

text \<open>The guards of \<^verbatim>\<open>GenerationRegistered\<close>, in their order.\<close>

definition accept_generation ::
    "(byte list \<Rightarrow> digest) \<Rightarrow> witness_head \<Rightarrow> signed_journal_entry \<Rightarrow> (installation_safety_error, unit) result"
  where "accept_generation sha head entry =
    (if je_generation_id entry = wh_active_generation_id head then Err InvalidStateTransition
     else
       and_then (ok_or InvalidStateTransition (checked_add (wh_activation_epoch head) 1)) (\<lambda>epoch.
       if je_activation_epoch entry \<noteq> epoch then Err InvalidStateTransition
       else
         and_then (register_generation (wh_state head) (je_generation_id entry)) (\<lambda>expected.
         if je_state entry \<noteq> expected then Err InvalidStateTransition
         else if (case ws_restore_attempt_progress (wh_state head) of
                    None \<Rightarrow> False
                  | Some p \<Rightarrow> rp_source_freeze p \<noteq> None \<and> rp_terminal_receipt p = None) \<and>
                 ws_target_activation_plan (wh_state head) = None
         then Err InvalidStateTransition
         else if (case ws_target_activation_plan (wh_state head) of
                    None \<Rightarrow> False
                  | Some plan \<Rightarrow>
                      \<not> (case witness_terminal_receipt (wh_state head) of
                           None \<Rightarrow> False | Some r \<Rightarrow> completes_plan r plan)
                      \<or> je_generation_id entry \<noteq> tp_target_generation_id plan
                      \<or> ws_target_activation_plan (je_state entry) \<noteq> Some plan
                      \<or> ws_target_activation_started (wh_state head) \<noteq> Some (plan_digest sha plan))
         then Err InvalidStateTransition
         else Ok ())))"

text \<open>What the other kinds demand of the state; the generation and the epoch stay.\<close>

fun exact_event_successor ::
    "(byte list \<Rightarrow> digest) \<Rightarrow> safety_event_kind \<Rightarrow> witness_head \<Rightarrow> signed_journal_entry \<Rightarrow> bool"
  where
    "exact_event_successor sha InstallationInitialized head entry = (je_state entry = wh_state head)"
  | "exact_event_successor sha GenerationRegistered head entry = False"
  | "exact_event_successor sha ArchiveCheckpointCommitted head entry =
       is_exact_checkpoint_successor_of sha (ws_backup_archive_state (je_state entry))
         (ws_backup_archive_state (wh_state head))"
  | "exact_event_successor sha BackupSetStarted head entry =
       is_exact_started_successor_of (ws_backup_archive_state (je_state entry))
         (ws_backup_archive_state (wh_state head))"
  | "exact_event_successor sha ArchiveRestoreHoldAcquired head entry =
       is_exact_hold_successor_of (ws_backup_archive_state (je_state entry))
         (ws_backup_archive_state (wh_state head))"
  | "exact_event_successor sha ArchiveSealingStarted head entry =
       exact_archive_lifecycle_transition head entry Streaming Sealing"
  | "exact_event_successor sha ArchiveSealed head entry =
       exact_archive_lifecycle_transition head entry Sealing Sealed"
  | "exact_event_successor sha ManagedBackupDeletionPrepared head entry =
       is_exact_prepared_deletion_successor_of (ws_backup_archive_state (je_state entry))
         (ws_backup_archive_state (wh_state head))"
  | "exact_event_successor sha PreparedArchiveKeyErasure head entry =
       is_exact_key_erasure_prepared_successor_of (ws_backup_archive_state (je_state entry))
         (ws_backup_archive_state (wh_state head))"
  | "exact_event_successor sha ArchiveKeyErasedEvent head entry =
       exact_archive_lifecycle_transition head entry DeletionPrepared ArchiveKeyErased"
  | "exact_event_successor sha ManagedBackupDeleted head entry =
       exact_archive_lifecycle_transition head entry ArchiveKeyErased Deleted"
  | "exact_event_successor sha TargetActivationPlanned head entry =
       is_exact_target_activation_plan_successor_of (je_state entry) (wh_state head)"
  | "exact_event_successor sha RestoreTerminalRecorded head entry =
       is_exact_restore_terminal_successor_of (je_state entry) (wh_state head)"
  | "exact_event_successor sha RestoreAttemptPrepared head entry =
       is_exact_restore_attempt_prepared_successor_of (je_state entry) (wh_state head)"
  | "exact_event_successor sha SourceFreezeRecorded head entry =
       is_exact_source_freeze_successor_of (je_state entry) (wh_state head)"
  | "exact_event_successor sha TargetActivating head entry =
       is_exact_target_activating_successor_of sha (je_state entry) (wh_state head)"

record witness_advance =
  wa_event_kind :: safety_event_kind
  wa_generation_id :: uuid
  wa_activation_epoch :: u64
  wa_signed_entry :: signed_journal_entry
  wa_next_state :: witness_state

definition accept_signed ::
    "(byte list \<Rightarrow> digest) \<Rightarrow> 'k signatures \<Rightarrow> witness_head \<Rightarrow> signed_journal_entry
     \<Rightarrow> (installation_safety_error, witness_advance) result"
  where "accept_signed sha sg head entry =
    and_then (entry_verify sg entry) (\<lambda>_.
    and_then (ok_or SequenceConflict (checked_add (wh_sequence head) 1)) (\<lambda>sequence.
    if je_sequence entry \<noteq> sequence \<or> je_installation_id entry \<noteq> wh_installation_id head
       \<or> je_fingerprint_key_id entry \<noteq> wh_fingerprint_key_id head
       \<or> je_continuity_proof entry \<noteq> wh_continuity_proof head
       \<or> je_previous_digest entry \<noteq> wh_chain_digest head
       \<or> je_signer_public_key entry \<noteq> wh_journal_public_key head
    then Err IdentityMismatch
    else
      and_then
        (if je_event_kind entry = GenerationRegistered then accept_generation sha head entry
         else if je_generation_id entry \<noteq> wh_active_generation_id head
              \<or> je_activation_epoch entry \<noteq> wh_activation_epoch head
              \<or> \<not> exact_event_successor sha (je_event_kind entry) head entry
         then Err InvalidStateTransition
         else Ok ()) (\<lambda>_.
      Ok \<lparr> wa_event_kind = je_event_kind entry, wa_generation_id = je_generation_id entry,
           wa_activation_epoch = je_activation_epoch entry, wa_signed_entry = entry,
           wa_next_state = je_state entry \<rparr>)))"

section \<open>Receipts and the bootstrap record\<close>

record witness_receipt =
  wr_installation_id :: uuid
  wr_fingerprint_key_id :: uuid
  wr_continuity_proof :: digest
  wr_sequence :: u64
  wr_journal_digest :: digest
  wr_generation_id :: uuid
  wr_activation_epoch :: u64
  wr_state :: witness_state
  wr_witness_public_key :: public_key
  wr_signature :: signature

definition witness_receipt_domain :: "byte list"
  where "witness_receipt_domain = ascii ''vestrace-installation-witness-receipt-v1''"

definition witness_receipt_bytes :: "witness_receipt \<Rightarrow> byte list"
  where "witness_receipt_bytes r =
    field witness_receipt_domain @ field (uuid_bytes (wr_installation_id r))
    @ field (uuid_bytes (wr_fingerprint_key_id r)) @ field (digest_bytes (wr_continuity_proof r))
    @ u64_bytes (wr_sequence r) @ field (digest_bytes (wr_journal_digest r))
    @ field (uuid_bytes (wr_generation_id r)) @ u64_bytes (wr_activation_epoch r)
    @ field (witness_state_bytes (wr_state r)) @ field (digest_bytes (wr_witness_public_key r))"

definition receipt_sign ::
    "(byte list \<Rightarrow> digest) \<Rightarrow> 'k signatures \<Rightarrow> 'k \<Rightarrow> witness_head \<Rightarrow> witness_advance
     \<Rightarrow> (installation_safety_error, witness_receipt) result"
  where "receipt_sign sha sg witness head advance =
    and_then (ok_or SequenceConflict (checked_add (wh_sequence head) 1)) (\<lambda>sequence.
    if je_sequence (wa_signed_entry advance) \<noteq> sequence then Err SequenceConflict
    else
      let r = \<lparr> wr_installation_id = wh_installation_id head, wr_fingerprint_key_id = wh_fingerprint_key_id head,
                wr_continuity_proof = wh_continuity_proof head,
                wr_sequence = je_sequence (wa_signed_entry advance),
                wr_journal_digest = entry_digest sha (wa_signed_entry advance),
                wr_generation_id = wa_generation_id advance, wr_activation_epoch = wa_activation_epoch advance,
                wr_state = wa_next_state advance, wr_witness_public_key = sg_public_key sg witness,
                wr_signature = 0 \<rparr> in
      Ok (r\<lparr>wr_signature := sg_sign sg witness (witness_receipt_bytes r)\<rparr>))"

definition verify_against ::
    "'k signatures \<Rightarrow> witness_receipt \<Rightarrow> public_key \<Rightarrow> (installation_safety_error, unit) result"
  where "verify_against sg r expected =
    (if wr_witness_public_key r \<noteq> expected then Err IdentityMismatch
     else if sg_verify sg expected (witness_receipt_bytes r) (wr_signature r) then Ok ()
     else Err InvalidSignature)"

definition witness_receipt_from_bytes ::
    "(byte list \<Rightarrow> digest) \<Rightarrow> 'k signatures \<Rightarrow> byte list \<Rightarrow> signature
     \<Rightarrow> (installation_safety_error failure, witness_receipt) result"
  where "witness_receipt_from_bytes sha sg bytes sig =
    and_then (map_err Fails (read_domain Safety_Malformed witness_receipt_domain (decoder_new bytes))) (\<lambda>d.
    and_then (map_err Fails (read_fixed_uuid d)) (\<lambda>(installation_id, d).
    and_then (map_err Fails (read_fixed_uuid d)) (\<lambda>(fingerprint_key_id, d).
    and_then (map_err Fails (read_fixed32 d)) (\<lambda>(continuity_proof, d).
    and_then (map_err Fails (read_u64 Safety_Malformed d)) (\<lambda>(sequence, d).
    and_then (map_err Fails (read_fixed32 d)) (\<lambda>(journal_digest, d).
    and_then (map_err Fails (read_fixed_uuid d)) (\<lambda>(generation_id, d).
    and_then (map_err Fails (read_u64 Safety_Malformed d)) (\<lambda>(activation_epoch, d).
    and_then (map_err Fails (read_field Safety_Malformed d)) (\<lambda>(state_bytes, d).
    and_then (witness_state_from_bytes sha state_bytes) (\<lambda>state.
    and_then (map_err Fails (read_fixed32 d)) (\<lambda>(witness_public_key, d).
    and_then (map_err Fails (finish_decoder Safety_Malformed d)) (\<lambda>_.
    let r = \<lparr> wr_installation_id = installation_id, wr_fingerprint_key_id = fingerprint_key_id,
              wr_continuity_proof = continuity_proof, wr_sequence = sequence,
              wr_journal_digest = journal_digest, wr_generation_id = generation_id,
              wr_activation_epoch = activation_epoch, wr_state = state,
              wr_witness_public_key = witness_public_key, wr_signature = sig \<rparr> in
    and_then (map_err Fails (verify_against sg r (wr_witness_public_key r))) (\<lambda>_. Ok r)))))))))))))"

record safety_bootstrap_binding =
  sb_installation_id :: uuid
  sb_fingerprint_key_id :: uuid
  sb_continuity_proof :: digest
  sb_journal_public_key :: public_key
  sb_witness_public_key :: public_key

definition bootstrap_record_domain :: "byte list"
  where "bootstrap_record_domain = ascii ''vestrace-installation-safety-bootstrap-v1''"

definition binding_canonical_bytes :: "safety_bootstrap_binding \<Rightarrow> byte list"
  where "binding_canonical_bytes b =
    field bootstrap_record_domain @ field (uuid_bytes (sb_installation_id b))
    @ field (uuid_bytes (sb_fingerprint_key_id b)) @ field (digest_bytes (sb_continuity_proof b))
    @ field (digest_bytes (sb_journal_public_key b)) @ field (digest_bytes (sb_witness_public_key b))"

definition binding_from_canonical_bytes ::
    "byte list \<Rightarrow> (installation_safety_error, safety_bootstrap_binding) result"
  where "binding_from_canonical_bytes bytes =
    and_then (read_domain Safety_Malformed bootstrap_record_domain (decoder_new bytes)) (\<lambda>d.
    and_then (read_fixed_uuid d) (\<lambda>(installation_id, d).
    and_then (read_fixed_uuid d) (\<lambda>(fingerprint_key_id, d).
    and_then (read_fixed32 d) (\<lambda>(continuity_proof, d).
    and_then (read_fixed32 d) (\<lambda>(journal_public_key, d).
    and_then (read_fixed32 d) (\<lambda>(witness_public_key, d).
    and_then (finish_decoder Safety_Malformed d) (\<lambda>_.
    Ok \<lparr> sb_installation_id = installation_id, sb_fingerprint_key_id = fingerprint_key_id,
         sb_continuity_proof = continuity_proof, sb_journal_public_key = journal_public_key,
         sb_witness_public_key = witness_public_key \<rparr>)))))))"

definition from_durable_receipt ::
    "'k signatures \<Rightarrow> safety_bootstrap_binding \<Rightarrow> witness_receipt
     \<Rightarrow> (installation_safety_error, witness_head) result"
  where "from_durable_receipt sg binding r =
    and_then (verify_against sg r (sb_witness_public_key binding)) (\<lambda>_.
    if wr_sequence r = 0 \<or> wr_installation_id r \<noteq> sb_installation_id binding
       \<or> wr_fingerprint_key_id r \<noteq> sb_fingerprint_key_id binding
       \<or> wr_continuity_proof r \<noteq> sb_continuity_proof binding
    then Err IdentityMismatch
    else Ok \<lparr> wh_installation_id = wr_installation_id r, wh_fingerprint_key_id = wr_fingerprint_key_id r,
              wh_continuity_proof = wr_continuity_proof r, wh_sequence = wr_sequence r,
              wh_chain_digest = wr_journal_digest r, wh_active_generation_id = wr_generation_id r,
              wh_activation_epoch = wr_activation_epoch r, wh_state = wr_state r,
              wh_journal_public_key = sb_journal_public_key binding \<rparr>)"

datatype safety_bootstrap_error = BindingMismatch | Bootstrap_Unavailable

text \<open>
  The record file is the bytes stored under its name, if any.  Where the operating system fails is an
  argument; a failed or interrupted write leaves a part of the bytes.
\<close>

datatype bootstrap_fault =
  No_Fault | Create_Dir_Fails | Open_Fails | Write_Stops nat | Sync_Fails | Parent_Sync_Fails | Read_Fails

definition bootstrap_open_or_create ::
    "(byte list \<Rightarrow> digest) \<Rightarrow> bootstrap_fault \<Rightarrow> byte list option \<Rightarrow> safety_bootstrap_binding
     \<Rightarrow> (safety_bootstrap_error, digest) result \<times> byte list option"
  where "bootstrap_open_or_create sha fault stored binding =
    (let expected = binding_canonical_bytes binding in
     if fault \<in> {Create_Dir_Fails, Open_Fails} then (Err Bootstrap_Unavailable, stored)
     else
       case stored of
         None \<Rightarrow>
           (case fault of
              Write_Stops n \<Rightarrow> (Err Bootstrap_Unavailable, Some (take n expected))
            | Sync_Fails \<Rightarrow> (Err Bootstrap_Unavailable, Some expected)
            | Parent_Sync_Fails \<Rightarrow> (Err Bootstrap_Unavailable, Some expected)
            | _ \<Rightarrow> (Ok (sha expected), Some expected))
       | Some bytes \<Rightarrow>
           if fault = Read_Fails then (Err Bootstrap_Unavailable, stored)
           else if bytes \<noteq> expected then (Err BindingMismatch, stored)
           else (Ok (sha expected), stored))"

section \<open>Canonical bytes, proved\<close>

lemma read_fixed_Ok_iff [codec_iffs]:
  "read_fixed_uuid (reading pre xs) = Ok (i, d) \<longleftrightarrow>
     (\<exists>zs. xs = field (uuid_bytes i) @ zs \<and> d = reading (pre @ field (uuid_bytes i)) zs)"
  "read_fixed32 (reading pre xs) = Ok (h, d) \<longleftrightarrow>
     (\<exists>zs. xs = field (digest_bytes h) @ zs \<and> d = reading (pre @ field (digest_bytes h)) zs)"
  by (simp_all add: read_fixed_uuid_def read_fixed32_def uuid_bytes_def digest_bytes_def read_field_word_Ok_iff)

lemma read_fixed_forward [codec_simps]:
  "read_fixed_uuid (reading pre (field (uuid_bytes i) @ zs)) = Ok (i, reading (pre @ field (uuid_bytes i)) zs)"
  "read_fixed32 (reading pre (field (digest_bytes h) @ zs)) = Ok (h, reading (pre @ field (digest_bytes h)) zs)"
  "read_fixed32 (reading pre (field (digest_bytes h))) = Ok (h, reading (pre @ field (digest_bytes h)) [])"
  by (simp_all add: read_fixed_Ok_iff)

lemma safety_domain_lengths [simp]:
  "length journal_entry_domain = 39" "length witness_receipt_domain = 40" "length bootstrap_record_domain = 41"
  "length genesis_bytes = 39"
  by (simp_all add: journal_entry_domain_def witness_receipt_domain_def bootstrap_record_domain_def
      genesis_bytes_def ascii_def)

lemma event_kind_roundtrip [simp]: "event_kind_from_code (event_kind_code k) = Ok k"
  by (cases k) (simp_all add: event_kind_from_code_def event_kinds_def)

lemma binding_from_Ok_iff: "binding_from_canonical_bytes bytes = Ok b \<longleftrightarrow> bytes = binding_canonical_bytes b"
proof
  assume "binding_from_canonical_bytes bytes = Ok b"
  then show "bytes = binding_canonical_bytes b"
    by (auto simp: binding_from_canonical_bytes_def decoder_new_reading and_then_Ok_iff codec_iffs
        binding_canonical_bytes_def)
next
  assume "bytes = binding_canonical_bytes b"
  then show "binding_from_canonical_bytes bytes = Ok b"
    by (cases b) (simp add: binding_from_canonical_bytes_def decoder_new_reading codec_simps
        binding_canonical_bytes_def)
qed

lemma read_optional_forward [codec_simps]:
  "(case v of None \<Rightarrow> True | Some x \<Rightarrow> length (encode x) < 2 ^ 64) \<Longrightarrow>
     read_optional_field (reading pre (optional_field encode v @ zs)) =
       Ok (map_option encode v, reading (pre @ optional_field encode v) zs)"
  by (cases v) (simp_all add: read_optional_field_def optional_field_def codec_simps)

lemma read_marker_forward:
  "read_activation_marker (reading pre (case v of Some d \<Rightarrow> optional_field digest_bytes (Some d) | None \<Rightarrow> [])) =
     Ok (v, reading (pre @ (case v of Some d \<Rightarrow> optional_field digest_bytes (Some d) | None \<Rightarrow> [])) [])"
proof (cases v)
  case None
  then show ?thesis
    by (simp add: read_activation_marker_def is_finished_def reading_def)
next
  case (Some h)
  have "word_of_nat (be_value (digest_bytes h)) = h"
    by (simp add: digest_bytes_def be_word_roundtrip)
  moreover have "read_optional_field (reading pre (optional_field digest_bytes (Some h))) =
      Ok (Some (digest_bytes h), reading (pre @ optional_field digest_bytes (Some h)) [])"
    using read_optional_forward [where v = "Some h" and encode = digest_bytes and zs = "[]" and pre = pre] by simp
  ultimately show ?thesis
    using Some by (simp add: read_activation_marker_def is_finished_def reading_def optional_field_def)
qed

text \<open>States whose parts are well formed and fit the format.\<close>

definition witness_state_ok :: "(byte list \<Rightarrow> digest) \<Rightarrow> witness_state \<Rightarrow> bool"
  where "witness_state_ok sha st \<longleftrightarrow>
    16 \<le> length (ws_generation_lineage_state st) \<and> length (ws_generation_lineage_state st) mod 16 = 0 \<and>
    length (ws_generation_lineage_state st) < 2 ^ 64 \<and>
    archive_ok sha (ws_backup_archive_state st) \<and> archive_storable (ws_backup_archive_state st) \<and>
    length (archive_canonical_bytes (ws_backup_archive_state st)) < 2 ^ 64 \<and>
    (case ws_target_activation_plan st of None \<Rightarrow> True | Some p \<Rightarrow> plan_ok p) \<and>
    (case ws_restore_attempt_progress st of None \<Rightarrow> True | Some p \<Rightarrow> progress_ok p)"

lemma plan_length: "length (plan_canonical_bytes p) < 2 ^ 64"
  by (simp add: plan_canonical_bytes_def freeze_canonical_bytes_def)

lemma progress_length: "length (progress_canonical_bytes p) < 2 ^ 64"
  by (simp add: progress_canonical_bytes_def optional_field_def freeze_canonical_bytes_def
      receipt_canonical_bytes_def split: option.split)

lemma decode_optional_forward:
  "(case v of None \<Rightarrow> True | Some x \<Rightarrow> from_bytes (encode x) = Ok x) \<Longrightarrow>
     decode_optional from_bytes (map_option encode v) = Ok v"
  by (cases v) (simp_all add: decode_optional_def)

lemma archive_bytes_nonempty: "archive_canonical_bytes s \<noteq> []"
  by (simp add: archive_canonical_bytes_def)

lemma witness_state_roundtrip:
  assumes "witness_state_ok sha st"
  shows "witness_state_from_bytes sha (witness_state_bytes st) = Ok st"
proof -
  have plan: "decode_optional plan_from_canonical_bytes (map_option plan_canonical_bytes (ws_target_activation_plan st)) =
      Ok (ws_target_activation_plan st)"
    by (rule decode_optional_forward)
      (use assms in \<open>auto simp: witness_state_ok_def plan_from_Ok_iff split: option.splits\<close>)
  have progress: "decode_optional progress_from_canonical_bytes
      (map_option progress_canonical_bytes (ws_restore_attempt_progress st)) = Ok (ws_restore_attempt_progress st)"
    by (rule decode_optional_forward)
      (use assms in \<open>auto simp: witness_state_ok_def progress_from_forward split: option.splits\<close>)
  have archive: "decode_archive_slot sha (archive_canonical_bytes (ws_backup_archive_state st)) [] =
      Ok (ws_backup_archive_state st)"
    using assms archive_bytes_nonempty
    by (simp add: decode_archive_slot_def witness_state_ok_def archive_decode_encode)
  have lens: "case ws_target_activation_plan st of None \<Rightarrow> True | Some x \<Rightarrow> length (plan_canonical_bytes x) < 2 ^ 64"
      "case ws_restore_attempt_progress st of None \<Rightarrow> True | Some x \<Rightarrow> length (progress_canonical_bytes x) < 2 ^ 64"
    using plan_length progress_length by (simp_all split: option.split)
  show ?thesis
    using assms
    by (simp add: witness_state_from_bytes_def witness_state_bytes_def decoder_new_reading codec_simps plan progress
        archive lens read_marker_forward witness_state_ok_def not_less)
qed


lemma entry_roundtrip:
  assumes "witness_state_ok sha (je_state e)" "length (witness_state_bytes (je_state e)) < 2 ^ 64"
    and "entry_verify sg e = Ok ()"
  shows "entry_from_bytes sha sg (entry_canonical_bytes e) (je_signature e) = Ok e"
  using assms
  by (cases e) (simp add: entry_from_bytes_def entry_canonical_bytes_def decoder_new_reading codec_simps Let_def
      witness_state_roundtrip)

lemma witness_receipt_roundtrip:
  assumes "witness_state_ok sha (wr_state r)" "length (witness_state_bytes (wr_state r)) < 2 ^ 64"
    and "verify_against sg r (wr_witness_public_key r) = Ok ()"
  shows "witness_receipt_from_bytes sha sg (witness_receipt_bytes r) (wr_signature r) = Ok r"
  using assms
  by (cases r) (simp add: witness_receipt_from_bytes_def witness_receipt_bytes_def decoder_new_reading codec_simps
      Let_def witness_state_roundtrip)

section \<open>Advancing a head\<close>

definition head_after :: "(byte list \<Rightarrow> digest) \<Rightarrow> witness_head \<Rightarrow> signed_journal_entry \<Rightarrow> witness_head"
  where "head_after sha head entry = head\<lparr>wh_sequence := je_sequence entry, wh_chain_digest := entry_digest sha entry,
    wh_active_generation_id := je_generation_id entry, wh_activation_epoch := je_activation_epoch entry,
    wh_state := je_state entry\<rparr>"

definition head_step ::
    "(byte list \<Rightarrow> digest) \<Rightarrow> 'k signatures \<Rightarrow> witness_head \<Rightarrow> signed_journal_entry
     \<Rightarrow> (installation_safety_error, witness_head) result"
  where "head_step sha sg head entry = and_then (accept_signed sha sg head entry) (\<lambda>_. Ok (head_after sha head entry))"

text \<open>What an accepted entry has in common with the head.\<close>

lemma accept_signed_Ok_iff:
  "accept_signed sha sg head entry = Ok adv \<longleftrightarrow>
     entry_verify sg entry = Ok () \<and> unat (je_sequence entry) = unat (wh_sequence head) + 1 \<and>
     je_installation_id entry = wh_installation_id head \<and>
     je_fingerprint_key_id entry = wh_fingerprint_key_id head \<and>
     je_continuity_proof entry = wh_continuity_proof head \<and> je_previous_digest entry = wh_chain_digest head \<and>
     je_signer_public_key entry = wh_journal_public_key head \<and>
     (if je_event_kind entry = GenerationRegistered then accept_generation sha head entry = Ok ()
      else je_generation_id entry = wh_active_generation_id head \<and>
           je_activation_epoch entry = wh_activation_epoch head \<and>
           exact_event_successor sha (je_event_kind entry) head entry) \<and>
     adv = \<lparr> wa_event_kind = je_event_kind entry, wa_generation_id = je_generation_id entry,
             wa_activation_epoch = je_activation_epoch entry, wa_signed_entry = entry,
             wa_next_state = je_state entry \<rparr>"
  by (auto simp: accept_signed_def and_then_Ok_iff ok_or_Ok_iff checked_add_Some_iff split: if_splits)

text \<open>
  A witness signs a receipt for what its head accepts and reopens from that receipt: the reopened head
  is the head after the entry.
\<close>

definition witness_round ::
    "(byte list \<Rightarrow> digest) \<Rightarrow> 'k signatures \<Rightarrow> 'k \<Rightarrow> safety_bootstrap_binding \<Rightarrow> witness_head \<Rightarrow> signed_journal_entry
     \<Rightarrow> (installation_safety_error, witness_head) result"
  where "witness_round sha sg witness binding head entry =
    and_then (accept_signed sha sg head entry) (\<lambda>advance.
    and_then (receipt_sign sha sg witness head advance) (\<lambda>receipt.
    from_durable_receipt sg binding receipt))"

definition bound_head :: "safety_bootstrap_binding \<Rightarrow> witness_head \<Rightarrow> bool"
  where "bound_head b h \<longleftrightarrow> wh_installation_id h = sb_installation_id b \<and>
    wh_fingerprint_key_id h = sb_fingerprint_key_id b \<and> wh_continuity_proof h = sb_continuity_proof b \<and>
    wh_journal_public_key h = sb_journal_public_key b"

lemma witness_round_head_step:
  assumes law: "signatures_verify sg" and b: "bound_head binding head"
    and key: "sb_witness_public_key binding = sg_public_key sg witness"
  shows "witness_round sha sg witness binding head entry = head_step sha sg head entry"
proof (cases "accept_signed sha sg head entry")
  case (Inl x)
  then show ?thesis
    by (simp add: witness_round_def head_step_def)
next
  case (Inr adv)
  then have seq: "checked_add (wh_sequence head) 1 = Some (je_sequence entry)"
      and pos: "je_sequence entry \<noteq> 0"
      and adv: "adv = \<lparr> wa_event_kind = je_event_kind entry, wa_generation_id = je_generation_id entry,
             wa_activation_epoch = je_activation_epoch entry, wa_signed_entry = entry,
             wa_next_state = je_state entry \<rparr>"
    by (auto simp: accept_signed_Ok_iff checked_add_Some_iff)
  then show ?thesis
    using law b key Inr
    by (simp add: witness_round_def head_step_def receipt_sign_def Let_def from_durable_receipt_def verify_against_def
        witness_receipt_bytes_def signatures_verify_def bound_head_def head_after_def)
qed

interpretation journal: event_log "head_step sha sg" "bound_head b" "\<lambda>h. unat (wh_sequence h)"
  for sha :: "byte list \<Rightarrow> digest" and sg :: "'k signatures" and b
proof
  show "bound_head b h'" if "bound_head b h" "head_step sha sg h e = Ok h'" for h e h'
    using that by (auto simp: head_step_def and_then_Ok_iff head_after_def bound_head_def)
  show "unat (wh_sequence h') = Suc (unat (wh_sequence h))" if "head_step sha sg h e = Ok h'" for h e h'
    using that by (auto simp: head_step_def and_then_Ok_iff head_after_def accept_signed_Ok_iff)
qed

section \<open>The chain\<close>

lemma head_step_Ok_iff:
  "head_step sha sg h e = Ok h' \<longleftrightarrow> (\<exists>adv. accept_signed sha sg h e = Ok adv) \<and> h' = head_after sha h e"
  by (auto simp: head_step_def and_then_Ok_iff)

lemma head_step_linked:
  "head_step sha sg h e = Ok h' \<Longrightarrow>
     je_previous_digest e = wh_chain_digest h \<and> wh_chain_digest h' = entry_digest sha e \<and>
     wh_sequence h' = je_sequence e \<and> wh_state h' = je_state e"
  by (auto simp: head_step_Ok_iff accept_signed_Ok_iff head_after_def)

lemma try_fold_snoc_Ok_iff:
  "try_fold step s (es @ [e]) = Ok s' \<longleftrightarrow> (\<exists>s1. try_fold step s es = Ok s1 \<and> step s1 e = Ok s')"
  by (auto simp: try_fold_append and_then_Ok_iff)

text \<open>The bytes of an entry give back what it links to; they are longer than those of the genesis.\<close>

lemma entry_bytes_fields:
  assumes "entry_canonical_bytes a = entry_canonical_bytes b"
  shows "je_previous_digest a = je_previous_digest b \<and> je_sequence a = je_sequence b"
proof -
  have "u64_bytes (je_sequence a) = u64_bytes (je_sequence b)"
      "field (digest_bytes (je_previous_digest a)) = field (digest_bytes (je_previous_digest b))"
    using assms by (simp_all add: entry_canonical_bytes_def)
  then show ?thesis
    using u64_codec.encode_inj digest_codec.encode_inj by (simp add: field_def)
qed

lemma entry_bytes_not_genesis: "entry_canonical_bytes e \<noteq> genesis_bytes"
proof
  assume "entry_canonical_bytes e = genesis_bytes"
  then have "length (entry_canonical_bytes e) = 39"
    by simp
  then show False
    by (simp add: entry_canonical_bytes_def)
qed

lemma chains_agree:
  assumes "try_fold (head_step sha sg) g es = Ok h" "try_fold (head_step sha sg') g' es' = Ok h'"
    and "wh_chain_digest g = sha genesis_bytes" "wh_chain_digest g' = sha genesis_bytes"
    and "wh_chain_digest h = wh_chain_digest h'"
    and "inj_on sha ({genesis_bytes} \<union> entry_canonical_bytes ` set es \<union> entry_canonical_bytes ` set es')"
  shows "map entry_canonical_bytes es = map entry_canonical_bytes es'"
  using assms
proof (induction es arbitrary: h h' es' rule: rev_induct)
  case Nil
  show ?case
  proof (cases es' rule: rev_cases)
    case (snoc fs f)
    then have "sha genesis_bytes = sha (entry_canonical_bytes f)"
      using Nil.prems by (auto simp: try_fold_snoc_Ok_iff entry_digest_def dest: head_step_linked)
    then have "genesis_bytes = entry_canonical_bytes f"
      by (rule inj_onD [OF Nil.prems(6)]) (simp_all add: snoc)
    then show ?thesis
      using entry_bytes_not_genesis by metis
  qed simp
next
  case (snoc e es)
  obtain h1 where h1: "try_fold (head_step sha sg) g es = Ok h1" "head_step sha sg h1 e = Ok h"
    using snoc.prems(1) by (auto simp: try_fold_snoc_Ok_iff)
  have digest: "wh_chain_digest h = sha (entry_canonical_bytes e)"
    using head_step_linked [OF h1(2)] by (simp add: entry_digest_def)
  show ?case
  proof (cases es' rule: rev_cases)
    case Nil
    then have "sha (entry_canonical_bytes e) = sha genesis_bytes"
      using snoc.prems(2,4,5) digest by simp
    then have "entry_canonical_bytes e = genesis_bytes"
      by (rule inj_onD [OF snoc.prems(6)]) simp_all
    then show ?thesis
      using entry_bytes_not_genesis by metis
  next
    case fs: (snoc fs f)
    obtain h2 where h2: "try_fold (head_step sha sg') g' fs = Ok h2" "head_step sha sg' h2 f = Ok h'"
      using snoc.prems(2) fs by (auto simp: try_fold_snoc_Ok_iff)
    have "sha (entry_canonical_bytes e) = sha (entry_canonical_bytes f)"
      using head_step_linked [OF h2(2)] digest snoc.prems(5) by (simp add: entry_digest_def)
    then have ef: "entry_canonical_bytes e = entry_canonical_bytes f"
      by (rule inj_onD [OF snoc.prems(6)]) (simp_all add: fs)
    have "wh_chain_digest h1 = wh_chain_digest h2"
      using head_step_linked [OF h1(2)] head_step_linked [OF h2(2)] entry_bytes_fields [OF ef] by simp
    moreover have "inj_on sha ({genesis_bytes} \<union> entry_canonical_bytes ` set es \<union> entry_canonical_bytes ` set fs)"
      by (rule inj_on_subset [OF snoc.prems(6)]) (auto simp: fs)
    ultimately have "map entry_canonical_bytes es = map entry_canonical_bytes fs"
      using snoc.IH [OF h1(1) h2(1) snoc.prems(3,4)] by blast
    then show ?thesis
      using ef fs by simp
  qed
qed

section \<open>Sections of the state\<close>

text \<open>What an archive event should leave alone: everything but the archive.\<close>

definition archive_event :: "safety_event_kind \<Rightarrow> bool"
  where "archive_event k = (k \<in> {ArchiveCheckpointCommitted, BackupSetStarted, ArchiveRestoreHoldAcquired,
    ArchiveSealingStarted, ArchiveSealed, ManagedBackupDeletionPrepared, PreparedArchiveKeyErasure,
    ArchiveKeyErasedEvent, ManagedBackupDeleted})"

definition same_sections :: "witness_state \<Rightarrow> witness_state \<Rightarrow> bool"
  where "same_sections st st' \<longleftrightarrow> st\<lparr>ws_backup_archive_state := archive_empty\<rparr> = st'\<lparr>ws_backup_archive_state := archive_empty\<rparr>"

fun archive_entries_keep :: "witness_state \<Rightarrow> signed_journal_entry list \<Rightarrow> bool"
  where
    "archive_entries_keep st [] = True"
  | "archive_entries_keep st (e # es) =
       ((archive_event (je_event_kind e) \<longrightarrow> same_sections st (je_state e)) \<and> archive_entries_keep (je_state e) es)"

lemma same_sections_iff:
  "same_sections st st' \<longleftrightarrow> ws_generation_lineage_state st' = ws_generation_lineage_state st \<and>
     ws_target_activation_plan st' = ws_target_activation_plan st \<and>
     ws_restore_attempt_progress st' = ws_restore_attempt_progress st \<and>
     ws_target_activation_started st' = ws_target_activation_started st"
  by (cases st, cases st') (auto simp: same_sections_def)

lemma accept_generation_D:
  assumes "accept_generation sha head e = Ok u"
  shows "unat (je_activation_epoch e) = Suc (unat (wh_activation_epoch head)) \<and>
    je_generation_id e \<noteq> wh_active_generation_id head \<and>
    je_state e = (wh_state head)\<lparr>ws_generation_lineage_state :=
      ws_generation_lineage_state (wh_state head) @ uuid_bytes (je_generation_id e)\<rparr> \<and>
    (\<forall>plan. ws_target_activation_plan (wh_state head) = Some plan \<longrightarrow>
       je_generation_id e = tp_target_generation_id plan \<and>
       ws_target_activation_started (wh_state head) = Some (plan_digest sha plan) \<and>
       (\<exists>r. witness_terminal_receipt (wh_state head) = Some r \<and> completes_plan r plan))"
  using assms
  by (auto simp: accept_generation_def register_generation_def Let_def and_then_Ok_iff ok_or_Ok_iff
      checked_add_Some_iff split: if_splits option.splits)

definition generations :: "signed_journal_entry list \<Rightarrow> uuid list"
  where "generations es = map je_generation_id (filter (\<lambda>e. je_event_kind e = GenerationRegistered) es)"

lemma exact_event_lineage:
  assumes "exact_event_successor sha k head e" "archive_event k \<longrightarrow> same_sections (wh_state head) (je_state e)"
  shows "ws_generation_lineage_state (je_state e) = ws_generation_lineage_state (wh_state head)"
  using assms by (cases k) (auto simp: archive_event_def same_sections_iff is_exact_target_activation_plan_successor_of_def
      is_exact_restore_terminal_successor_of_def is_exact_restore_attempt_prepared_successor_of_def
      is_exact_source_freeze_successor_of_def is_exact_target_activating_successor_of_def)

lemma head_step_lineage:
  assumes step: "head_step sha sg h e = Ok h'"
    and keep: "archive_event (je_event_kind e) \<longrightarrow> same_sections (wh_state h) (je_state e)"
  shows "ws_generation_lineage_state (wh_state h') =
      ws_generation_lineage_state (wh_state h) @ concat (map uuid_bytes (generations [e])) \<and>
    wh_active_generation_id h' = last (wh_active_generation_id h # generations [e]) \<and>
    unat (wh_activation_epoch h') = unat (wh_activation_epoch h) + length (generations [e])"
proof (cases "je_event_kind e = GenerationRegistered")
  case True
  then show ?thesis
    using step accept_generation_D [of sha h e "()"]
    by (auto simp: head_step_Ok_iff accept_signed_Ok_iff head_after_def generations_def)
next
  case False
  then show ?thesis
    using step exact_event_lineage [OF _ keep]
    by (auto simp: head_step_Ok_iff accept_signed_Ok_iff head_after_def generations_def)
qed

lemma generations_Cons: "generations (e # es) = generations [e] @ generations es"
  by (simp add: generations_def)

lemma last_last: "last (last (a # xs) # ys) = last (a # xs @ ys)"
  by (cases ys) auto

lemma history_lineage:
  assumes "try_fold (head_step sha sg) h es = Ok h'" "archive_entries_keep (wh_state h) es"
  shows "ws_generation_lineage_state (wh_state h') =
      ws_generation_lineage_state (wh_state h) @ concat (map uuid_bytes (generations es)) \<and>
    wh_active_generation_id h' = last (wh_active_generation_id h # generations es) \<and>
    unat (wh_activation_epoch h') = unat (wh_activation_epoch h) + length (generations es)"
  using assms
proof (induction es arbitrary: h)
  case Nil
  then show ?case by (simp add: generations_def)
next
  case (Cons e es)
  obtain h1 where h1: "head_step sha sg h e = Ok h1" "try_fold (head_step sha sg) h1 es = Ok h'"
    using Cons.prems(1) by (auto simp: and_then_Ok_iff)
  have state: "wh_state h1 = je_state e"
    using head_step_linked [OF h1(1)] by simp
  have keep: "archive_event (je_event_kind e) \<longrightarrow> same_sections (wh_state h) (je_state e)"
    using Cons.prems(2) by simp
  have IH: "ws_generation_lineage_state (wh_state h') =
      ws_generation_lineage_state (wh_state h1) @ concat (map uuid_bytes (generations es))"
    "wh_active_generation_id h' = last (wh_active_generation_id h1 # generations es)"
    "unat (wh_activation_epoch h') = unat (wh_activation_epoch h1) + length (generations es)"
    using Cons.IH [OF h1(2)] Cons.prems(2) state by simp_all
  show ?case
    using IH head_step_lineage [OF h1(1) keep] generations_Cons [of e es]
      last_last [of "wh_active_generation_id h" "generations [e]" "generations es"] by simp
qed

text \<open>The restore sections only ever gain: a plan, an attempt with its freeze and receipt, a marker.\<close>

definition attempt_advances :: "restore_attempt_progress \<Rightarrow> restore_attempt_progress \<Rightarrow> bool"
  where "attempt_advances p q \<longleftrightarrow> attempt_ids q = attempt_ids p \<and>
    (rp_source_freeze p \<noteq> None \<longrightarrow> rp_source_freeze q = rp_source_freeze p) \<and>
    (rp_terminal_receipt p \<noteq> None \<longrightarrow> rp_terminal_receipt q = rp_terminal_receipt p)"

definition restore_advances :: "witness_state \<Rightarrow> witness_state \<Rightarrow> bool"
  where "restore_advances st st' \<longleftrightarrow>
    (\<forall>plan. ws_target_activation_plan st = Some plan \<longrightarrow> ws_target_activation_plan st' = Some plan) \<and>
    (\<forall>d. ws_target_activation_started st = Some d \<longrightarrow> ws_target_activation_started st' = Some d) \<and>
    (\<forall>p. ws_restore_attempt_progress st = Some p \<longrightarrow>
       (\<exists>q. ws_restore_attempt_progress st' = Some q \<and> attempt_advances p q))"

lemma attempt_advances_refl [simp]: "attempt_advances p p"
  by (simp add: attempt_advances_def)

lemma attempt_advances_trans: "attempt_advances p q \<Longrightarrow> attempt_advances q r \<Longrightarrow> attempt_advances p r"
  by (auto simp: attempt_advances_def)

lemma restore_advances_refl: "restore_advances st st"
  by (simp add: restore_advances_def)

lemma restore_advances_trans:
  assumes a: "restore_advances r s" and b: "restore_advances s t"
  shows "restore_advances r t"
proof -
  have "\<exists>q. ws_restore_attempt_progress t = Some q \<and> attempt_advances p q"
    if "ws_restore_attempt_progress r = Some p" for p
    using a b that attempt_advances_trans unfolding restore_advances_def by blast
  then show ?thesis
    using a b unfolding restore_advances_def by simp
qed

lemma same_sections_advance: "same_sections st st' \<Longrightarrow> restore_advances st st'"
  by (simp add: same_sections_iff restore_advances_def)

lemma exact_event_advances:
  assumes "exact_event_successor sha k head e" "archive_event k \<longrightarrow> same_sections (wh_state head) (je_state e)"
  shows "restore_advances (wh_state head) (je_state e)"
proof (cases "archive_event k")
  case True
  then show ?thesis
    using assms(2) same_sections_advance by simp
next
  case False
  then show ?thesis
    using assms(1)
    by (cases k) (auto simp: archive_event_def restore_advances_def attempt_advances_def attempt_ids_def
        is_exact_target_activation_plan_successor_of_def is_exact_restore_terminal_successor_of_def
        is_exact_restore_attempt_prepared_successor_of_def is_exact_source_freeze_successor_of_def
        is_exact_target_activating_successor_of_def record_freeze_Ok_iff record_receipt_Ok_iff
        split: option.splits)
qed

lemma head_step_advances:
  assumes step: "head_step sha sg h e = Ok h'"
    and keep: "archive_event (je_event_kind e) \<longrightarrow> same_sections (wh_state h) (je_state e)"
  shows "restore_advances (wh_state h) (wh_state h')"
proof (cases "je_event_kind e = GenerationRegistered")
  case True
  then have "je_state e = (wh_state h)\<lparr>ws_generation_lineage_state :=
      ws_generation_lineage_state (wh_state h) @ uuid_bytes (je_generation_id e)\<rparr>"
    using step accept_generation_D [of sha h e "()"] by (auto simp: head_step_Ok_iff accept_signed_Ok_iff)
  then show ?thesis
    using head_step_linked [OF step] by (simp add: restore_advances_def)
next
  case False
  then show ?thesis
    using step exact_event_advances [OF _ keep] head_step_linked [OF step]
    by (auto simp: head_step_Ok_iff accept_signed_Ok_iff)
qed

lemma history_advances:
  assumes "try_fold (head_step sha sg) h es = Ok h'" "archive_entries_keep (wh_state h) es"
  shows "restore_advances (wh_state h) (wh_state h')"
  using assms
proof (induction es arbitrary: h)
  case Nil
  then show ?case by (simp add: restore_advances_refl)
next
  case (Cons e es)
  obtain h1 where h1: "head_step sha sg h e = Ok h1" "try_fold (head_step sha sg) h1 es = Ok h'"
    using Cons.prems(1) by (auto simp: and_then_Ok_iff)
  then show ?case
    using Cons.IH [OF h1(2)] Cons.prems(2) head_step_advances [OF h1(1)] head_step_linked [OF h1(1)]
      restore_advances_trans by auto
qed

lemma blocked_step:
  assumes plan: "ws_target_activation_plan (wh_state h) = Some plan"
    and receipt: "witness_terminal_receipt (wh_state h) = Some r" "\<not> completes_plan r plan"
    and step: "head_step sha sg h e = Ok h'"
  shows "je_event_kind e \<noteq> GenerationRegistered"
proof
  assume "je_event_kind e = GenerationRegistered"
  then have "accept_generation sha h e = Ok ()"
    using step by (auto simp: head_step_Ok_iff accept_signed_Ok_iff)
  then show False
    using accept_generation_D [of sha h e "()"] plan receipt by auto
qed

lemma blocked_stays:
  assumes "restore_advances st st'" "ws_target_activation_plan st = Some plan" "witness_terminal_receipt st = Some r"
  shows "ws_target_activation_plan st' = Some plan \<and> witness_terminal_receipt st' = Some r"
  using assms
  by (cases "ws_restore_attempt_progress st") (auto simp: restore_advances_def witness_terminal_receipt_def attempt_advances_def)

section \<open>Properties\<close>

definition sample_signatures :: "signature \<Rightarrow> unit signatures"
  where "sample_signatures s0 =
    \<lparr> sg_public_key = (\<lambda>_. 5), sg_sign = (\<lambda>_ _. s0), sg_verify = (\<lambda>k _ s. k = 5 \<and> s = s0) \<rparr>"

lemma sample_signatures_verify: "signatures_verify (sample_signatures s)"
  by (simp add: signatures_verify_def sample_signatures_def)

definition genesis_sha :: "byte list \<Rightarrow> digest"
  where "genesis_sha bs = (if bs = genesis_bytes then 1 else 2)"

definition sample_head :: witness_head
  where "sample_head = witness_head_genesis genesis_sha 1 2 3 4 5"

definition sample_entry :: "signature \<Rightarrow> signed_journal_entry"
  where "sample_entry s = \<lparr> je_installation_id = 1, je_fingerprint_key_id = 2, je_continuity_proof = 3, je_request_id = 8,
    je_sequence = 1, je_previous_digest = 1, je_event_kind = GenerationRegistered, je_generation_id = 9,
    je_activation_epoch = 1,
    je_state = (witness_state_genesis 4)\<lparr>ws_generation_lineage_state := uuid_bytes 4 @ uuid_bytes 9\<rparr>,
    je_signer_public_key = 5, je_signature = s \<rparr>"

lemma sample_head_step: "head_step genesis_sha (sample_signatures s) sample_head (sample_entry s) =
    Ok (head_after genesis_sha sample_head (sample_entry s))"
proof -
  have "uuid_bytes 4 \<noteq> uuid_bytes 9"
    using uuid_codec.encode_inj [of "4 :: uuid" "9 :: uuid"] by simp
  then show ?thesis
    by (simp add: head_step_def accept_signed_def entry_verify_def sample_signatures_def sample_head_def
        witness_head_genesis_def sample_entry_def genesis_sha_def accept_generation_def register_generation_def
        witness_state_genesis_def checked_add_def Let_def)
qed

lemma sample_history: "try_fold (head_step genesis_sha (sample_signatures s)) sample_head [sample_entry s] =
    Ok (head_after genesis_sha sample_head (sample_entry s))"
  by (simp add: sample_head_step)

text \<open>
  C15: a witness head fixes the journal.  Two journals accepted from genesis heads, under whatever
  keys, that end in the same chain digest consist of the same entries, byte for byte and in the same
  order, unless the hash collides on them: no entry can be changed, dropped, added or reordered below
  a head.
\<close>

theorem journal_digest_fixes_history:
  assumes "try_fold (head_step sha sg) (witness_head_genesis sha i f c g k) es = Ok h"
    and "try_fold (head_step sha sg') (witness_head_genesis sha i' f' c' g' k') es' = Ok h'"
    and "wh_chain_digest h = wh_chain_digest h'"
    and "inj_on sha ({genesis_bytes} \<union> entry_canonical_bytes ` set es \<union> entry_canonical_bytes ` set es')"
  shows "map entry_canonical_bytes es = map entry_canonical_bytes es'"
  by (rule chains_agree [OF assms(1,2) _ _ assms(3,4)]) (simp_all add: witness_head_genesis_def)

theorem journal_digest_fixes_history_witness:
  "map entry_canonical_bytes [sample_entry 6] = map entry_canonical_bytes [sample_entry 7]"
  by (rule journal_digest_fixes_history [OF sample_history [unfolded sample_head_def] sample_history [unfolded sample_head_def]])
    (use entry_bytes_not_genesis in \<open>auto simp: genesis_sha_def inj_on_def head_after_def entry_digest_def
      entry_canonical_bytes_def sample_entry_def\<close>)

text \<open>
  C33: the lineage is the history of generations.  Along any accepted journal from a genesis head
  in which archive entries leave the other sections of the state alone, the lineage is the first
  generation followed by every registered one, in order; the active generation is the last of them and
  the activation epoch counts the registrations.
\<close>

theorem generation_lineage_is_history:
  assumes "try_fold (head_step sha sg) (witness_head_genesis sha i f c g k) es = Ok h"
    and "archive_entries_keep (witness_state_genesis g) es"
  shows "ws_generation_lineage_state (wh_state h) = concat (map uuid_bytes (g # generations es)) \<and>
    wh_active_generation_id h = last (g # generations es) \<and>
    unat (wh_activation_epoch h) = length (generations es)"
  using history_lineage [OF assms(1)] assms(2) by (simp add: witness_head_genesis_def witness_state_genesis_def)

theorem generation_lineage_is_history_witness:
  "ws_generation_lineage_state (je_state (sample_entry 6)) = uuid_bytes 4 @ uuid_bytes 9"
  using generation_lineage_is_history [OF sample_history [unfolded sample_head_def]]
  by (simp add: sample_entry_def archive_event_def generations_def head_after_def)

text \<open>
  An installation restores once.  Along an accepted journal whose archive entries keep the
  other sections, a pinned activation plan, an activation marker and a prepared restore attempt are
  never replaced or withdrawn; the attempt keeps its identifiers, its freeze point and its receipt.
\<close>

theorem restore_sections_only_gain:
  assumes "try_fold (head_step sha sg) h es = Ok h'" "archive_entries_keep (wh_state h) es"
  shows "restore_advances (wh_state h) (wh_state h')"
  by (rule history_advances [OF assms])

theorem restore_sections_only_gain_witness:
  "restore_advances (wh_state sample_head) (wh_state (head_after genesis_sha sample_head (sample_entry 6)))"
  by (rule restore_sections_only_gain [OF sample_history]) (simp add: sample_entry_def archive_event_def)

text \<open>
  C35: a restore that did not complete stops registration.  Once a plan is pinned and its attempt
  ended with a receipt that does not report the plan's target as initialised, no journal accepted from
  then on (its archive entries keeping the other sections) registers a generation: the installation
  stays on the generation and epoch it has.
\<close>

theorem incomplete_restore_blocks_generations:
  assumes "try_fold (head_step sha sg) h es = Ok h'" "archive_entries_keep (wh_state h) es"
    and "ws_target_activation_plan (wh_state h) = Some plan" "witness_terminal_receipt (wh_state h) = Some r"
    and "\<not> completes_plan r plan"
  shows "generations es = [] \<and> wh_active_generation_id h' = wh_active_generation_id h \<and>
    wh_activation_epoch h' = wh_activation_epoch h"
proof -
  have "generations es = []"
    using assms
  proof (induction es arbitrary: h)
    case Nil
    then show ?case by (simp add: generations_def)
  next
    case (Cons e es)
    obtain h1 where h1: "head_step sha sg h e = Ok h1" "try_fold (head_step sha sg) h1 es = Ok h'"
      using Cons.prems(1) by (auto simp: and_then_Ok_iff)
    have adv: "restore_advances (wh_state h) (wh_state h1)"
      using head_step_advances [OF h1(1)] Cons.prems(2) by simp
    have "generations es = []"
      using Cons.IH [OF h1(2)] Cons.prems(2,5) blocked_stays [OF adv Cons.prems(3,4)] head_step_linked [OF h1(1)] by simp
    moreover have "je_event_kind e \<noteq> GenerationRegistered"
      by (rule blocked_step [OF Cons.prems(3-5) h1(1)])
    ultimately show ?case
      by (simp add: generations_def)
  qed
  then show ?thesis
    using history_lineage [OF assms(1,2)] by (simp add: word_unat_eq_iff)
qed

definition blocked_head :: witness_head
  where "blocked_head = sample_head\<lparr>wh_state := (witness_state_genesis 4)\<lparr>ws_target_activation_plan := Some sample_plan,
    ws_restore_attempt_progress := Some (sample_progress\<lparr>rp_source_freeze := Some sample_freeze,
      rp_terminal_receipt := Some \<lparr> rt_attempt_id = 1, rt_target_id = 2, rt_release_reason = SourceResumePrepared 0 \<rparr>\<rparr>)\<rparr>\<rparr>"

definition idle_entry :: signed_journal_entry
  where "idle_entry = (sample_entry 6)\<lparr>je_event_kind := InstallationInitialized, je_generation_id := 4,
    je_activation_epoch := 0, je_state := wh_state blocked_head\<rparr>"

theorem incomplete_restore_blocks_generations_witness: "generations [idle_entry] = []"
proof -
  have "try_fold (head_step genesis_sha (sample_signatures 6)) blocked_head [idle_entry] =
      Ok (head_after genesis_sha blocked_head idle_entry)"
    by (simp add: head_step_def accept_signed_def entry_verify_def sample_signatures_def idle_entry_def sample_entry_def
        blocked_head_def sample_head_def witness_head_genesis_def genesis_sha_def checked_add_def)
  then show ?thesis
    using incomplete_restore_blocks_generations [of genesis_sha "sample_signatures 6" blocked_head "[idle_entry]"
        "head_after genesis_sha blocked_head idle_entry" sample_plan
        "\<lparr> rt_attempt_id = 1, rt_target_id = 2, rt_release_reason = SourceResumePrepared 0 \<rparr>"]
    by (simp add: idle_entry_def archive_event_def blocked_head_def witness_terminal_receipt_def completes_plan_def)
qed


definition sample_binding :: safety_bootstrap_binding
  where "sample_binding = \<lparr> sb_installation_id = 1, sb_fingerprint_key_id = 2, sb_continuity_proof = 3,
    sb_journal_public_key = 5, sb_witness_public_key = 5 \<rparr>"

text \<open>
  C36: a signed entry survives storage.  An entry signed with a key whose signatures verify, whose
  state is well formed and fits the format, is read back from its canonical bytes and its signature
  as it was.
\<close>

theorem signed_entry_roundtrip:
  assumes "signatures_verify sg" "witness_state_ok sha (je_state input)"
    and "length (witness_state_bytes (je_state input)) < 2 ^ 64"
  shows "entry_from_bytes sha sg (entry_canonical_bytes (entry_sign sg signer input))
      (je_signature (entry_sign sg signer input)) = Ok (entry_sign sg signer input)"
  by (rule entry_roundtrip)
    (use assms in \<open>simp_all add: entry_sign_def Let_def entry_verify_def signatures_verify_def entry_canonical_bytes_def\<close>)

lemma sample_state_ok:
  "witness_state_ok sha (je_state (sample_entry s))" "length (witness_state_bytes (je_state (sample_entry s))) < 2 ^ 64"
proof -
  have archive: "archive_storable archive_empty" "length (archive_canonical_bytes archive_empty) = 9"
    by (simp_all add: archive_storable_def archive_empty_def archive_canonical_bytes_def)
  show "witness_state_ok sha (je_state (sample_entry s))"
    by (simp add: sample_entry_def witness_state_ok_def witness_state_genesis_def archive_empty_ok archive)
  show "length (witness_state_bytes (je_state (sample_entry s))) < 2 ^ 64"
    by (simp add: sample_entry_def witness_state_bytes_def witness_state_genesis_def optional_field_def archive)
qed

theorem signed_entry_roundtrip_witness:
  "entry_from_bytes genesis_sha (sample_signatures 6) (entry_canonical_bytes (entry_sign (sample_signatures 6) () (sample_entry 6)))
     (je_signature (entry_sign (sample_signatures 6) () (sample_entry 6))) =
   Ok (entry_sign (sample_signatures 6) () (sample_entry 6))"
  by (rule signed_entry_roundtrip [OF sample_signatures_verify]) (rule sample_state_ok)+

text \<open>
  C34: an archive event can rewrite everything else.  The comment at \<^verbatim>\<open>register_generation\<close> says
  that a caller cannot rewrite or truncate existing ancestry, and the kinds of events have separate
  rules, but for an archive event only the archives are compared: with a
  working journal key, from a genesis head, one \<^verbatim>\<open>BackupSetStarted\<close> entry is accepted that replaces the
  lineage, the activation plan, the restore attempt and the activation marker by arbitrary ones.
\<close>

theorem archive_event_rewrites_sections:
  assumes "signatures_verify sg"
  shows "\<exists>e h'. je_event_kind e = BackupSetStarted \<and>
    head_step sha sg (witness_head_genesis sha i f c g (sg_public_key sg signer)) e = Ok h' \<and>
    ws_generation_lineage_state (wh_state h') = lineage \<and> ws_target_activation_plan (wh_state h') = plan \<and>
    ws_restore_attempt_progress (wh_state h') = progress \<and> ws_target_activation_started (wh_state h') = started"
proof (intro exI conjI)
  let ?head = "witness_head_genesis sha i f c g (sg_public_key sg signer)"
  let ?st = "\<lparr> ws_generation_lineage_state = lineage, ws_backup_archive_state = \<lparr> ba_sets = [(7, fresh_set)] \<rparr>,
    ws_target_activation_plan = plan, ws_restore_attempt_progress = progress, ws_target_activation_started = started \<rparr>"
  let ?e = "entry_sign sg signer \<lparr> je_installation_id = i, je_fingerprint_key_id = f, je_continuity_proof = c, je_request_id = 8,
    je_sequence = 1, je_previous_digest = sha genesis_bytes, je_event_kind = BackupSetStarted, je_generation_id = g,
    je_activation_epoch = 0, je_state = ?st, je_signer_public_key = 0, je_signature = 0 \<rparr>"
  show "je_event_kind ?e = BackupSetStarted"
    by (simp add: entry_sign_def Let_def)
  have "is_exact_started_successor_of \<lparr> ba_sets = [(7, fresh_set)] \<rparr> archive_empty"
    by (simp add: is_exact_started_successor_of_def archive_empty_def fresh_set_def archive_head_genesis_def)
  then show "head_step sha sg ?head ?e = Ok (head_after sha ?head ?e)"
    using assms by (simp add: head_step_def accept_signed_def entry_verify_def entry_sign_def Let_def witness_head_genesis_def
        signatures_verify_def checked_add_def witness_state_genesis_def entry_canonical_bytes_def)
  show "ws_generation_lineage_state (wh_state (head_after sha ?head ?e)) = lineage"
    "ws_target_activation_plan (wh_state (head_after sha ?head ?e)) = plan"
    "ws_restore_attempt_progress (wh_state (head_after sha ?head ?e)) = progress"
    "ws_target_activation_started (wh_state (head_after sha ?head ?e)) = started"
    by (simp_all add: head_after_def entry_sign_def Let_def)
qed

theorem archive_event_rewrites_sections_witness:
  "\<exists>e h'. je_event_kind e = BackupSetStarted \<and> head_step genesis_sha (sample_signatures 6) sample_head e = Ok h' \<and>
     ws_generation_lineage_state (wh_state h') = []"
proof -
  have "sg_public_key (sample_signatures 6) () = 5"
    by (simp add: sample_signatures_def)
  then show ?thesis
    using archive_event_rewrites_sections [where sha = genesis_sha and i = 1 and f = 2
        and c = 3 and g = 4 and signer = "()" and lineage = "[]" and sg = "sample_signatures 6"]
      sample_signatures_verify [of 6]
    unfolding sample_head_def by metis
qed

section \<open>The bootstrap record\<close>

text \<open>Opening again and again, with whatever bindings and faults.\<close>

fun bootstrap_run ::
    "(byte list \<Rightarrow> digest) \<Rightarrow> byte list option \<Rightarrow> (bootstrap_fault \<times> safety_bootstrap_binding) list
     \<Rightarrow> (safety_bootstrap_error, digest) result list \<times> byte list option"
  where
    "bootstrap_run sha stored [] = ([], stored)"
  | "bootstrap_run sha stored ((fault, b) # rest) =
       (let (r, stored) = bootstrap_open_or_create sha fault stored b; (rs, stored) = bootstrap_run sha stored rest
        in (r # rs, stored))"

lemma bootstrap_keeps: "bootstrap_open_or_create sha fault (Some bytes) b = (r, stored) \<Longrightarrow>
    stored = Some bytes \<and> (is_ok r \<longrightarrow> bytes = binding_canonical_bytes b)"
  by (auto simp: bootstrap_open_or_create_def Let_def split: if_splits)

lemma bootstrap_creates: "bootstrap_open_or_create sha fault None b = (r, stored) \<Longrightarrow>
    is_ok r \<Longrightarrow> stored = Some (binding_canonical_bytes b)"
  by (auto simp: bootstrap_open_or_create_def Let_def split: if_splits bootstrap_fault.splits)

lemma bootstrap_run_stored:
  assumes "bootstrap_run sha (Some bytes) calls = (rs, stored)"
  shows "stored = Some bytes \<and> (\<forall>n < length calls. is_ok (rs ! n) \<longrightarrow> bytes = binding_canonical_bytes (snd (calls ! n)))"
  using assms
proof (induction calls arbitrary: rs stored)
  case Nil
  then show ?case by simp
next
  case (Cons c calls)
  obtain fault b where c: "c = (fault, b)" by force
  obtain r s1 where one: "bootstrap_open_or_create sha fault (Some bytes) b = (r, s1)" by force
  have s1: "s1 = Some bytes" "is_ok r \<longrightarrow> bytes = binding_canonical_bytes b"
    using bootstrap_keeps [OF one] by simp_all
  obtain rs' where rest: "bootstrap_run sha (Some bytes) calls = (rs', stored)" and rs: "rs = r # rs'"
    using Cons.prems c one s1(1) by (auto simp: Let_def split: prod.splits)
  show ?case
    using Cons.IH [OF rest] s1(2) c rs by (auto simp: nth_Cons split: nat.split)
qed


lemma binding_bytes_inj: "binding_canonical_bytes a = binding_canonical_bytes b \<Longrightarrow> a = b"
  using binding_from_Ok_iff by (metis sum.inject(2))

text \<open>
  C37: the first enrolment wins for good.  However often the bootstrap record is opened, with
  whatever bindings and whichever file operation fails in between, all openings that succeed were
  given one and the same binding, and its bytes are what the record holds in the end.
\<close>

theorem bootstrap_binds_once:
  assumes "bootstrap_run sha None calls = (rs, stored)" "m < length calls" "n < length calls"
    and "is_ok (rs ! m)" "is_ok (rs ! n)"
  shows "snd (calls ! m) = snd (calls ! n) \<and> stored = Some (binding_canonical_bytes (snd (calls ! m)))"
  using assms
proof (induction calls arbitrary: rs m n)
  case Nil
  then show ?case by simp
next
  case (Cons c calls)
  obtain fault b where c: "c = (fault, b)" by force
  obtain r s1 where one: "bootstrap_open_or_create sha fault None b = (r, s1)" by force
  obtain rs' where rest: "bootstrap_run sha s1 calls = (rs', stored)" and rs: "rs = r # rs'"
    using Cons.prems(1) c one by (auto simp: Let_def split: prod.splits)
  show ?case
  proof (cases s1)
    case None
    then have bad: "\<not> is_ok r"
      using bootstrap_creates [OF one] by auto
    obtain m' n' where mn: "m = Suc m'" "n = Suc n'"
      using bad Cons.prems(4,5) rs by (cases m; cases n) auto
    show ?thesis
      using Cons.IH [OF rest [unfolded None], of m' n'] Cons.prems(2-5) rs mn by simp
  next
    case (Some bytes)
    have first: "is_ok r \<Longrightarrow> bytes = binding_canonical_bytes b"
      using bootstrap_creates [OF one] Some by simp
    have all: "bytes = binding_canonical_bytes (snd ((c # calls) ! l))" if "l < length (c # calls)" "is_ok (rs ! l)" for l
      using that first bootstrap_run_stored [OF rest [unfolded Some]] c rs by (cases l) auto
    show ?thesis
      using all [OF Cons.prems(2,4)] all [OF Cons.prems(3,5)] bootstrap_run_stored [OF rest [unfolded Some]]
        binding_bytes_inj by metis
  qed
qed

theorem bootstrap_binds_once_witness:
  "snd (bootstrap_run genesis_sha None [(No_Fault, sample_binding), (Read_Fails, sample_binding), (No_Fault, sample_binding)]) =
     Some (binding_canonical_bytes sample_binding)"
proof -
  let ?calls = "[(No_Fault, sample_binding), (Read_Fails, sample_binding), (No_Fault, sample_binding)]"
    and ?ok = "Ok (genesis_sha (binding_canonical_bytes sample_binding))"
  have run: "bootstrap_run genesis_sha None ?calls =
      ([?ok, Err Bootstrap_Unavailable, ?ok], Some (binding_canonical_bytes sample_binding))"
    by (simp add: bootstrap_open_or_create_def Let_def)
  have "snd (?calls ! 0) = snd (?calls ! 2) \<and>
      Some (binding_canonical_bytes sample_binding) = Some (binding_canonical_bytes (snd (?calls ! 0)))"
    by (rule bootstrap_binds_once [OF run]) simp_all
  then show ?thesis
    by (simp only: run snd_conv)
qed

end
