(* ===== verification/Witness_File.thy ===== *)
theory Witness_File
  imports Installation_Safety
begin

text \<open>
  The durable witness (\<^verbatim>\<open>vestrace-infrastructure/src/safety/witness_file.rs\<close>): a head kept in memory
  and a record file that holds the bootstrap binding with either the genesis generation or the last
  signed receipt, in a fixed CBOR array.  The file is the bytes stored under its name; where the file
  system fails is an argument.  Texts of \<^verbatim>\<open>Unavailable\<close> errors are left out.
\<close>

datatype witness_error = Conflict | Invalid installation_safety_error | Witness_Unavailable

section \<open>The record\<close>

definition witness_record_domain :: "byte list"
  where "witness_record_domain = ascii ''vestrace-installation-safety-witness-v1''"

record stored_witness_record =
  sw_binding :: safety_bootstrap_binding
  sw_genesis_generation :: "uuid option"
  sw_receipt :: "witness_receipt option"

text \<open>
  Lengths are cast to the width of their prefix, so only their low bytes are written.  The first
  prefix is \<^verbatim>\<open>0x40 | len\<close>, a sum because the length stays below 24.
\<close>

definition cbor_bytes :: "byte list \<Rightarrow> byte list"
  where "cbor_bytes bs =
    (if length bs \<le> 23 then [0x40 + word_of_nat (length bs)]
     else if length bs \<le> 255 then [0x58, word_of_nat (length bs)]
     else if length bs \<le> 65535 then 0x59 # be_bytes 2 (length bs)
     else 0x5a # be_bytes 4 (length bs)) @ bs"

definition signature_bytes :: "signature \<Rightarrow> byte list"
  where "signature_bytes s = be_bytes 64 (unat s)"

definition encode_record :: "stored_witness_record \<Rightarrow> (witness_error failure, byte list) result"
  where "encode_record w =
    and_then
      (case sw_receipt w of
         Some r \<Rightarrow> Ok ([], witness_receipt_bytes r, signature_bytes (wr_signature r))
       | None \<Rightarrow> (case sw_genesis_generation w of None \<Rightarrow> Err Panics | Some g \<Rightarrow> Ok (uuid_bytes g, [], [])))
    (\<lambda>(generation, receipt, sig).
    Ok (0x85 # cbor_bytes witness_record_domain @ cbor_bytes (binding_canonical_bytes (sw_binding w))
        @ cbor_bytes generation @ cbor_bytes receipt @ cbor_bytes sig))"

definition read_cbor :: "decoder \<Rightarrow> (witness_error, byte list \<times> decoder) result"
  where "read_cbor d =
    and_then (read_u8 Witness_Unavailable d) (\<lambda>(initial, d).
    and_then
      (if 0x40 \<le> initial \<and> initial \<le> 0x57 then Ok (unat initial - 0x40, d)
       else if initial = 0x58 then and_then (read_u8 Witness_Unavailable d) (\<lambda>(n, d). Ok (unat n, d))
       else if initial = 0x59 then
         and_then (take_bytes Witness_Unavailable d 2) (\<lambda>(bs, d). Ok (be_value bs, d))
       else if initial = 0x5a then
         and_then (take_bytes Witness_Unavailable d 4) (\<lambda>(bs, d). Ok (be_value bs, d))
       else Err Witness_Unavailable) (\<lambda>(n, d).
    take_bytes Witness_Unavailable d n))"

text \<open>Any error of a decoder called on the way is turned into \<^verbatim>\<open>Unavailable\<close>; a panic is not.\<close>

definition or_unavailable :: "('e failure, 'a) result \<Rightarrow> (witness_error failure, 'a) result"
  where "or_unavailable = map_err (\<lambda>e. case e of Panics \<Rightarrow> Panics | Fails _ \<Rightarrow> Fails Witness_Unavailable)"

definition decode_record ::
    "(byte list \<Rightarrow> digest) \<Rightarrow> 'k signatures \<Rightarrow> byte list \<Rightarrow> (witness_error failure, stored_witness_record) result"
  where "decode_record sha sg bytes =
    and_then (map_err Fails (
      and_then (read_u8 Witness_Unavailable (decoder_new bytes)) (\<lambda>(b, d).
      if b \<noteq> 0x85 then Err Witness_Unavailable
      else
        and_then (read_cbor d) (\<lambda>(domain, d).
        if domain \<noteq> witness_record_domain then Err Witness_Unavailable
        else
          and_then (read_cbor d) (\<lambda>(binding_bytes, d).
          and_then (map_err (\<lambda>_. Witness_Unavailable) (binding_from_canonical_bytes binding_bytes)) (\<lambda>binding.
          and_then (read_cbor d) (\<lambda>(generation, d).
          and_then (read_cbor d) (\<lambda>(payload, d).
          and_then (read_cbor d) (\<lambda>(sig, d).
          and_then (finish_decoder Witness_Unavailable d) (\<lambda>_. Ok (binding, generation, payload, sig))))))))))
    ) (\<lambda>(binding, generation, payload, sig).
    if length generation = 16 \<and> payload = [] \<and> sig = [] then
      Ok \<lparr> sw_binding = binding, sw_genesis_generation = Some (word_of_nat (be_value generation)), sw_receipt = None \<rparr>
    else if generation = [] then
      (if length sig \<noteq> 64 then Err (Fails Witness_Unavailable)
       else
         and_then (or_unavailable (witness_receipt_from_bytes sha sg payload (word_of_nat (be_value sig)))) (\<lambda>r.
         Ok \<lparr> sw_binding = binding, sw_genesis_generation = None, sw_receipt = Some r \<rparr>))
    else Err (Fails Witness_Unavailable))"

section \<open>Opening and advancing\<close>

record 'k file_witness =
  fw_binding :: safety_bootstrap_binding
  fw_signing_key :: 'k
  fw_head :: witness_head

definition witness_open ::
    "(byte list \<Rightarrow> digest) \<Rightarrow> 'k signatures \<Rightarrow> 'k option \<Rightarrow> byte list option
     \<Rightarrow> (witness_error failure, 'k file_witness) result"
  where "witness_open sha sg key_file stored =
    and_then (ok_or (Fails Witness_Unavailable) key_file) (\<lambda>signing_key.
    and_then (ok_or (Fails Witness_Unavailable) stored) (\<lambda>bytes.
    and_then (decode_record sha sg bytes) (\<lambda>w.
    if sb_witness_public_key (sw_binding w) \<noteq> sg_public_key sg signing_key then Err (Fails Witness_Unavailable)
    else
      and_then
        (case sw_receipt w of
           Some r \<Rightarrow> or_unavailable (map_err Fails (from_durable_receipt sg (sw_binding w) r))
         | None \<Rightarrow>
             and_then (ok_or (Fails Witness_Unavailable) (sw_genesis_generation w)) (\<lambda>generation.
             Ok (witness_head_genesis sha (sb_installation_id (sw_binding w)) (sb_fingerprint_key_id (sw_binding w))
                   (sb_continuity_proof (sw_binding w)) generation (sb_journal_public_key (sw_binding w)))))
      (\<lambda>head. Ok \<lparr> fw_binding = sw_binding w, fw_signing_key = signing_key, fw_head = head \<rparr>))))"

definition write_initial_record ::
    "bootstrap_fault \<Rightarrow> byte list option \<Rightarrow> byte list \<Rightarrow> (witness_error failure, unit) result \<times> byte list option"
  where "write_initial_record fault stored bytes =
    (case stored of
       Some _ \<Rightarrow> (Err (Fails Witness_Unavailable), stored)
     | None \<Rightarrow>
         (case fault of
            Open_Fails \<Rightarrow> (Err (Fails Witness_Unavailable), None)
          | Write_Stops n \<Rightarrow> (Err (Fails Witness_Unavailable), Some (take n bytes))
          | Sync_Fails \<Rightarrow> (Err (Fails Witness_Unavailable), Some bytes)
          | Parent_Sync_Fails \<Rightarrow> (Err (Fails Witness_Unavailable), Some bytes)
          | _ \<Rightarrow> (Ok (), Some bytes)))"

definition witness_create ::
    "(byte list \<Rightarrow> digest) \<Rightarrow> 'k signatures \<Rightarrow> bootstrap_fault \<Rightarrow> 'k option \<Rightarrow> byte list option
     \<Rightarrow> safety_bootstrap_binding \<Rightarrow> uuid \<Rightarrow> (witness_error failure, 'k file_witness) result \<times> byte list option"
  where "witness_create sha sg fault key_file stored binding generation =
    (case key_file of
       None \<Rightarrow> (Err (Fails Witness_Unavailable), stored)
     | Some signing_key \<Rightarrow>
         if fault = Create_Dir_Fails \<or> sb_witness_public_key binding \<noteq> sg_public_key sg signing_key
         then (Err (Fails Witness_Unavailable), stored)
         else
           (case encode_record \<lparr> sw_binding = binding, sw_genesis_generation = Some generation, sw_receipt = None \<rparr> of
              Err e \<Rightarrow> (Err e, stored)
            | Ok bytes \<Rightarrow>
                let (r, stored) = write_initial_record fault stored bytes in
                (and_then r (\<lambda>_. Ok \<lparr> fw_binding = binding, fw_signing_key = signing_key,
                   fw_head = witness_head_genesis sha (sb_installation_id binding) (sb_fingerprint_key_id binding)
                     (sb_continuity_proof binding) generation (sb_journal_public_key binding) \<rparr>), stored)))"

definition witness_open_or_create ::
    "(byte list \<Rightarrow> digest) \<Rightarrow> 'k signatures \<Rightarrow> bootstrap_fault \<Rightarrow> 'k option \<Rightarrow> byte list option
     \<Rightarrow> safety_bootstrap_binding \<Rightarrow> uuid \<Rightarrow> (witness_error failure, 'k file_witness) result \<times> byte list option"
  where "witness_open_or_create sha sg fault key_file stored binding generation =
    (case witness_open sha sg key_file stored of
       Ok w \<Rightarrow>
         (if fw_binding w \<noteq> binding \<or> wh_active_generation_id (fw_head w) \<noteq> generation
          then Err (Fails Witness_Unavailable) else Ok w, stored)
     | Err (Fails Witness_Unavailable) \<Rightarrow>
         if stored = None then witness_create sha sg fault key_file stored binding generation
         else (Err (Fails Witness_Unavailable), stored)
     | Err e \<Rightarrow> (Err e, stored))"

text \<open>Replacing the record: a temporary file, an atomic rename, a sync of the directory.\<close>

datatype replace_fault = Replace_Works | Temporary_Fails | Rename_Fails | Directory_Sync_Fails

definition replace_record ::
    "replace_fault \<Rightarrow> byte list option \<Rightarrow> safety_bootstrap_binding \<Rightarrow> witness_receipt
     \<Rightarrow> (witness_error failure, unit) result \<times> byte list option"
  where "replace_record fault stored binding receipt =
    (case encode_record \<lparr> sw_binding = binding, sw_genesis_generation = None, sw_receipt = Some receipt \<rparr> of
       Err e \<Rightarrow> (Err e, stored)
     | Ok bytes \<Rightarrow>
         (case fault of
            Temporary_Fails \<Rightarrow> (Err (Fails Witness_Unavailable), stored)
          | Rename_Fails \<Rightarrow> (Err (Fails Witness_Unavailable), stored)
          | Directory_Sync_Fails \<Rightarrow> (Err (Fails Witness_Unavailable), Some bytes)
          | Replace_Works \<Rightarrow> (Ok (), Some bytes)))"

definition compare_and_advance ::
    "(byte list \<Rightarrow> digest) \<Rightarrow> 'k signatures \<Rightarrow> replace_fault \<Rightarrow> 'k file_witness \<Rightarrow> byte list option
     \<Rightarrow> witness_head \<Rightarrow> witness_advance
     \<Rightarrow> (witness_error failure, witness_receipt) result \<times> 'k file_witness \<times> byte list option"
  where "compare_and_advance sha sg fault w stored expected advance =
    (if fw_head w \<noteq> expected then (Err (Fails Conflict), w, stored)
     else
       case and_then (receipt_sign sha sg (fw_signing_key w) (fw_head w) advance) (\<lambda>receipt.
            and_then (from_durable_receipt sg (fw_binding w) receipt) (\<lambda>replacement. Ok (receipt, replacement))) of
         Err e \<Rightarrow> (Err (Fails (Invalid e)), w, stored)
       | Ok (receipt, replacement) \<Rightarrow>
           (case replace_record fault stored (fw_binding w) receipt of
              (Err e, stored) \<Rightarrow> (Err e, w, stored)
            | (Ok _, stored) \<Rightarrow> (Ok receipt, w\<lparr>fw_head := replacement\<rparr>, stored)))"

definition durable_receipt ::
    "(byte list \<Rightarrow> digest) \<Rightarrow> 'k signatures \<Rightarrow> 'k file_witness \<Rightarrow> byte list option
     \<Rightarrow> (witness_error failure, witness_receipt) result"
  where "durable_receipt sha sg w stored =
    and_then (ok_or (Fails Witness_Unavailable) stored) (\<lambda>bytes.
    and_then (decode_record sha sg bytes) (\<lambda>record.
    if sw_binding record \<noteq> fw_binding w then Err (Fails Witness_Unavailable)
    else ok_or (Fails Witness_Unavailable) (sw_receipt record)))"

section \<open>The record, proved\<close>

lemma small_byte: "n < 256 \<Longrightarrow> unat (word_of_nat n :: byte) = n"
  by (simp add: unat_byte)

lemma short_prefix:
  assumes "n \<le> 23"
  shows "unat (0x40 + word_of_nat n :: byte) = 64 + n"
proof -
  have "(0x40 + word_of_nat n :: byte) = word_of_nat (64 + n)"
    by simp
  then show ?thesis
    using assms small_byte [of "64 + n"] by (simp del: of_nat_add)
qed

lemma take_reading_more:
  "length ys = n \<Longrightarrow> take_bytes e (reading pre ys) n = Ok (ys, reading (pre @ ys) [])"
  using take_reading [of ys n e pre "[]"] by simp

lemma read_cbor_forward [codec_simps]:
  assumes "length bs < 2 ^ 32"
  shows "read_cbor (reading pre (cbor_bytes bs @ zs)) = Ok (bs, reading (pre @ cbor_bytes bs) zs)"
proof -
  consider (short) "length bs \<le> 23" | (one) "23 < length bs" "length bs \<le> 255"
    | (two) "255 < length bs" "length bs \<le> 65535" | (four) "65535 < length bs"
    by linarith
  then show ?thesis
  proof cases
    case short
    then have "(0x40 :: byte) \<le> 0x40 + word_of_nat (length bs)" "0x40 + word_of_nat (length bs) \<le> (0x57 :: byte)"
      using short_prefix [OF short] by (simp_all add: word_le_nat_alt)
    then show ?thesis
      using short short_prefix [OF short] by (simp add: read_cbor_def cbor_bytes_def codec_simps)
  next
    case one
    then show ?thesis
      using small_byte [of "length bs"] by (simp add: read_cbor_def cbor_bytes_def codec_simps)
  next
    case two
    then have "be_value (be_bytes 2 (length bs)) = length bs"
      by (simp add: be_value_be_bytes)
    then show ?thesis
      using two by (simp add: read_cbor_def cbor_bytes_def codec_simps)
  next
    case four
    then have "be_value (be_bytes 4 (length bs)) = length bs"
      using assms by (simp add: be_value_be_bytes)
    then show ?thesis
      using four by (simp add: read_cbor_def cbor_bytes_def codec_simps)
  qed
qed

lemma read_cbor_last [codec_simps]:
  "length bs < 2 ^ 32 \<Longrightarrow> read_cbor (reading pre (cbor_bytes bs)) = Ok (bs, reading (pre @ cbor_bytes bs) [])"
  using read_cbor_forward [of bs pre "[]"] by simp

lemma witness_domain_length [simp]: "length witness_record_domain = 39"
  by (simp add: witness_record_domain_def ascii_def)

lemma signature_roundtrip: "word_of_nat (be_value (signature_bytes s)) = s" "length (signature_bytes s) = 64"
  by (simp_all add: signature_bytes_def be_word_roundtrip)

lemma binding_bytes_length: "length (binding_canonical_bytes b) = 217"
  by (simp add: binding_canonical_bytes_def)

definition receipt_storable :: "(byte list \<Rightarrow> digest) \<Rightarrow> witness_receipt \<Rightarrow> bool"
  where "receipt_storable sha r \<longleftrightarrow>
    witness_state_ok sha (wr_state r) \<and> length (witness_receipt_bytes r) < 2 ^ 32"

lemma genesis_record_roundtrip:
  assumes "encode_record \<lparr> sw_binding = b, sw_genesis_generation = Some g, sw_receipt = None \<rparr> = Ok bytes"
  shows "decode_record sha sg bytes = Ok \<lparr> sw_binding = b, sw_genesis_generation = Some g, sw_receipt = None \<rparr>"
proof -
  have bytes: "bytes = 0x85 # cbor_bytes witness_record_domain @ cbor_bytes (binding_canonical_bytes b)
      @ cbor_bytes (uuid_bytes g) @ cbor_bytes [] @ cbor_bytes []"
    using assms by (simp add: encode_record_def)
  have "word_of_nat (be_value (uuid_bytes g)) = g"
    by (simp add: uuid_bytes_def be_word_roundtrip)
  moreover have "binding_from_canonical_bytes (binding_canonical_bytes b) = Ok b"
    by (simp add: binding_from_Ok_iff)
  ultimately show ?thesis
    by (simp add: bytes decode_record_def decoder_new_reading codec_simps binding_bytes_length)
qed

lemma receipt_record_roundtrip:
  assumes "encode_record \<lparr> sw_binding = b, sw_genesis_generation = None, sw_receipt = Some r \<rparr> = Ok bytes"
    and ok: "receipt_storable sha r" "verify_against sg r (wr_witness_public_key r) = Ok ()"
  shows "decode_record sha sg bytes = Ok \<lparr> sw_binding = b, sw_genesis_generation = None, sw_receipt = Some r \<rparr>"
proof -
  have bytes: "bytes = 0x85 # cbor_bytes witness_record_domain @ cbor_bytes (binding_canonical_bytes b)
      @ cbor_bytes [] @ cbor_bytes (witness_receipt_bytes r) @ cbor_bytes (signature_bytes (wr_signature r))"
    using assms(1) by (simp add: encode_record_def)
  have "length (witness_state_bytes (wr_state r)) < 2 ^ 64"
    using ok(1) by (simp add: receipt_storable_def witness_receipt_bytes_def)
  then have "witness_receipt_from_bytes sha sg (witness_receipt_bytes r) (wr_signature r) = Ok r"
    using ok by (simp add: receipt_storable_def witness_receipt_roundtrip)
  moreover have "binding_from_canonical_bytes (binding_canonical_bytes b) = Ok b"
    by (simp add: binding_from_Ok_iff)
  moreover have "length (witness_receipt_bytes r) < 2 ^ 32"
    using ok(1) by (simp add: receipt_storable_def)
  ultimately show ?thesis
    by (simp add: bytes decode_record_def decoder_new_reading codec_simps binding_bytes_length signature_roundtrip
        or_unavailable_def)
qed

section \<open>Advancing, proved\<close>

definition witness_ok :: "'k signatures \<Rightarrow> 'k file_witness \<Rightarrow> bool"
  where "witness_ok sg w \<longleftrightarrow> bound_head (fw_binding w) (fw_head w) \<and>
    sb_witness_public_key (fw_binding w) = sg_public_key sg (fw_signing_key w)"

definition entry_storable :: "(byte list \<Rightarrow> digest) \<Rightarrow> signed_journal_entry \<Rightarrow> bool"
  where "entry_storable sha e \<longleftrightarrow>
    witness_state_ok sha (je_state e) \<and> length (witness_state_bytes (je_state e)) < 2 ^ 31"

lemma receipt_for_accepted:
  assumes law: "signatures_verify sg" and ok: "witness_ok sg w" and small: "entry_storable sha e"
    and acc: "accept_signed sha sg (fw_head w) e = Ok adv"
  obtains r where "receipt_sign sha sg (fw_signing_key w) (fw_head w) adv = Ok r"
    "from_durable_receipt sg (fw_binding w) r = Ok (head_after sha (fw_head w) e)"
    "verify_against sg r (wr_witness_public_key r) = Ok ()" "receipt_storable sha r"
proof -
  have "witness_round sha sg (fw_signing_key w) (fw_binding w) (fw_head w) e = head_step sha sg (fw_head w) e"
    using ok by (intro witness_round_head_step [OF law]) (simp_all add: witness_ok_def)
  also have "\<dots> = Ok (head_after sha (fw_head w) e)"
    using acc by (simp add: head_step_def)
  finally obtain r where r: "receipt_sign sha sg (fw_signing_key w) (fw_head w) adv = Ok r"
      "from_durable_receipt sg (fw_binding w) r = Ok (head_after sha (fw_head w) e)"
    using acc by (auto simp: witness_round_def and_then_Ok_iff)
  have "verify_against sg r (wr_witness_public_key r) = Ok ()"
    using r(2) by (auto simp: from_durable_receipt_def and_then_Ok_iff verify_against_def split: if_splits)
  moreover have "wr_state r = je_state e"
    using r(1) acc by (auto simp: receipt_sign_def and_then_Ok_iff Let_def accept_signed_Ok_iff split: if_splits)
  then have "receipt_storable sha r"
    using small by (simp add: receipt_storable_def entry_storable_def witness_receipt_bytes_def)
  ultimately show ?thesis
    using that r by blast
qed

lemma open_receipt_record:
  assumes bytes: "encode_record \<lparr> sw_binding = fw_binding w, sw_genesis_generation = None, sw_receipt = Some r \<rparr> = Ok bytes"
    and ok: "receipt_storable sha r" "verify_against sg r (wr_witness_public_key r) = Ok ()"
    and head: "from_durable_receipt sg (fw_binding w) r = Ok h"
    and key: "sb_witness_public_key (fw_binding w) = sg_public_key sg (fw_signing_key w)"
  shows "witness_open sha sg (Some (fw_signing_key w)) (Some bytes) = Ok (w\<lparr>fw_head := h\<rparr>)"
  using receipt_record_roundtrip [OF bytes ok] head key
  by (cases w) (simp add: witness_open_def or_unavailable_def)

lemma encode_receipt_Ok: "\<exists>bytes. encode_record \<lparr> sw_binding = b, sw_genesis_generation = None, sw_receipt = Some r \<rparr> = Ok bytes"
  by (simp add: encode_record_def)

lemma compare_and_advance_cases:
  assumes law: "signatures_verify sg" and ok: "witness_ok sg w" and small: "entry_storable sha e"
    and acc: "accept_signed sha sg (fw_head w) e = Ok adv"
    and run: "compare_and_advance sha sg fault w stored (fw_head w) adv = (res, w', stored')"
  shows "(\<forall>r. res = Ok r \<longrightarrow> w' = w\<lparr>fw_head := head_after sha (fw_head w) e\<rparr> \<and>
        witness_open sha sg (Some (fw_signing_key w)) stored' = Ok w' \<and> durable_receipt sha sg w' stored' = Ok r) \<and>
    (\<forall>x. res = Err x \<longrightarrow> w' = w \<and> (stored' = stored \<or>
        witness_open sha sg (Some (fw_signing_key w)) stored' = Ok (w\<lparr>fw_head := head_after sha (fw_head w) e\<rparr>)))"
proof -
  obtain r where r: "receipt_sign sha sg (fw_signing_key w) (fw_head w) adv = Ok r"
    "from_durable_receipt sg (fw_binding w) r = Ok (head_after sha (fw_head w) e)"
    "verify_against sg r (wr_witness_public_key r) = Ok ()" "receipt_storable sha r"
    using receipt_for_accepted [OF law ok small acc] by blast
  obtain bytes where bytes: "encode_record \<lparr> sw_binding = fw_binding w, sw_genesis_generation = None, sw_receipt = Some r \<rparr> = Ok bytes"
    using encode_receipt_Ok by blast
  have reopen: "witness_open sha sg (Some (fw_signing_key w)) (Some bytes) =
      Ok (w\<lparr>fw_head := head_after sha (fw_head w) e\<rparr>)"
    by (rule open_receipt_record [OF bytes r(4,3,2)]) (use ok in \<open>simp add: witness_ok_def\<close>)
  have durable: "durable_receipt sha sg (w\<lparr>fw_head := h\<rparr>) (Some bytes) = Ok r" for h
    using receipt_record_roundtrip [OF bytes r(4,3)] by (simp add: durable_receipt_def)
  show ?thesis
    using run r(1,2) reopen durable
    by (cases fault) (auto simp: compare_and_advance_def replace_record_def bytes)
qed

section \<open>Runs with faults and restarts\<close>

datatype witness_op = Advance replace_fault signed_journal_entry | Restart

fun witness_op_step ::
    "(byte list \<Rightarrow> digest) \<Rightarrow> 'k signatures \<Rightarrow> 'k file_witness \<times> byte list option \<Rightarrow> witness_op
     \<Rightarrow> 'k file_witness \<times> byte list option"
  where
    "witness_op_step sha sg (w, stored) (Advance fault e) =
       (case accept_signed sha sg (fw_head w) e of
          Err _ \<Rightarrow> (w, stored)
        | Ok advance \<Rightarrow> snd (compare_and_advance sha sg fault w stored (fw_head w) advance))"
  | "witness_op_step sha sg (w, stored) Restart =
       (case witness_open sha sg (Some (fw_signing_key w)) stored of Ok w' \<Rightarrow> (w', stored) | Err _ \<Rightarrow> (w, stored))"

fun op_entries :: "witness_op list \<Rightarrow> signed_journal_entry list"
  where
    "op_entries [] = []"
  | "op_entries (Advance _ e # ops) = e # op_entries ops"
  | "op_entries (Restart # ops) = op_entries ops"

definition journal_to ::
    "(byte list \<Rightarrow> digest) \<Rightarrow> 'k signatures \<Rightarrow> witness_head \<Rightarrow> signed_journal_entry set \<Rightarrow> witness_head \<Rightarrow> bool"
  where "journal_to sha sg g E h \<longleftrightarrow> (\<exists>es. set es \<subseteq> E \<and> try_fold (head_step sha sg) g es = Ok h)"

lemma journal_to_step:
  assumes "journal_to sha sg g E h" "accept_signed sha sg h e = Ok adv" "e \<in> E"
  shows "journal_to sha sg g E (head_after sha h e)"
proof -
  obtain es where es: "set es \<subseteq> E" "try_fold (head_step sha sg) g es = Ok h"
    using assms(1) by (auto simp: journal_to_def)
  have "try_fold (head_step sha sg) g (es @ [e]) = Ok (head_after sha h e)"
    using es(2) assms(2) by (simp add: try_fold_snoc_Ok_iff head_step_def)
  then show ?thesis
    using es(1) assms(3) unfolding journal_to_def by (intro exI [of _ "es @ [e]"]) simp
qed

text \<open>
  What holds throughout: memory and disk both stand on a journal, for the same binding and key, and
  the disk is not behind.
\<close>

definition witness_inv ::
    "(byte list \<Rightarrow> digest) \<Rightarrow> 'k signatures \<Rightarrow> witness_head \<Rightarrow> signed_journal_entry set
     \<Rightarrow> 'k file_witness \<Rightarrow> 'k file_witness \<times> byte list option \<Rightarrow> bool"
  where "witness_inv sha sg g E w0 s \<longleftrightarrow> (case s of (w, stored) \<Rightarrow>
    witness_ok sg w \<and> fw_binding w = fw_binding w0 \<and> fw_signing_key w = fw_signing_key w0 \<and>
    journal_to sha sg g E (fw_head w) \<and>
    (\<exists>h. witness_open sha sg (Some (fw_signing_key w)) stored = Ok (w\<lparr>fw_head := h\<rparr>) \<and>
       journal_to sha sg g E h \<and> bound_head (fw_binding w) h \<and> wh_sequence (fw_head w) \<le> wh_sequence h))"

lemma head_after_bound: "bound_head b h \<Longrightarrow> bound_head b (head_after sha h e)"
  by (simp add: bound_head_def head_after_def)

lemma accepted_sequence:
  "accept_signed sha sg h e = Ok adv \<Longrightarrow> wh_sequence h \<le> wh_sequence (head_after sha h e)"
  by (auto simp: accept_signed_Ok_iff head_after_def word_le_nat_alt)

lemma witness_inv_advance:
  assumes law: "signatures_verify sg" and inv: "witness_inv sha sg g E w0 (w, stored)"
    and e: "e \<in> E" "entry_storable sha e"
  shows "witness_inv sha sg g E w0 (witness_op_step sha sg (w, stored) (Advance fault e))"
proof (cases "accept_signed sha sg (fw_head w) e")
  case (Inl x)
  then show ?thesis using inv by simp
next
  case (Inr adv)
  have ok: "witness_ok sg w"
    using inv by (simp add: witness_inv_def)
  obtain res w' stored' where run: "compare_and_advance sha sg fault w stored (fw_head w) adv = (res, w', stored')"
    by (cases "compare_and_advance sha sg fault w stored (fw_head w) adv")
  define h where "h = head_after sha (fw_head w) e"
  have h: "journal_to sha sg g E h" "bound_head (fw_binding w) h" "wh_sequence (fw_head w) \<le> wh_sequence h"
    using inv journal_to_step [OF _ Inr e(1)] accepted_sequence [OF Inr]
    by (auto simp: witness_inv_def h_def witness_ok_def head_after_bound)
  note cases = compare_and_advance_cases [OF law ok e(2) Inr run, folded h_def]
  show ?thesis
  proof (cases res)
    case (Inl x)
    then have "w' = w" "stored' = stored \<or> witness_open sha sg (Some (fw_signing_key w)) stored' = Ok (w\<lparr>fw_head := h\<rparr>)"
      using cases by blast+
    then show ?thesis
      using inv h Inr run by (auto simp: witness_inv_def)
  next
    case (Inr r)
    then have "w' = w\<lparr>fw_head := h\<rparr>" "witness_open sha sg (Some (fw_signing_key w)) stored' = Ok w'"
      using cases by blast+
    then show ?thesis
      using inv h \<open>accept_signed sha sg (fw_head w) e = Inr adv\<close> run
      by (auto simp: witness_inv_def witness_ok_def intro!: exI [of _ h])
  qed
qed

lemma witness_inv_restart:
  assumes inv: "witness_inv sha sg g E w0 (w, stored)"
  shows "witness_inv sha sg g E w0 (witness_op_step sha sg (w, stored) Restart)"
proof -
  obtain h where h: "witness_open sha sg (Some (fw_signing_key w)) stored = Ok (w\<lparr>fw_head := h\<rparr>)"
       "journal_to sha sg g E h" "bound_head (fw_binding w) h"
    using inv by (auto simp: witness_inv_def)
  then show ?thesis
    using inv by (auto simp: witness_inv_def witness_ok_def intro!: exI [of _ h])
qed

lemma witness_inv_run:
  assumes law: "signatures_verify sg" and "witness_inv sha sg g E w0 s"
    and "set (op_entries ops) \<subseteq> E" "\<forall>e \<in> E. entry_storable sha e"
  shows "witness_inv sha sg g E w0 (foldl (witness_op_step sha sg) s ops)"
  using assms(2-)
proof (induction ops arbitrary: s)
  case Nil
  then show ?case by simp
next
  case (Cons op ops)
  obtain w stored where s: "s = (w, stored)" by force
  have "witness_inv sha sg g E w0 (witness_op_step sha sg s op)"
    using Cons.prems s witness_inv_advance [OF law] witness_inv_restart by (cases op) auto
  moreover have "set (op_entries ops) \<subseteq> E"
    using Cons.prems(2) by (cases op) auto
  ultimately show ?case
    using Cons.IH Cons.prems(3) by simp
qed

lemma create_opens:
  assumes "witness_create sha sg fault key_file None binding generation = (Ok w, stored)"
  shows "witness_open sha sg (Some (fw_signing_key w)) stored = Ok w \<and> witness_ok sg w \<and>
    fw_head w = witness_head_genesis sha (sb_installation_id binding) (sb_fingerprint_key_id binding)
      (sb_continuity_proof binding) generation (sb_journal_public_key binding)"
proof -
  obtain bytes where bytes: "encode_record \<lparr> sw_binding = binding, sw_genesis_generation = Some generation, sw_receipt = None \<rparr> = Ok bytes"
    by (simp add: encode_record_def)
  show ?thesis
    using assms genesis_record_roundtrip [OF bytes, of sha sg]
    by (auto simp: witness_create_def write_initial_record_def Let_def bytes witness_open_def witness_ok_def bound_head_def
        witness_head_genesis_def split: option.splits if_splits bootstrap_fault.splits prod.splits)
qed

section \<open>Properties\<close>

text \<open>
  C17: a receipt escapes only when it is durable.  If advancing the witness by an entry its head
  accepts, with a well-formed state and a record below 2 GiB, returns a receipt, the file reopens at the head after the entry and holds that receipt; if
  it returns an error, wherever the file system failed, the head in memory is unchanged and the file
  is untouched or reopens at the head after the entry; never anything else.
\<close>

theorem advance_is_durable:
  assumes "signatures_verify sg" "witness_ok sg w" "entry_storable sha e"
    and "accept_signed sha sg (fw_head w) e = Ok advance"
    and "compare_and_advance sha sg fault w stored (fw_head w) advance = (res, w', stored')"
  shows "(\<forall>r. res = Ok r \<longrightarrow> w' = w\<lparr>fw_head := head_after sha (fw_head w) e\<rparr> \<and>
        witness_open sha sg (Some (fw_signing_key w)) stored' = Ok w' \<and> durable_receipt sha sg w' stored' = Ok r) \<and>
    (\<forall>x. res = Err x \<longrightarrow> w' = w \<and> (stored' = stored \<or>
        witness_open sha sg (Some (fw_signing_key w)) stored' = Ok (w\<lparr>fw_head := head_after sha (fw_head w) e\<rparr>)))"
  by (rule compare_and_advance_cases [OF assms])

definition sample_witness :: "unit file_witness"
  where "sample_witness = \<lparr> fw_binding = sample_binding, fw_signing_key = (), fw_head = sample_head \<rparr>"

lemma sample_witness_ok: "witness_ok (sample_signatures s) sample_witness"
  by (simp add: witness_ok_def sample_witness_def bound_head_def sample_binding_def sample_head_def
      witness_head_genesis_def sample_signatures_def)

definition sample_advance :: "signature \<Rightarrow> witness_advance"
  where "sample_advance s = \<lparr> wa_event_kind = GenerationRegistered, wa_generation_id = 9, wa_activation_epoch = 1,
    wa_signed_entry = sample_entry s, wa_next_state = je_state (sample_entry s) \<rparr>"

lemma sample_accept: "accept_signed genesis_sha (sample_signatures s) sample_head (sample_entry s) =
    Ok (sample_advance s)"
  using sample_head_step [of s] by (auto simp: head_step_Ok_iff accept_signed_Ok_iff sample_entry_def sample_advance_def)

lemma sample_entry_storable: "entry_storable sha (sample_entry s)"
proof -
  have "length (archive_canonical_bytes archive_empty) = 9"
    by (simp add: archive_empty_def archive_canonical_bytes_def)
  then show ?thesis
    using sample_state_ok(1) [of sha s]
    by (simp add: entry_storable_def sample_entry_def witness_state_bytes_def witness_state_genesis_def optional_field_def)
qed

theorem advance_is_durable_witness:
  "fst (snd (compare_and_advance genesis_sha (sample_signatures 6) Replace_Works sample_witness None sample_head (sample_advance 6)))
     \<in> {sample_witness, sample_witness\<lparr>fw_head := head_after genesis_sha sample_head (sample_entry 6)\<rparr>}"
proof -
  obtain res w' stored' where run: "compare_and_advance genesis_sha (sample_signatures 6) Replace_Works sample_witness None
      (fw_head sample_witness) (sample_advance 6) = (res, w', stored')"
    by (metis prod.collapse)
  have "accept_signed genesis_sha (sample_signatures 6) (fw_head sample_witness) (sample_entry 6) = Ok (sample_advance 6)"
    by (simp add: sample_accept sample_witness_def)
  note durable = advance_is_durable [OF sample_signatures_verify sample_witness_ok sample_entry_storable this run]
  show ?thesis
    using durable run by (cases res) (auto simp: sample_witness_def)
qed

text \<open>
  C16: the durable head is always a journal.  Create a witness, then advance it by any entries with
  the file system failing anywhere, and restart it at any moments, the entries having well-formed
  states and records below 2 GiB: reopening the file always succeeds,
  for the same binding and key, and gives a head that some sequence of the submitted entries, each
  accepted in its turn, leads to from genesis; and it is never behind the head in memory.
\<close>

theorem durable_head_is_a_journal:
  assumes "signatures_verify sg"
    and "witness_create sha sg No_Fault key_file None binding generation = (Ok w0, stored0)"
    and "\<forall>e \<in> set (op_entries ops). entry_storable sha e"
    and "foldl (witness_op_step sha sg) (w0, stored0) ops = (w, stored)"
  shows "\<exists>h es. witness_open sha sg (Some (fw_signing_key w0)) stored = Ok (w0\<lparr>fw_head := h\<rparr>) \<and>
    set es \<subseteq> set (op_entries ops) \<and>
    try_fold (head_step sha sg) (witness_head_genesis sha (sb_installation_id binding) (sb_fingerprint_key_id binding)
      (sb_continuity_proof binding) generation (sb_journal_public_key binding)) es = Ok h \<and>
    wh_sequence (fw_head w) \<le> wh_sequence h"
proof -
  define g where "g = witness_head_genesis sha (sb_installation_id binding) (sb_fingerprint_key_id binding)
      (sb_continuity_proof binding) generation (sb_journal_public_key binding)"
  have start: "witness_open sha sg (Some (fw_signing_key w0)) stored0 = Ok w0" "witness_ok sg w0" "fw_head w0 = g"
    using create_opens [OF assms(2)] by (simp_all add: g_def)
  have "journal_to sha sg g (set (op_entries ops)) g"
    unfolding journal_to_def by (intro exI [of _ "[]"]) simp
  then have "witness_inv sha sg g (set (op_entries ops)) w0 (w0, stored0)"
    using start by (auto simp: witness_inv_def witness_ok_def intro!: exI [of _ g])
  then have inv: "witness_inv sha sg g (set (op_entries ops)) w0 (w, stored)"
    using witness_inv_run [OF assms(1) _ subset_refl assms(3)] assms(4) by metis
  then obtain h where h: "witness_open sha sg (Some (fw_signing_key w)) stored = Ok (w\<lparr>fw_head := h\<rparr>)"
      "journal_to sha sg g (set (op_entries ops)) h" "wh_sequence (fw_head w) \<le> wh_sequence h"
      "fw_binding w = fw_binding w0" "fw_signing_key w = fw_signing_key w0"
    by (auto simp: witness_inv_def)
  have "w\<lparr>fw_head := h\<rparr> = w0\<lparr>fw_head := h\<rparr>"
    using h(4,5) by (cases w, cases w0) simp
  then have "witness_open sha sg (Some (fw_signing_key w0)) stored = Ok (w0\<lparr>fw_head := h\<rparr>)"
    using h(1,5) by simp
  then show ?thesis
    using h(2,3) unfolding journal_to_def g_def by blast
qed

definition sample_stored :: "byte list"
  where "sample_stored = 0x85 # cbor_bytes witness_record_domain @ cbor_bytes (binding_canonical_bytes sample_binding)
    @ cbor_bytes (uuid_bytes 4) @ cbor_bytes [] @ cbor_bytes []"

lemma sample_create: "witness_create genesis_sha (sample_signatures s) No_Fault (Some ()) None sample_binding 4 =
    (Ok sample_witness, Some sample_stored)"
  by (simp add: witness_create_def encode_record_def write_initial_record_def sample_stored_def sample_witness_def
      sample_head_def sample_signatures_def) (simp add: sample_binding_def)

theorem durable_head_is_a_journal_witness:
  "\<exists>h es. witness_open genesis_sha (sample_signatures 6) (Some ())
      (snd (foldl (witness_op_step genesis_sha (sample_signatures 6)) (sample_witness, Some sample_stored)
        [Advance Directory_Sync_Fails (sample_entry 6), Restart])) = Ok (sample_witness\<lparr>fw_head := h\<rparr>) \<and>
    set es \<subseteq> {sample_entry 6} \<and> try_fold (head_step genesis_sha (sample_signatures 6)) sample_head es = Ok h"
proof -
  let ?ops = "[Advance Directory_Sync_Fails (sample_entry 6), Restart]"
  obtain w stored where run: "foldl (witness_op_step genesis_sha (sample_signatures 6)) (sample_witness, Some sample_stored) ?ops =
      (w, stored)"
    by (metis prod.collapse)
  have "\<forall>e \<in> set (op_entries ?ops). entry_storable genesis_sha e"
    by (simp add: sample_entry_storable)
  note journal = durable_head_is_a_journal [OF sample_signatures_verify sample_create this run]
  have "witness_head_genesis genesis_sha (sb_installation_id sample_binding) (sb_fingerprint_key_id sample_binding)
      (sb_continuity_proof sample_binding) 4 (sb_journal_public_key sample_binding) = sample_head"
    by (simp add: sample_head_def sample_binding_def)
  then show ?thesis
    using journal unfolding run by (auto simp: sample_witness_def)
qed

end
