(* ===== verification/Spec2Isabelle.thy ===== *)
theory Spec2Isabelle
  imports Run_Log Effect_Service Witness_File
begin

text \<open>
  \<^bold>\<open>Vestrace\<close> is a control plane for agents written in Rust.  This library models, crate by crate
  under \<^verbatim>\<open>src/crates/\<close>, the four parts of it in which a wrong step cannot be repaired
  afterwards, and proves what makes each of them correct.

  \<^bold>\<open>Runs.\<close>  A run of an agent is an event-sourced aggregate.  A command is decided against
  the state that its history replays to, the resulting event is appended to the run's stream in
  PostgreSQL together with a projection row, outcomes of external effects are delivered into the same
  stream, and a recovery service restores a run from a checkpoint and the events after it.

  \<^item> \<open>Run_Status\<close>: \<^verbatim>\<open>vestrace-domain/src/run/status.rs\<close> and the versions and cursors of
    \<^verbatim>\<open>run/mod.rs\<close>; stored names are inverse to their parsers, terminal statuses absorb.
  \<^item> \<open>Run_Aggregate\<close>: \<^verbatim>\<open>run/step.rs\<close>, the mutable \<^verbatim>\<open>AgentRun\<close> and \<^verbatim>\<open>RunStep\<close> with every
    operation; invariants along all histories of calls.
  \<^item> \<open>Effect_Outcome\<close>: the outcome and evidence enums of \<^verbatim>\<open>external_effects.rs\<close>.
  \<^item> \<open>Run_Events\<close>: \<^verbatim>\<open>run/state.rs\<close>, \<^verbatim>\<open>command.rs\<close>, \<^verbatim>\<open>legacy_event.rs\<close>, \<^verbatim>\<open>error.rs\<close>,
    \<^verbatim>\<open>decision.rs\<close> (\<^verbatim>\<open>decide\<close>) and \<^verbatim>\<open>reducer.rs\<close> (\<^verbatim>\<open>apply\<close>, \<^verbatim>\<open>replay\<close>); the state
    invariant, decision against reduction, the reducer against the status table.
  \<^item> \<open>Run_Store\<close>: \<^verbatim>\<open>vestrace-infrastructure/src/postgres/run_event_store.rs\<close> and
    \<^verbatim>\<open>run_command_committer.rs\<close>.  A table is a list of row records, a statement a function on the
    tables, a transaction returns the new tables or the error that rolled it back; the uniqueness,
    check and foreign-key constraints and the deferred trigger on \<^verbatim>\<open>agent_runs\<close> are those of the
    migrations, and a value that PostgreSQL does not store is refused.
  \<^item> \<open>Run_Service\<close>: \<^verbatim>\<open>vestrace-application/src/runs/command_service.rs\<close>, \<^verbatim>\<open>recovery.rs\<close>,
    \<^verbatim>\<open>effect_outcome_delivery.rs\<close> and \<^verbatim>\<open>postgres/run_recovery_store.rs\<close>, each call on its own; one event per
    accepted command, at most one commit per version, soundness and completeness of recovery.
  \<^item> \<open>Run_Log\<close>: \<^verbatim>\<open>run/event.rs\<close>, \<^verbatim>\<open>run/checkpoint.rs\<close>, \<^verbatim>\<open>run/work.rs\<close>.

  \<^bold>\<open>Authority.\<close>  What a principal or an agent may do is a capability grant over a resource
  scope; grants are evaluated, revoked, approved and delegated, each delegation within the authority
  and the budget of its parent.

  \<^item> \<open>Resource_Scope\<close>: \<^verbatim>\<open>security/scope.rs\<close>; parsing and printing of scopes, covering, and the
    interface \<open>containment\<close> of the preorders that authority is compared with.
  \<^item> \<open>Capability_Grants\<close>: \<^verbatim>\<open>security/mod.rs\<close> and \<^verbatim>\<open>security/capability.rs\<close>; evaluation is exactly
    authority of some grant, revocation, approvals.
  \<^item> \<open>Delegation\<close>: \<^verbatim>\<open>security/delegation.rs\<close>; attenuation along chains and conservation of
    hierarchical budgets.
  \<^item> \<open>Application_Context\<close>: the request context, the errors of the application crate and the
    parameters of a database (\<^verbatim>\<open>vestrace-application/src/context.rs\<close>, \<^verbatim>\<open>error.rs\<close>).
  \<^item> \<open>Policy_Engine\<close>: \<^verbatim>\<open>vestrace-application/src/security/policy_engine.rs\<close>, \<^verbatim>\<open>grant_store.rs\<close>,
    \<^verbatim>\<open>postgres/capability_grant_repository.rs\<close> and the table of its migration; a saved revocation is
    final for the engine on stored grants; the budget engine stays within the units of the root grant and
    of each reservation.

  \<^bold>\<open>External effects.\<close>  What cannot be taken back is done through an adapter: the intent is
  recorded, authorized, its dispatch recorded with an owner and a deadline, and only then the adapter is called.  A
  recovery sweep finds effects whose outcome nobody knows and asks the adapter; a delivery pass tells
  the run that asked for the effect.

  \<^item> \<open>External_Effects\<close>: \<^verbatim>\<open>vestrace-domain/src/external_effects.rs\<close>; intents, authorizations, adapter
    contracts, receipts, reconciliation, the lifecycle.
  \<^item> \<open>Effect_Store\<close>: \<^verbatim>\<open>postgres/external_effect_repository.rs\<close> with the constraints and triggers of its
    migrations; the invariant of the tables along any calls, that everything written stays
    readable, and that the query of recovery finds every dispatch without an outcome.
  \<^item> \<open>Async_Task\<close>: an \<^verbatim>\<open>async fn\<close> is a task that is done or awaits.  An await takes an input (what the
    outside answers, which database call fails or loses its reply) and is one atomic step on the shared world;
    \<^const>\<open>run_schedule\<close> interleaves any number of tasks.  The interface \<open>rely_guarantee\<close> proves an
    invariant of all schedules from one proof per task, \<^const>\<open>task_ends\<close> bounds the steps of a task.
  \<^item> \<open>Effect_Service\<close>: \<^verbatim>\<open>vestrace-application/src/external_effects.rs\<close>, \<^verbatim>\<open>effect_recovery.rs\<close>,
    \<^verbatim>\<open>recovery_reconciliation.rs\<close>, \<^verbatim>\<open>effect_outcome_delivery.rs\<close> and \<^verbatim>\<open>RunCommandService::execute\<close> as tasks over
    one world of effect tables, run tables, grants and adapter calls.  Under every
    interleaving with faults and crashes: no call off the record and none twice, no call lost, no outcome marked as
    delivered that its run was not told, and every task ends within its bound.

  \<^bold>\<open>Installation safety.\<close>  Backups, restores and generations of an installation are recorded in a
  journal of signed entries.  A witness outside the database keeps the head of the journal and the safety
  state, and advances only on an entry that is the exact successor of what it holds.

  \<^item> \<open>Ordered_Map\<close>, \<open>Byte_Codec\<close>: \<^verbatim>\<open>BTreeMap\<close> and the cursor over canonical bytes, each with the
    interface its clients use (\<open>ordered_map\<close>, \<open>codec\<close>, \<open>canonical_codec\<close>).
  \<^item> \<open>Backup_Archive\<close>: \<^verbatim>\<open>vestrace-domain/src/backup_archive.rs\<close>; the invariant of every reachable
    archive, its hash chain, its canonical bytes, and the exact-successor predicates against the calls.
  \<^item> \<open>Restore_Cutover\<close>: \<^verbatim>\<open>restore_cutover.rs\<close>; roots, freeze points, the progress of an attempt,
    activation plans.
  \<^item> \<open>Installation_Safety\<close>: \<^verbatim>\<open>vestrace-domain/src/installation_safety.rs\<close>; signed entries,
    acceptance by a head, receipts, the bootstrap record; the chain digest fixes the journal.
  \<^item> \<open>Witness_File\<close>: \<^verbatim>\<open>vestrace-infrastructure/src/safety/witness_file.rs\<close>; the durable witness
    under file-system faults and restarts.
  \<^item> This theory joins the archive to the journal: an accepted archive call can be journalled.

  \<^bold>\<open>Shared vocabulary.\<close>  \<open>Prelude\<close> has \<^verbatim>\<open>Result\<close> as a sum type with the operator \<^verbatim>\<open>?\<close> as
  \<^const>\<open>and_then\<close>, checked arithmetic on words, \<^verbatim>\<open>DomainError\<close>, and the interfaces
  \<open>named_enum\<close>, \<open>status_machine\<close>, \<open>fallible_system\<close> and \<open>event_log\<close>, each interpreted on the
  model's own operations.  \<open>Rust_Text\<close> has strings as their UTF-8 bytes with the library functions the
  parsers call.

  \<^bold>\<open>State and errors.\<close>  A struct is a record whose fields carry a short prefix, an enum a datatype, an
  integer of the source a word of its width; a method that takes \<^verbatim>\<open>&mut self\<close> returns the new value.
  Every early return is a value of the error type, and a panic is a value where one is possible
  (\<^const>\<open>Panics\<close>).  Loops of the source are structural recursions over lists, so no fuel is
  needed; a decoder that reads a count recurses on the count and consumes input, and tasks are well-founded
  values whose number of awaits is bounded by the batch sizes of the source.  The histories over
  which invariants are proved are lists of calls of any length.

  \<^bold>\<open>Bounds.\<close>  Versions and sequence numbers are 64-bit words; where an operation needs room the
  statement says so (versions below \<open>2 ^ 63 - 1\<close> because the column is a \<^verbatim>\<open>BIGINT\<close>, sequences below
  \<open>2 ^ 64 - 1\<close>, lengths below \<open>2 ^ 64\<close> because a length prefix is a \<^verbatim>\<open>u64\<close>).

  \<^bold>\<open>Parameters.\<close>  SHA-256 is a function argument \<open>sha\<close>; no property assumes it injective, and those
  that need it say \<open>unless the hash collides\<close> and name the two inputs.  Ed25519 is a record of
  functions with the law \<^const>\<open>signatures_verify\<close>.  Durations of \<^verbatim>\<open>chrono\<close>, the texts
  of database errors, the database clock, the rounding of stored times and the file system's faults are arguments.
  So are the rows of other tables that the run stores meet (\<^typ>\<open>database\<close>: registered workspaces and
  principals, prepared provider results) and the size limits of a PostgreSQL row.
  The services of external effects take a record \<^typ>\<open>effect_service\<close> of what a deployment composes them
  from: the policy engine, the owner of dispatches, the registry of adapters, the printing and parsing of UUIDs.  What
  an adapter answers and which identifiers are drawn are inputs of the steps, so a property holds for all of them.

  \<^bold>\<open>Not modelled.\<close>  Transport and tooling (\<^verbatim>\<open>vestrace-http\<close>, \<^verbatim>\<open>vestrace-mcp\<close>,
  \<^verbatim>\<open>vestrace-cli\<close>, configuration, pools, the fault-scenario drivers, the conformance tables) are input
  and output around the services.  Provider adapters and the material vault call third-party code over the
  network or ciphers.  Embedding indexes compute with floating-point numbers.  The
  memory product, cognitive workflows, learning, trust, health, model routing, connections, the
  services that orchestrate archives and restores over SQL functions and host files, and the
  asynchronous scheduling of runs are separate components that the modelled ones do not depend on.
  Of the worker the loop that calls sweep and deliver on a timer is not modelled: a schedule may call them in any
  order.  That an intent is performed by one request only is a hypothesis (\<^const>\<open>performed_once\<close>): a
  second request with the same intent records its authorization after the first one's dispatch.  The file-system
  faults are errors of the single operations and crashes between them; that a power loss drops
  data or a directory entry that was not synced is outside the fault model.  Inside the modelled
  files, derived serialisation, display of error messages beyond the modelled names, and the read-only
  accessors (they are the record fields) are left out.
\<close>

section \<open>Journalling an archive call\<close>

text \<open>The kind of event under which a call on the archive is journalled; a release has none.\<close>

fun event_of_call :: "archive_call \<Rightarrow> safety_event_kind option"
  where
    "event_of_call (Call_Start _ _) = Some BackupSetStarted"
  | "event_of_call (Call_Commit _ _ _) = Some ArchiveCheckpointCommitted"
  | "event_of_call (Call_AcquireHold _ _) = Some ArchiveRestoreHoldAcquired"
  | "event_of_call (Call_ReleaseHold _ _ _) = None"
  | "event_of_call (Call_BeginSealing _) = Some ArchiveSealingStarted"
  | "event_of_call (Call_CommitSealed _) = Some ArchiveSealed"
  | "event_of_call (Call_PrepareDeletion _ _) = Some ManagedBackupDeletionPrepared"
  | "event_of_call (Call_PrepareKeyErasure _ _) = Some PreparedArchiveKeyErasure"
  | "event_of_call (Call_RecordKeyErased _) = Some ArchiveKeyErasedEvent"
  | "event_of_call (Call_FinalizeDeleted _) = Some ManagedBackupDeleted"

text \<open>The entry that journals a new archive state on top of a head.\<close>

definition archive_entry ::
    "'k signatures \<Rightarrow> 'k \<Rightarrow> witness_head \<Rightarrow> uuid \<Rightarrow> safety_event_kind \<Rightarrow> backup_archive_state \<Rightarrow> signed_journal_entry"
  where "archive_entry sg signer head request kind archive = entry_sign sg signer
    \<lparr> je_installation_id = wh_installation_id head, je_fingerprint_key_id = wh_fingerprint_key_id head,
      je_continuity_proof = wh_continuity_proof head, je_request_id = request, je_sequence = wh_sequence head + 1,
      je_previous_digest = wh_chain_digest head, je_event_kind = kind,
      je_generation_id = wh_active_generation_id head, je_activation_epoch = wh_activation_epoch head,
      je_state = with_backup_archive_state (wh_state head) archive, je_signer_public_key = 0, je_signature = 0 \<rparr>"

lemma archive_entry_accepted:
  assumes law: "signatures_verify sg" and key: "wh_journal_public_key head = sg_public_key sg signer"
    and room: "unat (wh_sequence head) < 2 ^ 64 - 1" and kind: "kind \<noteq> GenerationRegistered"
    and exact: "exact_event_successor sha kind head (archive_entry sg signer head request kind archive)"
  shows "head_step sha sg head (archive_entry sg signer head request kind archive) =
    Ok (head_after sha head (archive_entry sg signer head request kind archive))"
proof -
  have "checked_add (wh_sequence head) 1 = Some (wh_sequence head + 1)"
    using room by (simp add: checked_add_def)
  then show ?thesis
    using law key kind exact
    by (simp add: head_step_def accept_signed_def entry_verify_def archive_entry_def entry_sign_def Let_def
        signatures_verify_def entry_canonical_bytes_def)
qed

lemma call_event_exact:
  assumes "exact_successor_of_call sha call s' (ws_backup_archive_state (wh_state head))"
    and "event_of_call call = Some kind"
  shows "exact_event_successor sha kind head (archive_entry sg signer head request kind s')"
  using assms
  by (cases call) (auto simp: archive_entry_def entry_sign_def Let_def with_backup_archive_state_def
      exact_archive_lifecycle_transition_def)


text \<open>
  C18: every archive operation can be journalled, and only it changes.  Take a head whose archive
  is well formed and whose journal key signs verifiably, and any call on that archive that is accepted (a set
  being started at ordinal zero; releases have no event).  The entry that carries the new archive under
  the call's kind of event is accepted; the head after it has the new archive, and keeps the lineage,
  the active generation, the epoch, and the restore sections.
\<close>

theorem archive_call_is_journalled:
  assumes "signatures_verify sg" "wh_journal_public_key head = sg_public_key sg signer"
    and "unat (wh_sequence head) < 2 ^ 64 - 1"
    and "archive_ok sha (ws_backup_archive_state (wh_state head))"
    and "archive_perform sha (ws_backup_archive_state (wh_state head)) call = Ok s'"
    and "event_of_call call = Some kind" "\<forall>d h. call = Call_Start d h \<longrightarrow> ah_checkpoint_ordinal h = 0"
  shows "\<exists>h'. head_step sha sg head (archive_entry sg signer head request kind s') = Ok h' \<and>
    ws_backup_archive_state (wh_state h') = s' \<and> same_sections (wh_state head) (wh_state h') \<and>
    wh_active_generation_id h' = wh_active_generation_id head \<and> wh_activation_epoch h' = wh_activation_epoch head"
proof -
  have "\<And>i h r. call \<noteq> Call_ReleaseHold i h r" "kind \<noteq> GenerationRegistered"
    using assms(6) by (cases call; auto)+
  then have "head_step sha sg head (archive_entry sg signer head request kind s') =
      Ok (head_after sha head (archive_entry sg signer head request kind s'))"
    using assms call_is_exact by (intro archive_entry_accepted call_event_exact) blast+
  then show ?thesis
    by (auto simp: head_after_def archive_entry_def entry_sign_def Let_def with_backup_archive_state_def
        same_sections_def)
qed

theorem archive_call_is_journalled_witness:
  "\<exists>h'. head_step genesis_sha (sample_signatures 6) sample_head
      (archive_entry (sample_signatures 6) () sample_head 8 BackupSetStarted \<lparr> ba_sets = [(7, fresh_set)] \<rparr>) = Ok h' \<and>
    ws_backup_archive_state (wh_state h') = \<lparr> ba_sets = [(7, fresh_set)] \<rparr>"
proof -
  have head: "ws_backup_archive_state (wh_state sample_head) = archive_empty" "wh_sequence sample_head = 0"
    "wh_journal_public_key sample_head = sg_public_key (sample_signatures 6) ()"
    by (simp_all add: sample_head_def witness_head_genesis_def witness_state_genesis_def sample_signatures_def)
  have "archive_perform genesis_sha archive_empty (Call_Start sample_identity (archive_head_genesis 9)) =
      Ok \<lparr> ba_sets = [(7, fresh_set)] \<rparr>"
    using sample_prefixes(1) [of genesis_sha] by (auto simp: stream_calls_def and_then_Ok_iff)
  then show ?thesis
    using archive_call_is_journalled [OF sample_signatures_verify [of 6] head(3), where sha = genesis_sha and request = 8
        and s' = "\<lparr> ba_sets = [(7, fresh_set)] \<rparr>" and kind = BackupSetStarted
        and call = "Call_Start sample_identity (archive_head_genesis 9)"]
    by (auto simp: head archive_empty_ok archive_head_genesis_def)
qed

end
